(* ===== verification/Prelude.thy ===== *)
theory Prelude
  imports Complex_Main "HOL-Library.AList" "HOL-Library.Char_ord" "HOL-Library.List_Lexorder"
    "HOL-Library.Sublist" "HOL-Library.Multiset"
begin

text \<open>
  Shared vocabulary of the development.
  \<^item> Programs: a Python routine that reads and mutates objects and may raise is a function from
    a state to a result and the state left behind. The state survives a raise, as it does in
    Python. \<open>bindP\<close> is sequencing, \<open>raise\<close> and \<open>catchP\<close> are raise and try/except.
  \<^item> A weakest-precondition reading \<open>wp\<close> of programs, whose equations form the collection
    \<open>wp_simps\<close>; most proofs of the development are a call of \<open>simp add: wp_simps\<close>.
  \<^item> Dictionaries: Python's insertion-ordered dict is an association list, \<open>dget\<close>/\<open>dset\<close>
    are indexing and item assignment.
  \<^item> Strings: \<open>string\<close> is a list of 8-bit characters. The code of a character is its Unicode
    code point, except that \<open>0x85\<close> stands for U+2026, the only character above 255 the source
    writes.
\<close>

named_theorems wp_simps \<open>equations of the weakest-precondition reading\<close>
named_theorems frame_simps \<open>what an operation leaves unchanged\<close>

section \<open>Programs with state and exceptions\<close>

type_synonym ('s, 'e, 'a) prog = "'s \<Rightarrow> ('e + 'a) \<times> 's"

definition ret :: "'a \<Rightarrow> ('s, 'e, 'a) prog" where
  "ret x = (\<lambda>s. (Inr x, s))"

definition raise :: "'e \<Rightarrow> ('s, 'e, 'a) prog" where
  "raise e = (\<lambda>s. (Inl e, s))"

definition bindP :: "('s, 'e, 'a) prog \<Rightarrow> ('a \<Rightarrow> ('s, 'e, 'b) prog) \<Rightarrow> ('s, 'e, 'b) prog" where
  "bindP m k = (\<lambda>s. case m s of (Inl e, t) \<Rightarrow> (Inl e, t) | (Inr a, t) \<Rightarrow> k a t)"

definition getsP :: "('s \<Rightarrow> 'a) \<Rightarrow> ('s, 'e, 'a) prog" where
  "getsP f = (\<lambda>s. (Inr (f s), s))"

definition updP :: "('s \<Rightarrow> 's) \<Rightarrow> ('s, 'e, unit) prog" where
  "updP f = (\<lambda>s. (Inr (), f s))"

definition catchP :: "('s, 'e, 'a) prog \<Rightarrow> ('e \<Rightarrow> ('s, 'f, 'a) prog) \<Rightarrow> ('s, 'f, 'a) prog" where
  "catchP m h = (\<lambda>s. case m s of (Inl e, t) \<Rightarrow> h e t | (Inr a, t) \<Rightarrow> (Inr a, t))"

definition whenP :: "bool \<Rightarrow> ('s, 'e, unit) prog \<Rightarrow> ('s, 'e, unit) prog" where
  "whenP b m = (if b then m else ret ())"

text \<open>A pure computation that may raise, inside a program.\<close>

definition liftP :: "'e + 'a \<Rightarrow> ('s, 'e, 'a) prog" where
  "liftP r = (\<lambda>s. (r, s))"

text \<open>A program on a component of the state (an attribute of the object).\<close>

definition zoomP :: "('w \<Rightarrow> 's) \<Rightarrow> ('s \<Rightarrow> 'w \<Rightarrow> 'w) \<Rightarrow> ('s, 'e, 'a) prog \<Rightarrow> ('w, 'e, 'a) prog" where
  "zoomP g p m = (\<lambda>w. case m (g w) of (r, s) \<Rightarrow> (r, p s w))"

text \<open>A \<open>for\<close> loop whose body returns nothing; a raise leaves the loop.\<close>

fun forP :: "'x list \<Rightarrow> ('x \<Rightarrow> ('s, 'e, unit) prog) \<Rightarrow> ('s, 'e, unit) prog" where
  "forP [] body = ret ()"
| "forP (x # xs) body = bindP (body x) (\<lambda>_. forP xs body)"

text \<open>Result and state of a run.\<close>

definition result :: "('s, 'e, 'a) prog \<Rightarrow> 's \<Rightarrow> 'e + 'a" where
  "result m s = fst (m s)"

definition final :: "('s, 'e, 'a) prog \<Rightarrow> 's \<Rightarrow> 's" where
  "final m s = snd (m s)"

section \<open>Weakest preconditions\<close>

definition wp :: "('s, 'e, 'a) prog \<Rightarrow> ('a \<Rightarrow> 's \<Rightarrow> bool) \<Rightarrow> ('e \<Rightarrow> 's \<Rightarrow> bool) \<Rightarrow> 's \<Rightarrow> bool" where
  "wp m Q E s = (case m s of (Inr a, t) \<Rightarrow> Q a t | (Inl e, t) \<Rightarrow> E e t)"

lemma wp_ret [wp_simps]: "wp (ret x) Q E s = Q x s"
  by (simp add: wp_def ret_def)

lemma wp_raise [wp_simps]: "wp (raise e) Q E s = E e s"
  by (simp add: wp_def raise_def)

lemma wp_bindP [wp_simps]: "wp (bindP m k) Q E s = wp m (\<lambda>a t. wp (k a) Q E t) E s"
  by (simp add: wp_def bindP_def split: prod.splits sum.splits)

lemma wp_getsP [wp_simps]: "wp (getsP f) Q E s = Q (f s) s"
  by (simp add: wp_def getsP_def)

lemma wp_updP [wp_simps]: "wp (updP f) Q E s = Q () (f s)"
  by (simp add: wp_def updP_def)

lemma wp_catchP [wp_simps]: "wp (catchP m h) Q E s = wp m Q (\<lambda>e t. wp (h e) Q E t) s"
  by (simp add: wp_def catchP_def split: prod.splits sum.splits)

lemma wp_whenP [wp_simps]: "wp (whenP b m) Q E s = (if b then wp m Q E s else Q () s)"
  by (simp add: whenP_def wp_ret)

lemma wp_liftP [wp_simps]: "wp (liftP r) Q E s = (case r of Inl e \<Rightarrow> E e s | Inr a \<Rightarrow> Q a s)"
  by (simp add: wp_def liftP_def split: sum.splits)

lemma wp_zoomP [wp_simps]:
  "wp (zoomP g p m) Q E w = wp m (\<lambda>a s. Q a (p s w)) (\<lambda>e s. E e (p s w)) (g w)"
  by (simp add: wp_def zoomP_def split: prod.splits sum.splits)

lemma wp_if [wp_simps]: "wp (if b then m else n) Q E s = (if b then wp m Q E s else wp n Q E s)"
  by simp

lemma wp_let [wp_simps]: "wp (Let x f) Q E s = wp (f x) Q E s"
  by simp

lemma wp_case_option [wp_simps]:
  "wp (case x of None \<Rightarrow> m | Some a \<Rightarrow> n a) Q E s
     = (case x of None \<Rightarrow> wp m Q E s | Some a \<Rightarrow> wp (n a) Q E s)"
  by (simp split: option.splits)

lemma wp_case_sum [wp_simps]:
  "wp (case x of Inl e \<Rightarrow> m e | Inr a \<Rightarrow> n a) Q E s
     = (case x of Inl e \<Rightarrow> wp (m e) Q E s | Inr a \<Rightarrow> wp (n a) Q E s)"
  by (simp split: sum.splits)

lemma wp_case_prod [wp_simps]:
  "wp (case x of (a, b) \<Rightarrow> m a b) Q E s = (case x of (a, b) \<Rightarrow> wp (m a b) Q E s)"
  by (simp split: prod.splits)

lemma wp_mono:
  "wp m Q E s \<Longrightarrow> (\<And>a t. Q a t \<Longrightarrow> Q' a t) \<Longrightarrow> (\<And>e t. E e t \<Longrightarrow> E' e t) \<Longrightarrow> wp m Q' E' s"
  by (auto simp: wp_def split: prod.splits sum.splits)

lemma wp_conj:
  "wp m Q E s \<Longrightarrow> wp m Q' E' s \<Longrightarrow> wp m (\<lambda>a t. Q a t \<and> Q' a t) (\<lambda>e t. E e t \<and> E' e t) s"
  by (auto simp: wp_def split: prod.splits sum.splits)

lemma wp_trivial [simp]: "wp m (\<lambda>_ _. True) (\<lambda>_ _. True) s"
  by (auto simp: wp_def split: prod.splits sum.splits)

lemma wp_run_Inr: "wp m Q E s \<Longrightarrow> m s = (Inr a, t) \<Longrightarrow> Q a t"
  by (simp add: wp_def)

lemma wp_run_Inl: "wp m Q E s \<Longrightarrow> m s = (Inl e, t) \<Longrightarrow> E e t"
  by (simp add: wp_def)

lemma wp_iff_run:
  "wp m Q E s \<longleftrightarrow> (\<forall>a t. m s = (Inr a, t) \<longrightarrow> Q a t) \<and> (\<forall>e t. m s = (Inl e, t) \<longrightarrow> E e t)"
  by (auto simp: wp_def split: prod.splits sum.splits)

lemma wp_final: "wp m (\<lambda>_ t. I t) (\<lambda>_ t. I t) s \<longleftrightarrow> I (final m s)"
  by (auto simp: wp_def final_def split: prod.splits sum.splits)

text \<open>A loop invariant carries over a \<open>for\<close> loop, whether the loop ends or is left by a raise.\<close>

lemma wp_forP:
  assumes body: "\<And>x t. x \<in> set xs \<Longrightarrow> I t \<Longrightarrow> wp (body x) (\<lambda>_. I) E t"
    and "I s"
  shows "wp (forP xs body) (\<lambda>_. I) E s"
  using assms
proof (induction xs arbitrary: s)
  case Nil
  then show ?case by (simp add: wp_simps)
next
  case (Cons x xs)
  have "wp (body x) (\<lambda>_. I) E s" using Cons.prems by simp
  then show ?case
    by (auto simp: wp_simps elim!: wp_mono intro!: Cons.IH Cons.prems(1))
qed

section \<open>Dictionaries\<close>

type_synonym ('k, 'v) dict = "('k \<times> 'v) list"

abbreviation dget :: "('k, 'v) dict \<Rightarrow> 'k \<Rightarrow> 'v option" where
  "dget d k \<equiv> map_of d k"

abbreviation dset :: "'k \<Rightarrow> 'v \<Rightarrow> ('k, 'v) dict \<Rightarrow> ('k, 'v) dict" where
  "dset k v d \<equiv> AList.update k v d"

abbreviation keys_of :: "('k, 'v) dict \<Rightarrow> 'k set" where
  "keys_of d \<equiv> fst ` set d"

text \<open>A dict never holds a key twice.\<close>

definition wf_dict :: "('k, 'v) dict \<Rightarrow> bool" where
  "wf_dict d \<longleftrightarrow> distinct (map fst d)"

lemma wf_dict_Nil [simp]: "wf_dict []"
  by (simp add: wf_dict_def)

lemma wf_dict_dset [simp, intro]: "wf_dict d \<Longrightarrow> wf_dict (dset k v d)"
  by (simp add: wf_dict_def distinct_update)

lemma dget_dset [simp]: "dget (dset k v d) k' = (if k' = k then Some v else dget d k')"
  by (simp add: update_conv')

lemma dset_fresh: "dget d k = None \<Longrightarrow> dset k v d = d @ [(k, v)]"
  by (induction d) (auto split: if_splits)

lemma wf_dict_dget_iff: "wf_dict d \<Longrightarrow> dget d k = Some v \<longleftrightarrow> (k, v) \<in> set d"
  by (simp add: wf_dict_def)

lemma wf_dict_values:
  "wf_dict d \<Longrightarrow> v \<in> set (map snd d) \<longleftrightarrow> (\<exists>k. dget d k = Some v)"
  by (force simp: wf_dict_dget_iff)

lemma keys_of_iff: "k \<in> keys_of d \<longleftrightarrow> dget d k \<noteq> None"
  by (simp add: map_of_eq_None_iff)

section \<open>Sorting\<close>

text \<open>\<open>sorted(set(xs))\<close>: each element once, ascending.\<close>

definition sorted_set :: "('a :: linorder) list \<Rightarrow> 'a list" where
  "sorted_set xs = sort (remdups xs)"

lemma set_sorted_set [simp]: "set (sorted_set xs) = set xs"
  by (simp add: sorted_set_def)

lemma distinct_sorted_set [simp]: "distinct (sorted_set xs)"
  by (simp add: sorted_set_def)

lemma sorted_sorted_set [simp]: "sorted (sorted_set xs)"
  by (simp add: sorted_set_def)

lemma sorted_set_unique: "set xs = set ys \<Longrightarrow> sorted_set xs = sorted_set ys"
  by (metis distinct_sorted_set set_sorted_set sorted_distinct_set_unique sorted_sorted_set)

lemma sorted_set_idem [simp]: "sorted_set (sorted_set xs) = sorted_set xs"
  by (rule sorted_set_unique) simp

lemma sorted_set_eq_Nil [simp]: "sorted_set xs = [] \<longleftrightarrow> xs = []"
  by (metis set_empty set_sorted_set)

text \<open>
  \<open>sorted(xs, key=f, reverse=True)\<close>: descending by key, equal keys keep their order (Python
  reverses, sorts stably and reverses back).
\<close>

definition sort_desc_by :: "('a \<Rightarrow> 'b :: linorder) \<Rightarrow> 'a list \<Rightarrow> 'a list" where
  "sort_desc_by f xs = rev (sort_key f (rev xs))"

lemma set_sort_desc_by [simp]: "set (sort_desc_by f xs) = set xs"
  by (simp add: sort_desc_by_def)

lemma mset_sort_desc_by [simp]: "mset (sort_desc_by f xs) = mset xs"
  by (metis mset_rev mset_sort sort_desc_by_def)

lemma length_sort_desc_by [simp]: "length (sort_desc_by f xs) = length xs"
  by (simp add: sort_desc_by_def)

lemma sort_desc_by_sorted: "sorted (rev (map f (sort_desc_by f xs)))"
  by (simp add: sort_desc_by_def rev_map)

lemma sort_desc_by_stable: "filter (\<lambda>x. f x = k) (sort_desc_by f xs) = filter (\<lambda>x. f x = k) xs"
  by (simp add: sort_desc_by_def rev_filter [symmetric] sort_key_stable)

section \<open>Strings\<close>

definition code_of :: "char \<Rightarrow> nat" where
  "code_of c = (of_char c :: nat)"

lemma code_of_inj: "code_of c = code_of d \<Longrightarrow> c = d"
  by (simp add: code_of_def)

text \<open>U+2026, the ellipsis appended to a truncated reason.\<close>

definition ellipsis :: char where
  "ellipsis = CHR 0x85"

text \<open>What \<open>str.split()\<close> and \<open>str.strip()\<close> treat as white space.\<close>

definition is_space :: "char \<Rightarrow> bool" where
  "is_space c = (let n = code_of c in
     (9 \<le> n \<and> n \<le> 13) \<or> (28 \<le> n \<and> n \<le> 32) \<or> n = 160)"

text \<open>\<open>s.strip()\<close>.\<close>

definition strip :: "string \<Rightarrow> string" where
  "strip s = rev (dropWhile is_space (rev (dropWhile is_space s)))"

text \<open>\<open>s.split()\<close>: the maximal runs of characters that are not white space.\<close>

function split_ws :: "string \<Rightarrow> string list" where
  "split_ws s = (let t = dropWhile is_space s in
     if t = [] then [] else takeWhile (Not \<circ> is_space) t # split_ws (dropWhile (Not \<circ> is_space) t))"
  by pat_completeness auto
termination
proof (relation "measure length", simp)
  fix s x :: string
  assume x: "x = dropWhile is_space s" and ne: "x \<noteq> []"
  obtain c cs where x_eq: "x = c # cs" using ne by (cases x) simp_all
  have "\<not> is_space c" using hd_dropWhile [of is_space s] x x_eq by (metis list.distinct(1) list.sel(1))
  then have "length (dropWhile (Not \<circ> is_space) x) \<le> length cs"
    by (simp add: x_eq length_dropWhile_le)
  moreover have "length x \<le> length s" using x by (simp add: length_dropWhile_le)
  ultimately show "(dropWhile (Not \<circ> is_space) x, s) \<in> measure length"
    by (simp add: x_eq)
qed

declare split_ws.simps [simp del]

text \<open>\<open>s.lower()\<close> is \<open>map lower_char s\<close>, for the letters of ASCII.\<close>

definition lower_char :: "char \<Rightarrow> char" where
  "lower_char c = (if 65 \<le> code_of c \<and> code_of c \<le> 90 then char_of (code_of c + 32) else c)"

text \<open>\<open>s.split(c)\<close>.\<close>

fun split_on :: "char \<Rightarrow> string \<Rightarrow> string list" where
  "split_on c [] = [[]]"
| "split_on c (x # xs) = (if x = c then [] # split_on c xs
     else (case split_on c xs of [] \<Rightarrow> [[x]] | y # ys \<Rightarrow> (x # y) # ys))"

text \<open>\<open>sep.join(parts)\<close>.\<close>

fun join :: "string \<Rightarrow> string list \<Rightarrow> string" where
  "join sep [] = []"
| "join sep [x] = x"
| "join sep (x # y # zs) = x @ sep @ join sep (y # zs)"

text \<open>\<open>str(n)\<close> of an integer.\<close>

definition digit :: "nat \<Rightarrow> char" where
  "digit n = char_of (48 + n)"

fun str_nat :: "nat \<Rightarrow> string" where
  "str_nat n = (if n < 10 then [digit n] else str_nat (n div 10) @ [digit (n mod 10)])"

declare str_nat.simps [simp del]

definition str_int :: "int \<Rightarrow> string" where
  "str_int i = (if i < 0 then CHR ''-'' # str_nat (nat (- i)) else str_nat (nat i))"

definition is_digit :: "char \<Rightarrow> bool" where
  "is_digit c \<longleftrightarrow> 48 \<le> code_of c \<and> code_of c \<le> 57"

definition digit_val :: "char \<Rightarrow> nat" where
  "digit_val c = code_of c - 48"

definition nat_of_digits :: "string \<Rightarrow> nat" where
  "nat_of_digits s = foldl (\<lambda>n c. 10 * n + digit_val c) 0 s"

lemma code_of_digit [simp]: "n < 10 \<Longrightarrow> code_of (digit n) = 48 + n"
  by (simp add: code_of_def digit_def)

lemma digit_val_digit [simp]: "n < 10 \<Longrightarrow> digit_val (digit n) = n"
  by (simp add: digit_val_def)

lemma is_digit_digit [simp]: "n < 10 \<Longrightarrow> is_digit (digit n)"
  by (simp add: is_digit_def)

lemma str_nat_digits: "c \<in> set (str_nat n) \<Longrightarrow> is_digit c"
proof (induction n rule: str_nat.induct)
  case (1 n)
  then show ?case by (cases "n < 10") (auto simp: str_nat.simps [of n])
qed

lemma str_nat_nonempty [simp]: "str_nat n \<noteq> []"
  by (subst str_nat.simps) simp

lemma nat_of_digits_str_nat [simp]: "nat_of_digits (str_nat n) = n"
proof (induction n rule: str_nat.induct)
  case (1 n)
  then show ?case
    by (cases "n < 10") (auto simp: str_nat.simps [of n] nat_of_digits_def)
qed

lemma str_nat_inj: "str_nat m = str_nat n \<Longrightarrow> m = n"
  by (metis nat_of_digits_str_nat)

text \<open>A number followed by something that is no digit can be read back.\<close>

definition digit_free :: "string \<Rightarrow> bool" where
  "digit_free r \<longleftrightarrow> (\<forall>c cs. r = c # cs \<longrightarrow> \<not> is_digit c)"

lemma takeWhile_digits:
  "digit_free r \<Longrightarrow> takeWhile is_digit (str_nat n @ r) = str_nat n"
  using str_nat_digits by (cases r) (auto simp: digit_free_def takeWhile_append)

lemma str_nat_append_inj:
  assumes "str_nat m @ r = str_nat n @ r'" and "digit_free r" and "digit_free r'"
  shows "m = n \<and> r = r'"
proof -
  have "str_nat m = str_nat n" using assms takeWhile_digits by metis
  then show ?thesis using assms(1) by (auto dest: str_nat_inj)
qed

lemma str_nat_no_minus: "str_nat n @ r \<noteq> CHR ''-'' # s"
proof (cases "str_nat n")
  case (Cons c cs)
  then have "is_digit c" using str_nat_digits [of c n] by simp
  then show ?thesis using Cons by (auto simp: is_digit_def code_of_def)
qed simp

lemma str_int_append_inj:
  assumes eq: "str_int i @ r = str_int j @ r'" and "digit_free r" and "digit_free r'"
  shows "i = j \<and> r = r'"
proof (cases "i < 0 \<longleftrightarrow> j < 0")
  case True
  then have "str_nat (nat \<bar>i\<bar>) @ r = str_nat (nat \<bar>j\<bar>) @ r'"
    using eq by (auto simp: str_int_def split: if_splits)
  from str_nat_append_inj [OF this assms(2,3)] True show ?thesis by linarith
next
  case False
  then show ?thesis
    using eq str_nat_no_minus str_nat_no_minus [symmetric]
    by (auto simp: str_int_def split: if_splits)
qed

end
