(* ===== verification/Bfs.thy ===== *)
theory Bfs
  imports Prelude
begin

text \<open>
  The breadth-first walk over delegation edges that every storage backend uses for revocation
  (\<open>descendants_breadth_first\<close>): a worklist of levels, one lookup of children per level, a set of
  nodes already seen. The loop is a \<open>partial_function\<close>: a walk that never ended would be \<open>None\<close>.
  The locale \<open>child_lookup\<close> states what the walk needs of the lookup, and its lemmas that the walk
  ends, cycles or not, and returns each reachable node once, level by level.
\<close>

section \<open>The walk\<close>

text \<open>The inner loop: keep the children not seen before (next level, seen set, order).\<close>

definition visit :: "'a \<Rightarrow> 'a list \<times> 'a set \<times> 'a list \<Rightarrow> 'a list \<times> 'a set \<times> 'a list" where
  "visit child st = (case st of (level, seen, order) \<Rightarrow>
     if child \<notin> seen then (level @ [child], insert child seen, order @ [child]) else st)"

partial_function (option) bfs_loop ::
  "('a list \<Rightarrow> 'a list) \<Rightarrow> 'a list \<Rightarrow> 'a set \<Rightarrow> 'a list \<Rightarrow> 'a list option" where
  "bfs_loop children level seen order =
     (if level = [] then Some order
      else let (level', seen', order') = fold visit (children level) ([], seen, order)
           in bfs_loop children level' seen' order')"

declare bfs_loop.simps [code]

definition bfs :: "('a list \<Rightarrow> 'a list) \<Rightarrow> 'a \<Rightarrow> 'a list option" where
  "bfs children start = bfs_loop children [start] {start} [start]"

lemma bfs_loop_Nil [simp]: "bfs_loop children [] seen order = Some order"
  by (simp add: bfs_loop.simps)

section \<open>Layers of a relation\<close>

definition upto_dist :: "('a \<times> 'a) set \<Rightarrow> 'a \<Rightarrow> nat \<Rightarrow> 'a set" where
  "upto_dist R x n = (\<Union>m \<le> n. (R ^^ m) `` {x})"

definition layer :: "('a \<times> 'a) set \<Rightarrow> 'a \<Rightarrow> nat \<Rightarrow> 'a set" where
  "layer R x n = (R ^^ n) `` {x} - (\<Union>m < n. (R ^^ m) `` {x})"

lemma upto_dist_0 [simp]: "upto_dist R x 0 = {x}"
  by (simp add: upto_dist_def)

lemma upto_dist_Suc: "upto_dist R x (Suc n) = upto_dist R x n \<union> (R ^^ Suc n) `` {x}"
  by (auto simp: upto_dist_def atMost_Suc)

lemma layer_0 [simp]: "layer R x 0 = {x}"
  by (simp add: layer_def)

lemma layer_subset: "layer R x n \<subseteq> upto_dist R x n"
  by (auto simp: layer_def upto_dist_def)

lemma layer_Suc_eq: "layer R x (Suc n) = (R ^^ Suc n) `` {x} - upto_dist R x n"
  by (simp add: layer_def upto_dist_def lessThan_Suc_atMost)

text \<open>Every node of distance \<open>n + 1\<close> has a predecessor of distance exactly \<open>n\<close>.\<close>

lemma image_layer: "R `` layer R x n - upto_dist R x n = layer R x (Suc n)"
proof
  show "R `` layer R x n - upto_dist R x n \<subseteq> layer R x (Suc n)"
    by (auto simp: layer_Suc_eq) (auto simp: layer_def)
  show "layer R x (Suc n) \<subseteq> R `` layer R x n - upto_dist R x n"
  proof
    fix y assume y: "y \<in> layer R x (Suc n)"
    then obtain z where z: "(x, z) \<in> R ^^ n" "(z, y) \<in> R" by (auto simp: layer_Suc_eq)
    have "z \<notin> (\<Union>m < n. (R ^^ m) `` {x})"
    proof
      assume "z \<in> (\<Union>m < n. (R ^^ m) `` {x})"
      then obtain m where "m < n" "(x, z) \<in> R ^^ m" by auto
      then have "(x, y) \<in> R ^^ Suc m" "Suc m \<le> n" using z(2) by auto
      then have "y \<in> upto_dist R x n" unfolding upto_dist_def by (intro UN_I [of "Suc m"]) auto
      then show False using y by (simp add: layer_Suc_eq)
    qed
    then show "y \<in> R `` layer R x n - upto_dist R x n"
      using y z by (auto simp: layer_def upto_dist_def lessThan_Suc_atMost)
  qed
qed

lemma upto_dist_layer: "upto_dist R x (Suc n) = upto_dist R x n \<union> layer R x (Suc n)"
  by (auto simp: upto_dist_Suc layer_Suc_eq)

lemma upto_dist_reach: "upto_dist R x n \<subseteq> R\<^sup>* `` {x}"
  by (auto simp: upto_dist_def relpow_imp_rtrancl)

lemma upto_dist_closed: "R `` upto_dist R x n \<subseteq> upto_dist R x (Suc n)"
proof
  fix y assume "y \<in> R `` upto_dist R x n"
  then obtain z m where zm: "(z, y) \<in> R" "m \<le> n" "(x, z) \<in> R ^^ m" by (auto simp: upto_dist_def)
  then have "(x, y) \<in> R ^^ Suc m" by auto
  then show "y \<in> upto_dist R x (Suc n)" using zm(2) unfolding upto_dist_def by (intro UN_I [of "Suc m"]) auto
qed

lemma empty_layer_reach: "layer R x (Suc n) = {} \<Longrightarrow> R\<^sup>* `` {x} = upto_dist R x n"
proof
  assume "layer R x (Suc n) = {}"
  then have closed: "R `` upto_dist R x n \<subseteq> upto_dist R x n"
    using upto_dist_closed [of R x n] by (simp add: upto_dist_layer)
  have start_in: "x \<in> upto_dist R x n" unfolding upto_dist_def by (intro UN_I [of 0]) auto
  have "(x, y) \<in> R\<^sup>* \<Longrightarrow> y \<in> upto_dist R x n" for y
    by (erule rtrancl_induct, rule start_in) (use closed in blast)
  then show "R\<^sup>* `` {x} \<subseteq> upto_dist R x n" by auto
qed (rule upto_dist_reach)

section \<open>The inner loop\<close>

lemma fold_visit:
  "fold visit xs (l, s, o1) = (l', s', o2) \<Longrightarrow>
    s' = s \<union> set xs \<and> (\<exists>new. l' = l @ new \<and> o2 = o1 @ new \<and> set new = set xs - s \<and> distinct new)"
proof (induction xs arbitrary: l s o1)
  case (Cons x xs)
  show ?case
  proof (cases "x \<in> s")
    case True
    then have "visit x (l, s, o1) = (l, s, o1)" by (simp add: visit_def)
    then show ?thesis using Cons True by (auto simp: insert_absorb)
  next
    case False
    then have "visit x (l, s, o1) = (l @ [x], insert x s, o1 @ [x])" by (simp add: visit_def)
    then have "fold visit xs (l @ [x], insert x s, o1 @ [x]) = (l', s', o2)"
      using Cons.prems by simp
    from Cons.IH [OF this] obtain new where
      "s' = insert x s \<union> set xs" "l' = (l @ [x]) @ new" "o2 = (o1 @ [x]) @ new"
      "set new = set xs - insert x s" "distinct new" by auto
    then show ?thesis using False by (intro conjI exI [of _ "x # new"]) auto
  qed
qed simp

section \<open>The contract\<close>

locale child_lookup =
  fixes children :: "'a list \<Rightarrow> 'a list"
    and R :: "('a \<times> 'a) set"
  assumes children_set: "set (children xs) = R `` set xs"
    and finite_reach: "finite (R\<^sup>* `` {x})"
begin

lemma bfs_loop_levels:
  assumes "set level = layer R x n" and "seen = upto_dist R x n"
    and "distinct order" and "set order = upto_dist R x n" and "order = concat levels"
    and "length levels = Suc n" and "\<forall>i < length levels. set (levels ! i) = layer R x i"
  shows "\<exists>order' levels'. bfs_loop children level seen order = Some order' \<and> distinct order'
    \<and> set order' = R\<^sup>* `` {x} \<and> order' = concat levels' \<and> hd levels' = hd levels
    \<and> (\<forall>i < length levels'. set (levels' ! i) = layer R x i)"
  using assms
proof (induction "card (R\<^sup>* `` {x} - seen)" arbitrary: level seen order levels n rule: less_induct)
  case less
  obtain l' s' o' where f: "fold visit (children level) ([], seen, order) = (l', s', o')"
    by (cases "fold visit (children level) ([], seen, order)") auto
  from fold_visit [OF f] have s': "s' = seen \<union> R `` layer R x n"
    and o': "o' = order @ l'" and l': "set l' = R `` layer R x n - seen" and d: "distinct l'"
    by (auto simp: children_set less.prems(1))
  have lay: "set l' = layer R x (Suc n)"
    using image_layer [of R x n] l' less.prems(2) by simp
  have seen': "s' = upto_dist R x (Suc n)"
    using lay l' s' less.prems(2) by (auto simp: upto_dist_layer)
  show ?case
  proof (cases "level = [] \<or> l' = []")
    case True
    then have empty: "layer R x (Suc n) = {}" "bfs_loop children level seen order = Some order"
    proof -
      show "layer R x (Suc n) = {}"
        using True lay less.prems(1) image_layer [of R x n] by auto
      show "bfs_loop children level seen order = Some order"
      proof (cases "level = []")
        case False
        then show ?thesis using True o' by (subst bfs_loop.simps) (simp add: f)
      qed simp
    qed
    then show ?thesis using less.prems empty_layer_reach [OF empty(1)] by blast
  next
    case False
    have sub: "s' \<subseteq> R\<^sup>* `` {x}" using seen' upto_dist_reach by metis
    obtain y where "y \<in> set l'" using False by (cases l') auto
    then have "y \<in> R\<^sup>* `` {x} - seen" "y \<in> s'" using l' s' sub by auto
    then have smaller: "card (R\<^sup>* `` {x} - s') < card (R\<^sup>* `` {x} - seen)"
      using finite_reach [of x] s' by (intro psubset_card_mono) auto
    have lv: "\<forall>i < length (levels @ [l']). set ((levels @ [l']) ! i) = layer R x i"
      using less.prems(6,7) lay by (auto simp: nth_append less_Suc_eq)
    have d': "distinct o'" using d l' less.prems(2,3,4) by (auto simp: o')
    have so: "set o' = upto_dist R x (Suc n)" using lay less.prems(4) by (simp add: o' upto_dist_layer)
    have hd: "hd (levels @ [l']) = hd levels" using less.prems(6) by (cases levels) auto
    have "bfs_loop children level seen order = bfs_loop children l' s' o'"
      using False f by (subst bfs_loop.simps) simp
    then show ?thesis
      using less.hyps [OF smaller lay seen' d' so _ _ lv] less.prems(5,6) o' hd by simp
  qed
qed

text \<open>The walk ends on every input, and returns the reachable nodes level by level, each once.\<close>

lemma bfs_levels:
  "\<exists>order levels. bfs children x = Some order \<and> distinct order \<and> set order = R\<^sup>* `` {x}
    \<and> order = concat levels \<and> hd levels = [x] \<and> (\<forall>i < length levels. set (levels ! i) = layer R x i)"
proof -
  have 1: "\<forall>i < length [[x]]. set ([[x]] ! i) = layer R x i" by simp
  have 2: "[x] = concat [[x]]" "length [[x]] = Suc 0" "hd [[x]] = [x]" "distinct [x]"
    "set [x] = layer R x 0" "set [x] = upto_dist R x 0" "{x} = upto_dist R x 0" by simp_all
  show ?thesis unfolding bfs_def
    using bfs_loop_levels [OF 2(5,7,4,6,1,2) 1] unfolding 2(3) by blast
qed

text \<open>The levels as the layers of the graph, for any number of them that is large enough.\<close>

lemma bfs_layers:
  assumes "bfs children x = Some order"
  shows "\<exists>n. \<forall>k \<ge> n. \<exists>levels. order = concat levels \<and> map set levels = map (layer R x) [0..<k]"
proof -
  obtain levels where l: "set order = R\<^sup>* `` {x}" "order = concat levels"
      "\<forall>i < length levels. set (levels ! i) = layer R x i"
    using bfs_levels [of x] assms by auto
  have none: "layer R x i = {}" if "length levels \<le> i" for i
  proof (rule equals0I)
    fix y assume y: "y \<in> layer R x i"
    then have "y \<in> set order" by (auto simp: l(1) layer_def relpow_imp_rtrancl)
    then obtain xs where "xs \<in> set levels" "y \<in> set xs" using l(2) by auto
    then obtain m where "m < length levels" "y \<in> layer R x m" using l(3) by (auto simp: in_set_conv_nth [of xs])
    then show False using y that by (auto simp: layer_def)
  qed
  have "\<exists>levels. order = concat levels \<and> map set levels = map (layer R x) [0..<k]" if "length levels \<le> k" for k
  proof (intro exI conjI)
    let ?padded = "levels @ replicate (k - length levels) []"
    show "order = concat ?padded" using l(2) by simp
    show "map set ?padded = map (layer R x) [0..<k]"
      using that l(3) none by (intro nth_equalityI) (auto simp: nth_append)
  qed
  then show ?thesis by blast
qed

lemma bfs_Some: "\<exists>order. bfs children x = Some order"
  using bfs_levels by blast

lemma bfs_set: "bfs children x = Some order \<Longrightarrow> set order = R\<^sup>* `` {x}"
  using bfs_levels [of x] by force

lemma bfs_distinct: "bfs children x = Some order \<Longrightarrow> distinct order"
  using bfs_levels [of x] by force

end

end
