(* ===== verification/Storage.thy ===== *)
theory Storage
  imports Bfs
begin

text \<open>
  The part of \<open>agperms/storage/protocol.py\<close> that revocation rests on, as a hierarchy of contracts:
  \<open>edge_store\<close> (the lookup of children), \<open>revocation_store\<close> (edges and revocations together, with the
  promises the protocol states: duplicate edges are no-ops, a bulk revocation of distinct tokens is
  all-or-nothing, nothing is ever un-revoked). What a client derives from the promises is proved here once, for
  every backend.
\<close>

section \<open>Edges\<close>

locale edge_store =
  fixes children :: "'s \<Rightarrow> 'j list \<Rightarrow> 'j list"
    and edges :: "'s \<Rightarrow> ('j \<times> 'j) set"
  assumes children_are_edges: "set (children s xs) = edges s `` set xs"
    and finite_edges: "finite (edges s)"
begin

lemma finite_reachable: "finite ((edges s)\<^sup>* `` {x})"
proof -
  have "y = x \<or> y \<in> snd ` edges s" if "(x, y) \<in> (edges s)\<^sup>*" for y
    using that by (cases rule: rtrancl.cases) force+
  then have "(edges s)\<^sup>* `` {x} \<subseteq> insert x (snd ` edges s)" by auto
  then show ?thesis using finite_edges by (meson finite.insertI finite_imageI finite_subset)
qed

end

sublocale edge_store \<subseteq> walk: child_lookup "children s" "edges s" for s
  by standard (rule children_are_edges, rule finite_reachable)

section \<open>Revocation\<close>

locale revocation_store = edge_store children edges
  for children :: "'s \<Rightarrow> 'j list \<Rightarrow> 'j list" and edges :: "'s \<Rightarrow> ('j \<times> 'j) set" +
  fixes revoked :: "'s \<Rightarrow> 'j set"
    and add_edge :: "'j \<Rightarrow> 'j \<Rightarrow> 's \<Rightarrow> 's"
    and revoke_many :: "'x \<Rightarrow> 'j list \<Rightarrow> 's \<Rightarrow> 'j list \<times> 's"
  assumes edges_add: "edges (add_edge p c s) = insert (p, c) (edges s)"
    and revoked_add: "revoked (add_edge p c s) = revoked s"
    and revoked_many: "distinct js \<Longrightarrow> revoked (snd (revoke_many x js s)) = revoked s \<union> set js"
    and edges_many: "edges (snd (revoke_many x js s)) = edges s"
    and newly_many: "distinct js \<Longrightarrow> set (fst (revoke_many x js s)) = set js - revoked s"
begin

text \<open>A store is closed when a child of a revoked token is revoked.\<close>

definition closed :: "'s \<Rightarrow> bool" where
  "closed s \<longleftrightarrow> edges s `` revoked s \<subseteq> revoked s"

definition revoke_subtree :: "'x \<Rightarrow> 'j \<Rightarrow> 's \<Rightarrow> 's option" where
  "revoke_subtree x j s = map_option (\<lambda>js. snd (revoke_many x js s)) (bfs (children s) j)"

lemma closed_reach: "closed s \<Longrightarrow> j \<in> revoked s \<Longrightarrow> (edges s)\<^sup>* `` {j} \<subseteq> revoked s"
proof
  fix k assume c: "closed s" and j: "j \<in> revoked s" and "k \<in> (edges s)\<^sup>* `` {j}"
  then have "(j, k) \<in> (edges s)\<^sup>*" by simp
  then show "k \<in> revoked s" by (induction rule: rtrancl_induct) (use c j in \<open>auto simp: closed_def\<close>)
qed

lemma closed_add: "closed s \<Longrightarrow> p \<notin> revoked s \<or> c \<in> revoked s \<Longrightarrow> closed (add_edge p c s)"
  by (auto simp: closed_def edges_add revoked_add)

lemma revoke_subtree_total: "\<exists>t. revoke_subtree x j s = Some t"
  using walk.bfs_Some [of s j] by (auto simp: revoke_subtree_def)

lemma revoke_subtree_revoked:
  "revoke_subtree x j s = Some t \<Longrightarrow> revoked t = revoked s \<union> (edges s)\<^sup>* `` {j}"
  using walk.bfs_set [of s j] walk.bfs_distinct [of s j] by (auto simp: revoke_subtree_def revoked_many)

lemma revoke_subtree_edges: "revoke_subtree x j s = Some t \<Longrightarrow> edges t = edges s"
  by (auto simp: revoke_subtree_def edges_many)

lemma revoke_subtree_closed: "closed s \<Longrightarrow> revoke_subtree x j s = Some t \<Longrightarrow> closed t"
  using revoke_subtree_revoked [of x j s t] revoke_subtree_edges [of x j s t]
  by (auto simp: closed_def intro: rtrancl_into_rtrancl)

text \<open>Revoking again changes nothing and reports nothing new.\<close>

lemma revoke_again: "distinct js \<Longrightarrow> set js \<subseteq> revoked s \<Longrightarrow> fst (revoke_many x js s) = []"
  by (simp add: newly_many Diff_eq_empty_iff flip: set_empty)

end

end
