(* ===== verification/Py_Json.thy ===== *)
theory Py_Json
  imports Prelude
begin

text \<open>
  The part of Python's \<open>json\<close> module the source uses: \<open>json.dumps(obj, sort_keys=True,
  separators=(",", ":"))\<close>. Values are what the audit log and the token payloads hold; numbers
  with a fraction do not occur in what is serialised. The main result is that the output
  determines the value up to the order of the keys of its objects (\<open>json_dumps_inj\<close>), which the
  tamper-evidence argument of the audit chain rests on.
\<close>

datatype json =
    JNull
  | JBool bool
  | JInt int
  | JStr string
  | JList "json list"
  | JObj "(string \<times> json) list"

definition dq :: char where
  "dq = CHR 0x22"

definition bs :: char where
  "bs = CHR 0x5C"

definition hex :: "nat \<Rightarrow> char" where
  "hex n = (if n < 10 then char_of (48 + n) else char_of (87 + n))"

text \<open>Escaping with \<open>ensure_ascii\<close> (the default).\<close>

definition esc :: "char \<Rightarrow> string" where
  "esc c = (let n = code_of c in
     if c = dq then [bs, dq]
     else if c = bs then [bs, bs]
     else if n = 10 then [bs, CHR ''n'']
     else if n = 13 then [bs, CHR ''r'']
     else if n = 9 then [bs, CHR ''t'']
     else if n = 12 then [bs, CHR ''f'']
     else if n = 8 then [bs, CHR ''b'']
     else if c = ellipsis then bs # ''u2026''
     else if 32 \<le> n \<and> n \<le> 126 then [c]
     else bs # ''u00'' @ [hex (n div 16), hex (n mod 16)])"

definition quote :: "string \<Rightarrow> string" where
  "quote s = dq # concat (map esc s) @ [dq]"

primrec dumps :: "json \<Rightarrow> string" where
  "dumps JNull = ''null''"
| "dumps (JBool b) = (if b then ''true'' else ''false'')"
| "dumps (JInt i) = str_int i"
| "dumps (JStr s) = quote s"
| "dumps (JList xs) = ''['' @ join '','' (map dumps xs) @ '']''"
| "dumps (JObj kvs) =
     ''{'' @ join '','' (map (\<lambda>(k, s). quote k @ '':'' @ s) (map (map_prod (\<lambda>k. k) dumps) kvs)) @ ''}''"

text \<open>\<open>sort_keys=True\<close> sorts the items of every object by key.\<close>

primrec sort_keys :: "json \<Rightarrow> json" where
  "sort_keys JNull = JNull"
| "sort_keys (JBool b) = JBool b"
| "sort_keys (JInt i) = JInt i"
| "sort_keys (JStr s) = JStr s"
| "sort_keys (JList xs) = JList (map sort_keys xs)"
| "sort_keys (JObj kvs) = JObj (sort_key fst (map (map_prod (\<lambda>k. k) sort_keys) kvs))"

definition json_dumps :: "json \<Rightarrow> string" where
  "json_dumps j = dumps (sort_keys j)"

section \<open>Reading the escapes back\<close>

text \<open>How long the escape at the front of a string is, and the character it stands for.\<close>

definition esc_len :: "string \<Rightarrow> nat" where
  "esc_len s = (case s of c # d # _ \<Rightarrow> if c = bs then (if d = CHR ''u'' then 6 else 2) else 1 | _ \<Rightarrow> 1)"

definition unhex :: "char \<Rightarrow> nat" where
  "unhex c = (if code_of c < 58 then code_of c - 48 else code_of c - 87)"

definition unesc :: "string \<Rightarrow> char" where
  "unesc s = (case s of
      [c] \<Rightarrow> c
    | [_, d] \<Rightarrow> (if d = CHR ''n'' then char_of (10 :: nat) else if d = CHR ''r'' then char_of (13 :: nat)
        else if d = CHR ''t'' then char_of (9 :: nat) else if d = CHR ''f'' then char_of (12 :: nat)
        else if d = CHR ''b'' then char_of (8 :: nat) else d)
    | [_, _, a, _, x, y] \<Rightarrow> (if a = CHR ''2'' then ellipsis else char_of (16 * unhex x + unhex y))
    | _ \<Rightarrow> dq)"

lemma unhex_hex: "n < 16 \<Longrightarrow> unhex (hex n) = n"
  by (auto simp: unhex_def hex_def code_of_def)

lemma char_eq_code: "c = char_of n \<longleftrightarrow> code_of c = n mod 256" for n :: nat
  by (metis char_of_mod_256 code_of_def char_of_char of_char_of)

lemma code_of_less: "code_of c < 256"
  by (simp add: code_of_def)

lemma unesc_esc: "unesc (esc c) = c"
  using code_of_less [of c]
  by (auto simp: esc_def unesc_def Let_def dq_def bs_def ellipsis_def unhex_hex char_eq_code
      less_mult_imp_div_less intro!: code_of_inj split: list.splits)
     (auto simp: code_of_def)

lemma esc_len_esc_ne: "s \<noteq> [] \<Longrightarrow> esc_len (esc c @ s) = length (esc c)"
  by (cases s) (auto simp: esc_def esc_len_def Let_def dq_def bs_def ellipsis_def
      split: list.splits)

lemma esc_nonempty [simp]: "esc c \<noteq> []"
  by (simp add: esc_def Let_def)

lemma esc_hd [simp]: "esc c \<noteq> dq # ds" "dq # ds \<noteq> esc c"
  by (auto simp: esc_def Let_def dq_def bs_def split: if_splits)

lemma concat_esc_inj:
  "concat (map esc s) @ dq # r = concat (map esc t) @ dq # r' \<Longrightarrow> s = t \<and> r = r'"
proof (induction s arbitrary: t)
  case Nil
  then show ?case
    by (cases t) (auto simp: Cons_eq_append_conv append_eq_Cons_conv)
next
  case (Cons c s)
  show ?case
  proof (cases t)
    case Nil
    then show ?thesis using Cons.prems
      by (auto simp: append_eq_Cons_conv)
  next
    case (Cons d t')
    let ?s = "concat (map esc s) @ dq # r" and ?t = "concat (map esc t') @ dq # r'"
    have eq: "esc c @ ?s = esc d @ ?t" using Cons.prems Cons by simp
    have ne: "?s \<noteq> []" "?t \<noteq> []" by simp_all
    have "length (esc c) = length (esc d)"
      using eq ne esc_len_esc_ne by metis
    then have "esc c = esc d" and st: "?s = ?t" using eq by (auto simp: append_eq_append_conv)
    then have "c = d" using unesc_esc by metis
    then show ?thesis using Cons.IH [OF st] Cons by simp
  qed
qed

lemma quote_append_inj: "quote s @ r = quote t @ r' \<Longrightarrow> s = t \<and> r = r'"
  by (auto simp: quote_def dest: concat_esc_inj)

section \<open>The output determines the value\<close>

text \<open>What may follow a value inside an object or a list.\<close>

definition delim :: "string \<Rightarrow> bool" where
  "delim r \<longleftrightarrow> r = [] \<or> hd r \<in> {CHR '','', CHR '']'', CHR ''}''}"

lemma delim_digit_free: "delim r \<Longrightarrow> digit_free r"
  by (auto simp: delim_def digit_free_def is_digit_def code_of_def)

lemma delim_Cons [simp]: "delim (c # r) \<longleftrightarrow> c \<in> {CHR '','', CHR '']'', CHR ''}''}"
  by (simp add: delim_def)

lemma str_nat_hd: "str_nat n = c # cs \<Longrightarrow> is_digit c"
  by (metis list.set_intros(1) str_nat_digits)

lemma str_int_hd: "str_int i = c # cs \<Longrightarrow> is_digit c \<or> c = CHR ''-''"
  by (auto simp: str_int_def dest: str_nat_hd split: if_splits)

lemma str_int_nonempty [simp]: "str_int i \<noteq> []"
  by (simp add: str_int_def)

text \<open>The shape of a value, read off its first character.\<close>

definition shape :: "char \<Rightarrow> nat" where
  "shape c = (if c = CHR ''n'' then 0 else if c = CHR ''t'' then 1 else if c = CHR ''f'' then 2
     else if is_digit c \<or> c = CHR ''-'' then 3 else if c = dq then 4 else if c = CHR ''['' then 5
     else if c = CHR ''{'' then 6 else 7)"

definition shape_of :: "json \<Rightarrow> nat" where
  "shape_of j = (case j of JNull \<Rightarrow> 0 | JBool b \<Rightarrow> (if b then 1 else 2) | JInt _ \<Rightarrow> 3 | JStr _ \<Rightarrow> 4
     | JList _ \<Rightarrow> 5 | JObj _ \<Rightarrow> 6)"

lemma dumps_hd: "dumps j = c # cs \<Longrightarrow> shape c = shape_of j"
  by (cases j) (auto simp: shape_def shape_of_def quote_def dq_def is_digit_def code_of_def
      dest!: str_int_hd split: if_splits)

lemma dumps_nonempty [simp]: "dumps j \<noteq> []"
  by (cases j) (auto simp: quote_def)

lemma dumps_shape_eq: "dumps a @ r = dumps b @ r' \<Longrightarrow> shape_of a = shape_of b"
  using dumps_hd [of a] dumps_hd [of b] by (cases "dumps a"; cases "dumps b") auto

lemma dumps_no_delim: "\<not> delim (dumps j @ r)"
proof (cases "dumps j")
  case (Cons c cs)
  moreover have "shape_of j \<noteq> 7" by (simp add: shape_of_def split: json.split)
  ultimately show ?thesis using dumps_hd [OF Cons]
    by (auto simp: delim_def shape_def dq_def is_digit_def code_of_def split: if_splits)
qed simp

text \<open>A separated sequence is determined by its text when its elements are.\<close>

lemma join_comma_Cons: "join '','' (x # xs) = x @ concat (map (\<lambda>y. CHR '','' # y) xs)"
  by (induction xs arbitrary: x) auto

definition decodable :: "('a \<Rightarrow> string) \<Rightarrow> 'a \<Rightarrow> bool" where
  "decodable enc x \<longleftrightarrow> (\<forall>y r r'. enc x @ r = enc y @ r' \<longrightarrow> delim r \<longrightarrow> delim r' \<longrightarrow> x = y \<and> r = r')"

lemma tail_inj:
  assumes "\<And>x. x \<in> set xs \<Longrightarrow> decodable enc x" and close: "c = CHR '']'' \<or> c = CHR ''}''"
    and "concat (map (\<lambda>y. CHR '','' # enc y) xs) @ c # r
       = concat (map (\<lambda>y. CHR '','' # enc y) ys) @ c # r'"
  shows "xs = ys \<and> r = r'"
  using assms(1,3)
proof (induction xs arbitrary: ys)
  case Nil
  then show ?case using close by (cases ys) auto
next
  case (Cons x xs)
  from Cons.prems(2) close obtain y ys' where ys: "ys = y # ys'" by (cases ys) auto
  have delim_tail: "delim (concat (map (\<lambda>y. CHR '','' # enc y) zs) @ c # q)" for zs q
    using close by (cases zs) auto
  have "x = y \<and> concat (map (\<lambda>y. CHR '','' # enc y) xs) @ c # r
       = concat (map (\<lambda>y. CHR '','' # enc y) ys') @ c # r'"
    using Cons.prems(2) Cons.prems(1) [of x] ys delim_tail unfolding decodable_def by simp
  then show ?case using Cons ys by auto
qed

lemma seq_inj:
  assumes dec: "\<And>x. x \<in> set xs \<Longrightarrow> decodable enc x" and no_delim: "\<And>x r. \<not> delim (enc x @ r)"
    and close: "c = CHR '']'' \<or> c = CHR ''}''"
    and eq: "join '','' (map enc xs) @ c # r = join '','' (map enc ys) @ c # r'"
  shows "xs = ys \<and> r = r'"
proof (cases xs)
  case Nil
  have "ys = []"
  proof (rule ccontr)
    assume "ys \<noteq> []"
    then obtain y q where "c # r = enc y @ q" using eq Nil by (cases ys) (auto simp: join_comma_Cons)
    then show False using no_delim [of y q] close by (metis delim_Cons insert_iff)
  qed
  then show ?thesis using eq Nil by simp
next
  case (Cons x xs')
  have "ys \<noteq> []"
  proof
    assume "ys = []"
    then obtain q where "enc x @ q = c # r'" using eq Cons by (auto simp: join_comma_Cons)
    then show False using no_delim [of x q] close by (metis delim_Cons insert_iff)
  qed
  then obtain y ys' where ys: "ys = y # ys'" by (cases ys) auto
  let ?t = "\<lambda>zs q. concat (map (\<lambda>y. CHR '','' # enc y) zs) @ c # q"
  have "delim (?t zs q)" for zs q using close by (cases zs) auto
  moreover have "enc x @ ?t xs' r = enc y @ ?t ys' r'"
    using eq Cons ys by (simp add: join_comma_Cons comp_def)
  moreover have "decodable enc x" using dec Cons by simp
  ultimately have "x = y \<and> ?t xs' r = ?t ys' r'" unfolding decodable_def by blast
  then show ?thesis using tail_inj [of xs' enc c r ys' r'] dec close Cons ys by auto
qed

definition item :: "string \<times> json \<Rightarrow> string" where
  "item kv = quote (fst kv) @ '':'' @ dumps (snd kv)"

lemma dumps_JObj: "dumps (JObj kvs) = ''{'' @ join '','' (map item kvs) @ ''}''"
proof -
  have "item = (\<lambda>x. quote (fst x) @ CHR '':'' # dumps (snd x))"
    by (simp add: item_def fun_eq_iff)
  then show ?thesis by (simp add: comp_def case_prod_unfold)
qed

lemma item_no_delim: "\<not> delim (item kv @ r)"
  by (simp add: item_def quote_def dq_def)

lemma decodable_item: "decodable dumps (snd kv) \<Longrightarrow> decodable item kv"
  unfolding decodable_def item_def
  by (auto simp: prod_eq_iff dest!: quote_append_inj)

lemma decodable_dumps: "decodable dumps j"
proof (induction j)
  case (JInt i)
  show ?case unfolding decodable_def
  proof (intro allI impI)
    fix y r r' assume eq: "dumps (JInt i) @ r = dumps y @ r'" and d: "delim r" "delim r'"
    then obtain k where "y = JInt k"
      using dumps_shape_eq [OF eq] by (cases y) (auto simp: shape_of_def split: if_splits)
    then show "JInt i = y \<and> r = r'"
      using eq str_int_append_inj [OF _ delim_digit_free [OF d(1)] delim_digit_free [OF d(2)]] by auto
  qed
next
  case (JStr s)
  show ?case unfolding decodable_def
  proof (intro allI impI)
    fix y r r' assume eq: "dumps (JStr s) @ r = dumps y @ r'"
    then obtain t where "y = JStr t"
      using dumps_shape_eq [OF eq] by (cases y) (auto simp: shape_of_def split: if_splits)
    then show "JStr s = y \<and> r = r'" using eq quote_append_inj [of s r t r'] by simp
  qed
next
  case (JList xs)
  show ?case unfolding decodable_def
  proof (intro allI impI)
    fix y r r' assume eq: "dumps (JList xs) @ r = dumps y @ r'"
    then obtain ys where y: "y = JList ys"
      using dumps_shape_eq [OF eq] by (cases y) (auto simp: shape_of_def split: if_splits)
    then show "JList xs = y \<and> r = r'"
      using eq JList seq_inj [of xs dumps "CHR '']''" r ys r'] dumps_no_delim by auto
  qed
next
  case (JObj kvs)
  have dec: "decodable item kv" if "kv \<in> set kvs" for kv
    using that JObj [of kv "snd kv"] by (auto intro!: decodable_item intro: snds.intros)
  show ?case unfolding decodable_def
  proof (intro allI impI)
    fix y r r' assume eq: "dumps (JObj kvs) @ r = dumps y @ r'"
    from dumps_shape_eq [OF eq] obtain kvs' where y: "y = JObj kvs'"
      by (cases y) (auto simp: shape_of_def split: if_splits)
    then show "JObj kvs = y \<and> r = r'"
      using seq_inj [OF dec item_no_delim, of kvs "CHR ''}''" r kvs' r'] eq
      unfolding dumps_JObj y by simp
  qed
next
  case (JBool b)
  show ?case unfolding decodable_def
  proof (intro allI impI)
    fix y r r' assume eq: "dumps (JBool b) @ r = dumps y @ r'"
    then have "y = JBool b"
      using dumps_shape_eq [OF eq] by (cases y) (auto simp: shape_of_def split: if_splits)
    then show "JBool b = y \<and> r = r'" using eq by simp
  qed
next
  case JNull
  show ?case unfolding decodable_def
  proof (intro allI impI)
    fix y r r' assume eq: "dumps JNull @ r = dumps y @ r'"
    then have "y = JNull"
      using dumps_shape_eq [OF eq] by (cases y) (auto simp: shape_of_def split: if_splits)
    then show "JNull = y \<and> r = r'" using eq by simp
  qed
qed

lemma json_dumps_inj: "json_dumps a = json_dumps b \<Longrightarrow> sort_keys a = sort_keys b"
  using decodable_dumps [of "sort_keys a"] unfolding decodable_def json_dumps_def
  by (metis append_Nil2 delim_def)

end
