(* ===== verification/Env.thy ===== *)
theory Env
  imports Py_Json
begin

text \<open>
  What the program reads from outside: the clock, the source of UUIDs and secrets, SHA-256 and
  the JWT library (PyJWT, third-party). They are one record of functions, an argument \<open>e\<close> of every
  definition that uses them. The readings are numbered: the n-th interaction of the process with
  its environment sees \<open>e_clock e n\<close>, \<open>e_perf e n\<close>, \<open>e_uuid4 e n\<close>. Times are whole microseconds
  since the epoch, the resolution of \<open>datetime\<close>; \<open>time.time()\<close>, a float of the same clock, is
  read in the same unit.

  The named hypotheses on the environment are \<open>fresh_uuids\<close> (no two calls of \<open>uuid4\<close> agree),
  \<open>clock_forward\<close> (the clock does not go back) and the ones on PyJWT below.
\<close>

datatype jwt_error = ExpiredSignatureError | InvalidSignatureError | DecodeError | OtherInvalidTokenError

record env =
  e_sha256 :: "string \<Rightarrow> string"
  e_jwt_encode :: "json \<Rightarrow> string \<Rightarrow> string \<Rightarrow> string"
    \<comment> \<open>payload, key, algorithm\<close>
  e_jwt_decode :: "string \<Rightarrow> string \<Rightarrow> string \<Rightarrow> string \<Rightarrow> bool \<Rightarrow> string list \<Rightarrow> int \<Rightarrow> jwt_error + json"
    \<comment> \<open>token, key, algorithm, issuer, \<open>verify_exp\<close>, required claims, time of the call\<close>
  e_clock :: "nat \<Rightarrow> int"
  e_perf :: "nat \<Rightarrow> int"
  e_uuid4 :: "nat \<Rightarrow> string"
  e_token_urlsafe :: "nat \<Rightarrow> nat \<Rightarrow> string"
    \<comment> \<open>\<open>secrets.token_urlsafe(n)\<close>\<close>

definition fresh_uuids :: "env \<Rightarrow> bool" where
  "fresh_uuids e \<longleftrightarrow> inj (e_uuid4 e)"

definition clock_forward :: "env \<Rightarrow> bool" where
  "clock_forward e \<longleftrightarrow> mono (e_clock e)"

definition json_get :: "json \<Rightarrow> string \<Rightarrow> json option" where
  "json_get j k = (case j of JObj kvs \<Rightarrow> map_of kvs k | _ \<Rightarrow> None)"

text \<open>
  PyJWT, for one key and algorithm. \<open>jwt_roundtrip\<close> of a payload: what \<open>encode\<close> returned for it,
  \<open>decode\<close> accepts and gives back, if the issuer is the expected one, the required claims are present,
  expiry is not asked for (\<open>verify_exp=False\<close>) and the issue time \<open>iat\<close> is not in the future (PyJWT
  checks it even then). \<open>jwt_unforgeable\<close>: whatever \<open>decode\<close> accepts is a
  payload signed with the key.
\<close>

definition jwt_roundtrip :: "env \<Rightarrow> string \<Rightarrow> string \<Rightarrow> json \<Rightarrow> bool" where
  "jwt_roundtrip e key alg p \<longleftrightarrow>
     (\<forall>iss req now i. json_get p ''iss'' = Some (JStr iss) \<longrightarrow> (\<forall>r \<in> set req. json_get p r \<noteq> None) \<longrightarrow>
        json_get p ''iat'' = Some (JInt i) \<longrightarrow> 1000000 * i \<le> now \<longrightarrow>
        e_jwt_decode e (e_jwt_encode e p key alg) key alg iss False req now = Inr p)"

definition jwt_unforgeable :: "env \<Rightarrow> string \<Rightarrow> string \<Rightarrow> json set \<Rightarrow> string \<Rightarrow> bool" where
  "jwt_unforgeable e key alg signed token \<longleftrightarrow>
     (\<forall>iss vexp req now p. e_jwt_decode e token key alg iss vexp req now = Inr p \<longrightarrow> p \<in> signed)"

section \<open>A concrete environment\<close>

text \<open>
  An environment for the examples: the hash is a constant, a token is the text of its payload and
  the clock advances a second per reading. It satisfies the hypotheses above.
\<close>

definition demo_env :: "(string \<Rightarrow> json option) \<Rightarrow> env" where
  "demo_env parse = \<lparr>e_sha256 = (\<lambda>s. replicate 64 CHR ''a''), e_jwt_encode = (\<lambda>p k a. json_dumps p),
     e_jwt_decode = (\<lambda>t k a iss v req now. case parse t of None \<Rightarrow> Inl DecodeError
        | Some p \<Rightarrow> if json_get p ''iss'' = Some (JStr iss) then Inr p else Inl OtherInvalidTokenError),
     e_clock = (\<lambda>n. 1000000 * int n), e_perf = (\<lambda>n. int n),
     e_uuid4 = (\<lambda>n. replicate (Suc n) CHR ''u''), e_token_urlsafe = (\<lambda>n k. replicate k CHR ''k'')\<rparr>"

lemma fresh_uuids_demo [simp]: "fresh_uuids (demo_env parse)"
  by (auto simp: fresh_uuids_def demo_env_def inj_def)

lemma clock_forward_demo [simp]: "clock_forward (demo_env parse)"
  by (auto simp: clock_forward_def demo_env_def mono_def)

end
