(* ===== verification/Agp_Time.thy ===== *)
theory Agp_Time
  imports Env
begin

text \<open>
  \<open>agperms/_time.py\<close>. An instant is a timezone-aware UTC datetime, in microseconds since the
  epoch; \<open>datetime\<close> also has the naive values a database without time zones hands back.
\<close>

type_synonym instant = int

datatype datetime = Naive int | Aware instant int
  \<comment> \<open>wall clock; instant and UTC offset, in microseconds\<close>

definition as_utc :: "datetime option \<Rightarrow> datetime option" where
  "as_utc v = (case v of None \<Rightarrow> None
     | Some (Naive t) \<Rightarrow> Some (Aware t 0)
     | Some (Aware t off) \<Rightarrow> Some (Aware t 0))"

text \<open>\<open>int(x)\<close> of a time in seconds drops the fraction towards zero.\<close>

definition ts_of :: "instant \<Rightarrow> int" where
  "ts_of t = (if 0 \<le> t then t div 1000000 else - ((- t) div 1000000))"

definition from_ts :: "int \<Rightarrow> instant" where
  "from_ts ts = ts * 1000000"

lemma from_ts_mono [simp]: "from_ts a \<le> from_ts b \<longleftrightarrow> a \<le> b"
  by (simp add: from_ts_def)

lemma ts_of_from_ts [simp]: "ts_of (from_ts ts) = ts"
  by (auto simp: ts_of_def from_ts_def zdiv_zminus1_eq_if)

section \<open>ISO-8601\<close>

definition pad :: "nat \<Rightarrow> int \<Rightarrow> string" where
  "pad n i = (let s = str_int i in replicate (n - length s) CHR ''0'' @ s)"

text \<open>Year, month and day of a day number (0 is 1970-01-01), proleptic Gregorian.\<close>

definition civil :: "int \<Rightarrow> int \<times> int \<times> int" where
  "civil days = (let z = days + 719468; era = z div 146097; doe = z mod 146097;
     yoe = (doe - doe div 1460 + doe div 36524 - doe div 146096) div 365;
     doy = doe - (365 * yoe + yoe div 4 - yoe div 100);
     mp = (5 * doy + 2) div 153;
     d = doy - (153 * mp + 2) div 5 + 1;
     m = (if mp < 10 then mp + 3 else mp - 9)
   in (yoe + era * 400 + (if m \<le> 2 then 1 else 0), m, d))"

definition iso :: "instant \<Rightarrow> string" where
  "iso t = (let (y, m, d) = civil (t div 86400000000);
     r = t mod 86400000000; us = r mod 1000000; s = r div 1000000
   in pad 4 y @ ''-'' @ pad 2 m @ ''-'' @ pad 2 d @ ''T'' @ pad 2 (s div 3600) @ '':''
      @ pad 2 (s div 60 mod 60) @ '':'' @ pad 2 (s mod 60)
      @ (if us = 0 then '''' else ''.'' @ pad 6 us) @ ''+00:00'')"

lemma civil_example: "civil 20307 = (2025, 8, 7)"
  by code_simp

lemma civil_leap_day: "civil 19782 = (2024, 2, 29)"
  by code_simp

section \<open>Hashing and truncation\<close>

definition hash_identifier :: "env \<Rightarrow> string \<Rightarrow> string \<Rightarrow> string" where
  "hash_identifier e identifier salt = e_sha256 e (identifier @ salt)"

text \<open>Python's \<open>xs[:k]\<close>.\<close>

definition slice_to :: "'a list \<Rightarrow> int \<Rightarrow> 'a list" where
  "slice_to xs k = (if 0 \<le> k then take (nat k) xs else take (length xs - nat (- k)) xs)"

definition truncate_reason_to :: "string \<Rightarrow> int \<Rightarrow> string" where
  "truncate_reason_to text limit = (let collapsed = join '' '' (split_ws text) in
     if int (length collapsed) \<le> limit then collapsed
     else slice_to collapsed (limit - 1) @ [ellipsis])"

definition truncate_reason :: "string \<Rightarrow> string" where
  "truncate_reason text = truncate_reason_to text 200"

lemma truncate_reason_length: "1 \<le> limit \<Longrightarrow> int (length (truncate_reason_to text limit)) \<le> limit"
  by (auto simp: truncate_reason_to_def Let_def slice_to_def min_def)

end
