(* ===== verification/Agp_Errors.thy ===== *)
theory Agp_Errors
  imports Prelude
begin

text \<open>
  \<open>agperms/errors.py\<close>, and the built-in exceptions the library raises on purpose. Free text that
  no code reads (the \<open>detail\<close> of a token or storage error) is left out.
\<close>

definition REASON_EXPIRED :: string where "REASON_EXPIRED = ''expired''"
definition REASON_REVOKED :: string where "REASON_REVOKED = ''revoked''"
definition REASON_INVALID_SIGNATURE :: string where "REASON_INVALID_SIGNATURE = ''invalid_signature''"
definition REASON_SCOPE_NOT_GRANTED :: string where "REASON_SCOPE_NOT_GRANTED = ''scope_not_granted''"
definition REASON_CIRCUIT_OPEN :: string where "REASON_CIRCUIT_OPEN = ''circuit_open''"
definition REASON_MALFORMED :: string where "REASON_MALFORMED = ''malformed_token''"
definition REASON_MISSING_TOKEN :: string where "REASON_MISSING_TOKEN = ''missing_token''"

lemmas reason_defs = REASON_EXPIRED_def REASON_REVOKED_def REASON_INVALID_SIGNATURE_def
  REASON_SCOPE_NOT_GRANTED_def REASON_CIRCUIT_OPEN_def REASON_MALFORMED_def REASON_MISSING_TOKEN_def

datatype agp_error =
    ConfigurationError
  | StorageError
  | TokenError string
  | Denied string
  | ScopeEscalationDenied "string list" "string list" "string list"
    \<comment> \<open>requested, allowed, denied\<close>
  | DepthLimitExceeded int int
  | ParentTokenInvalid string
  | RootChainBroken string
  | ApprovalRequired string "string list" "string list"
    \<comment> \<open>approval id, requested, sensitive\<close>
  | RateLimitExceeded string int int
    \<comment> \<open>subject, limit, window\<close>
  | CircuitOpen "string option"
  | ValueError
  | KeyError
  | AssertionError
  | BodyError string string
    \<comment> \<open>an exception of the caller's own code: type name and message\<close>
  | Diverges
    \<comment> \<open>no exception: the outcome of a call that never returns\<close>

text \<open>\<open>isinstance(exc, PermissionError)\<close>: the subclasses of \<open>Denied\<close>.\<close>

fun is_denied :: "agp_error \<Rightarrow> bool" where
  "is_denied (Denied _) = True"
| "is_denied (ScopeEscalationDenied _ _ _) = True"
| "is_denied (DepthLimitExceeded _ _) = True"
| "is_denied (ParentTokenInvalid _) = True"
| "is_denied (RootChainBroken _) = True"
| "is_denied (ApprovalRequired _ _ _) = True"
| "is_denied (RateLimitExceeded _ _ _) = True"
| "is_denied (CircuitOpen _) = True"
| "is_denied _ = False"

text \<open>The \<open>reason\<close> each denial hands to \<open>Denied.__init__\<close>.\<close>

fun reason_of :: "agp_error \<Rightarrow> string option" where
  "reason_of (TokenError r) = Some r"
| "reason_of (Denied r) = Some r"
| "reason_of (ScopeEscalationDenied _ _ _) = Some ''scope_escalation_denied''"
| "reason_of (DepthLimitExceeded _ _) = Some ''depth_limit_exceeded''"
| "reason_of (ParentTokenInvalid r) = Some r"
| "reason_of (RootChainBroken _) = Some ''root_chain_broken''"
| "reason_of (ApprovalRequired _ _ _) = Some ''approval_required''"
| "reason_of (RateLimitExceeded _ _ _) = Some ''rate_limit_exceeded''"
| "reason_of (CircuitOpen _) = Some ''circuit_open''"
| "reason_of _ = None"

text \<open>The attribute \<open>retry_after\<close> of a rate-limit error is its window.\<close>

fun retry_after :: "agp_error \<Rightarrow> int option" where
  "retry_after (RateLimitExceeded _ _ w) = Some w"
| "retry_after _ = None"

lemma denied_has_reason: "is_denied x \<Longrightarrow> reason_of x \<noteq> None"
  by (cases x) auto

end
