(* ===== verification/Agp_Models.thy ===== *)
theory Agp_Models
  imports Agp_Time Agp_Errors "HOL-Library.Monad_Syntax"
begin

text \<open>
  \<open>agperms/models.py\<close>: the records that cross the library's boundary, the closed schema a
  decoded token is checked against, and the two small scales (completion and reversibility).
  Every record field carries a prefix for its class (\<open>c_\<close> claims, \<open>ce_\<close> chain entry, \<open>tm_\<close> token
  metadata, \<open>pa_\<close> pending approval, \<open>ar_\<close> action record, \<open>av_\<close> action review).
\<close>

section \<open>Completion and reversibility\<close>

datatype completion_state = CLEAN | PARTIAL | UNKNOWN

definition needs_human_review :: "completion_state \<Rightarrow> bool" where
  "needs_human_review s \<longleftrightarrow> s \<noteq> CLEAN"

definition completion_value :: "completion_state \<Rightarrow> string" where
  "completion_value s = (case s of CLEAN \<Rightarrow> ''CLEAN'' | PARTIAL \<Rightarrow> ''PARTIAL'' | UNKNOWN \<Rightarrow> ''UNKNOWN'')"

datatype reversibility = IDEMPOTENT | REVERSIBLE | COMPENSABLE | IRREVERSIBLE

fun rev_rank :: "reversibility \<Rightarrow> nat" where
  "rev_rank IDEMPOTENT = 0"
| "rev_rank REVERSIBLE = 1"
| "rev_rank COMPENSABLE = 2"
| "rev_rank IRREVERSIBLE = 3"

definition rev_value :: "reversibility \<Rightarrow> string" where
  "rev_value r = (case r of IDEMPOTENT \<Rightarrow> ''IDEMPOTENT'' | REVERSIBLE \<Rightarrow> ''REVERSIBLE''
     | COMPENSABLE \<Rightarrow> ''COMPENSABLE'' | IRREVERSIBLE \<Rightarrow> ''IRREVERSIBLE'')"

text \<open>\<open>rank\<close> indexes the table by the value of the member; every member is in the table.\<close>

definition REVERSIBILITY_RANK :: "(string, nat) dict" where
  "REVERSIBILITY_RANK = [(''IDEMPOTENT'', 0), (''REVERSIBLE'', 1), (''COMPENSABLE'', 2), (''IRREVERSIBLE'', 3)]"

lemma rev_rank_table: "dget REVERSIBILITY_RANK (rev_value r) = Some (rev_rank r)"
  by (cases r) (simp_all add: REVERSIBILITY_RANK_def rev_value_def)

lemma rev_rank_inj: "rev_rank a = rev_rank b \<longleftrightarrow> a = b"
  by (cases a; cases b) auto

lemma rev_rank_bound: "rev_rank r \<le> 3"
  by (cases r) auto

text \<open>The severity order as the order of the type, so that \<open>Max\<close> is "least recoverable". It is the model's
  only: the code compares by \<open>rank\<close> and overrides no operator.\<close>

instantiation reversibility :: linorder
begin

definition less_eq_reversibility :: "reversibility \<Rightarrow> reversibility \<Rightarrow> bool" where
  "less_eq_reversibility a b \<longleftrightarrow> rev_rank a \<le> rev_rank b"

definition less_reversibility :: "reversibility \<Rightarrow> reversibility \<Rightarrow> bool" where
  "less_reversibility a b \<longleftrightarrow> rev_rank a < rev_rank b"

instance
  by standard (auto simp: less_eq_reversibility_def less_reversibility_def rev_rank_inj)

end

definition worst_of :: "reversibility list \<Rightarrow> reversibility option" where
  "worst_of classes = (let ranked = sort_key rev_rank classes in
     if ranked \<noteq> [] then Some (last ranked) else None)"

lemma last_sort_key: "xs \<noteq> [] \<Longrightarrow> x \<in> set xs \<Longrightarrow> f x \<le> f (last (sort_key f xs))"
proof -
  assume "xs \<noteq> []" and "x \<in> set xs"
  let ?ys = "sort_key f xs"
  from \<open>xs \<noteq> []\<close> have ne: "?ys \<noteq> []" by (metis set_empty set_sort)
  from \<open>x \<in> set xs\<close> obtain i where i: "i < length ?ys" "?ys ! i = x"
    by (metis in_set_conv_nth set_sort)
  have "sorted (map f ?ys)" by simp
  then have "map f ?ys ! i \<le> map f ?ys ! (length ?ys - 1)"
    using i(1) by (intro sorted_nth_mono) auto
  then show "f x \<le> f (last ?ys)" using i ne by (simp add: last_conv_nth)
qed

lemma worst_of_Max: "classes \<noteq> [] \<Longrightarrow> worst_of classes = Some (Max (set classes))"
proof -
  assume ne: "classes \<noteq> []"
  let ?w = "last (sort_key rev_rank classes)"
  have ne': "sort_key rev_rank classes \<noteq> []" using ne by (metis set_empty set_sort)
  have "?w \<in> set classes" using ne' by (metis last_in_set set_sort)
  moreover have "\<forall>x \<in> set classes. x \<le> ?w"
    using last_sort_key [OF ne] by (auto simp: less_eq_reversibility_def)
  ultimately have "Max (set classes) = ?w" by (intro Max_eqI) auto
  then show ?thesis using ne' by (simp add: worst_of_def)
qed

lemma worst_of_Nil [simp]: "worst_of [] = None"
  by (simp add: worst_of_def)

section \<open>Coercions\<close>

text \<open>\<open>repr(x)\<close>, \<open>str(x)\<close>, \<open>int(x)\<close> and \<open>bool(x)\<close> of a decoded JSON value.\<close>

definition repr_char :: "char \<Rightarrow> char \<Rightarrow> string" where
  "repr_char q c = (let n = code_of c in
     if c = q \<or> c = bs then [bs, c]
     else if n = 10 then [bs, CHR ''n'']
     else if n = 13 then [bs, CHR ''r'']
     else if n = 9 then [bs, CHR ''t'']
     else if c \<noteq> ellipsis \<and> (n < 32 \<or> (127 \<le> n \<and> n \<le> 160) \<or> n = 173)
       then bs # ''x'' @ [hex (n div 16), hex (n mod 16)]
     else [c])"

definition repr_str :: "string \<Rightarrow> string" where
  "repr_str s = (let sq = CHR 0x27; q = (if sq \<in> set s \<and> dq \<notin> set s then dq else sq)
     in q # concat (map (repr_char q) s) @ [q])"

primrec py_repr :: "json \<Rightarrow> string" where
  "py_repr JNull = ''None''"
| "py_repr (JBool b) = (if b then ''True'' else ''False'')"
| "py_repr (JInt i) = str_int i"
| "py_repr (JStr s) = repr_str s"
| "py_repr (JList xs) = ''['' @ join '', '' (map py_repr xs) @ '']''"
| "py_repr (JObj kvs) =
     ''{'' @ join '', '' (map (\<lambda>(k, s). repr_str k @ '': '' @ s) (map (map_prod (\<lambda>k. k) py_repr) kvs)) @ ''}''"

definition py_str :: "json \<Rightarrow> string" where
  "py_str j = (case j of JStr s \<Rightarrow> s | _ \<Rightarrow> py_repr j)"

definition digits_ok :: "string \<Rightarrow> bool" where
  "digits_ok s \<longleftrightarrow> s \<noteq> [] \<and> list_all (\<lambda>c. is_digit c \<or> c = CHR ''_'') s \<and> hd s \<noteq> CHR ''_''
     \<and> last s \<noteq> CHR ''_'' \<and> \<not> sublist ''__'' s"

definition int_of_str :: "string \<Rightarrow> int option" where
  "int_of_str s = (let t = strip s;
     (neg, ds) = (case t of c # cs \<Rightarrow> (if c = CHR ''-'' then (True, cs)
                     else if c = CHR ''+'' then (False, cs) else (False, t)) | [] \<Rightarrow> (False, []))
   in if digits_ok ds then
        Some ((if neg then -1 else 1) * int (nat_of_digits (filter is_digit ds))) else None)"

definition py_int :: "json \<Rightarrow> int option" where
  "py_int j = (case j of JInt i \<Rightarrow> Some i | JBool b \<Rightarrow> Some (if b then 1 else 0)
     | JStr s \<Rightarrow> int_of_str s | _ \<Rightarrow> None)"

definition py_bool :: "json \<Rightarrow> bool" where
  "py_bool j = (case j of JNull \<Rightarrow> False | JBool b \<Rightarrow> b | JInt i \<Rightarrow> i \<noteq> 0 | JStr s \<Rightarrow> s \<noteq> []
     | JList xs \<Rightarrow> xs \<noteq> [] | JObj kvs \<Rightarrow> kvs \<noteq> [])"

definition list_of :: "json \<Rightarrow> json list option" where
  "list_of j = (case j of JList xs \<Rightarrow> Some xs | _ \<Rightarrow> None)"

definition json_of_opt :: "string option \<Rightarrow> json" where
  "json_of_opt x = (case x of None \<Rightarrow> JNull | Some s \<Rightarrow> JStr s)"

definition json_strs :: "string list \<Rightarrow> json" where
  "json_strs xs = JList (map JStr xs)"

section \<open>Chain entries and claims\<close>

record chain_entry =
  ce_agent_id :: string
  ce_jti :: string
  ce_scopes :: "string list"
  ce_ts :: string

definition entry_to_dict :: "chain_entry \<Rightarrow> json" where
  "entry_to_dict x = JObj [(''agent_id'', JStr (ce_agent_id x)), (''jti'', JStr (ce_jti x)),
     (''scopes'', json_strs (ce_scopes x)), (''ts'', JStr (ce_ts x))]"

text \<open>\<open>None\<close> is the \<open>TokenError("malformed_token")\<close> of every failing branch.\<close>

definition entry_from_dict :: "json \<Rightarrow> chain_entry option" where
  "entry_from_dict raw = (case raw of
     JObj _ \<Rightarrow> do {
       scopes \<leftarrow> Option.bind (json_get raw ''scopes'') list_of;
       agent_id \<leftarrow> json_get raw ''agent_id'';
       jti \<leftarrow> json_get raw ''jti'';
       ts \<leftarrow> json_get raw ''ts'';
       Some \<lparr>ce_agent_id = py_str agent_id, ce_jti = py_str jti, ce_scopes = map py_str scopes,
         ce_ts = py_str ts\<rparr> }
   | _ \<Rightarrow> None)"

lemma entry_roundtrip [simp]: "entry_from_dict (entry_to_dict x) = Some x"
  by (simp add: entry_from_dict_def entry_to_dict_def json_get_def list_of_def json_strs_def
      py_str_def comp_def)

definition allowed_claims :: "string list" where
  "allowed_claims = [''jti'', ''sub'', ''iss'', ''issued_for'', ''scopes'', ''delegation_chain'', ''depth'',
     ''max_depth'', ''iat'', ''exp'', ''approval_required'', ''approved_by'', ''root_jti'']"

record claims =
  c_jti :: string
  c_sub :: string
  c_iss :: string
  c_issued_for :: string
  c_scopes :: "string list"
  c_depth :: int
  c_max_depth :: int
  c_iat :: int
  c_exp :: int
  c_root_jti :: string
  c_delegation_chain :: "chain_entry list"
  c_approval_required :: bool
  c_approved_by :: "string option"

definition scope_set :: "claims \<Rightarrow> string set" where
  "scope_set c = set (c_scopes c)"

definition is_root :: "claims \<Rightarrow> bool" where
  "is_root c \<longleftrightarrow> c_depth c = 0"

definition ancestor_jtis :: "claims \<Rightarrow> string list" where
  "ancestor_jtis c = map ce_jti (c_delegation_chain c)"

definition to_payload :: "claims \<Rightarrow> json" where
  "to_payload c = JObj [
     (''jti'', JStr (c_jti c)),
     (''sub'', JStr (c_sub c)),
     (''iss'', JStr (c_iss c)),
     (''issued_for'', JStr (c_issued_for c)),
     (''scopes'', json_strs (c_scopes c)),
     (''delegation_chain'', JList (map entry_to_dict (c_delegation_chain c))),
     (''depth'', JInt (c_depth c)),
     (''max_depth'', JInt (c_max_depth c)),
     (''iat'', JInt (c_iat c)),
     (''exp'', JInt (c_exp c)),
     (''approval_required'', JBool (c_approval_required c)),
     (''approved_by'', json_of_opt (c_approved_by c)),
     (''root_jti'', JStr (c_root_jti c))]"

text \<open>The reads of \<open>from_payload\<close>; \<open>None\<close> is a \<open>KeyError\<close>, \<open>TypeError\<close>, \<open>ValueError\<close> or the
  \<open>TokenError\<close> of a chain entry, all of which end in the same \<open>TokenError\<close>.\<close>

definition read_claims :: "json \<Rightarrow> claims option" where
  "read_claims p = do {
     scopes \<leftarrow> Option.bind (json_get p ''scopes'') list_of;
     chain_raw \<leftarrow> (case json_get p ''delegation_chain'' of
         None \<Rightarrow> Some [] | Some j \<Rightarrow> if py_bool j then list_of j else Some []);
     jti \<leftarrow> json_get p ''jti'';
     sub \<leftarrow> json_get p ''sub'';
     iss \<leftarrow> json_get p ''iss'';
     issued_for \<leftarrow> json_get p ''issued_for'';
     chain \<leftarrow> those (map entry_from_dict chain_raw);
     depth \<leftarrow> Option.bind (json_get p ''depth'') py_int;
     max_depth \<leftarrow> Option.bind (json_get p ''max_depth'') py_int;
     iat \<leftarrow> Option.bind (json_get p ''iat'') py_int;
     exp \<leftarrow> Option.bind (json_get p ''exp'') py_int;
     root_jti \<leftarrow> json_get p ''root_jti'';
     Some \<lparr>c_jti = py_str jti, c_sub = py_str sub, c_iss = py_str iss,
       c_issued_for = py_str issued_for, c_scopes = map py_str scopes, c_depth = depth,
       c_max_depth = max_depth, c_iat = iat, c_exp = exp, c_root_jti = py_str root_jti,
       c_delegation_chain = chain,
       c_approval_required =
         (case json_get p ''approval_required'' of None \<Rightarrow> False | Some j \<Rightarrow> py_bool j),
       c_approved_by = (case json_get p ''approved_by'' of None \<Rightarrow> None | Some JNull \<Rightarrow> None
         | Some j \<Rightarrow> Some (py_str j))\<rparr> }"

definition from_payload :: "json \<Rightarrow> agp_error + claims" where
  "from_payload p = (case p of
     JObj kvs \<Rightarrow>
       if \<exists>k \<in> set (map fst kvs). k \<notin> set allowed_claims then Inl (TokenError REASON_MALFORMED)
       else (case read_claims p of None \<Rightarrow> Inl (TokenError REASON_MALFORMED) | Some c \<Rightarrow> Inr c)
   | _ \<Rightarrow> Inl (TokenError REASON_MALFORMED))"

lemma those_map_Some: "(\<And>x. x \<in> set xs \<Longrightarrow> f (g x) = Some x) \<Longrightarrow> those (map f (map g xs)) = Some xs"
  by (induction xs) auto

lemma from_payload_only_token_error: "from_payload p = Inl x \<Longrightarrow> x = TokenError REASON_MALFORMED"
  by (auto simp: from_payload_def split: json.splits option.splits if_splits)

section \<open>The other records\<close>

record capability =
  cap_token :: string
  cap_claims :: claims

definition cap_jti :: "capability \<Rightarrow> string" where
  "cap_jti c = c_jti (cap_claims c)"

definition cap_scopes :: "capability \<Rightarrow> string list" where
  "cap_scopes c = c_scopes (cap_claims c)"

definition cap_depth :: "capability \<Rightarrow> int" where
  "cap_depth c = c_depth (cap_claims c)"

record verify_result =
  vr_valid :: bool
  vr_reason :: "string option"
  vr_claims :: "claims option"
  vr_latency_us :: int

definition vr_remaining_scopes :: "verify_result \<Rightarrow> string list" where
  "vr_remaining_scopes v = (case vr_claims v of None \<Rightarrow> [] | Some c \<Rightarrow> c_scopes c)"

text \<open>Python's \<open>x or y\<close> on an optional string.\<close>

definition str_or :: "string option \<Rightarrow> string \<Rightarrow> string" where
  "str_or x y = (case x of Some (c # cs) \<Rightarrow> c # cs | _ \<Rightarrow> y)"

definition raise_for_status :: "verify_result \<Rightarrow> agp_error + unit" where
  "raise_for_status v = (if vr_valid v then Inr () else Inl (Denied (str_or (vr_reason v) ''denied'')))"

record pending_approval =
  pa_approval_id :: string
  pa_parent_jti :: string
  pa_parent_subject_id :: string
  pa_child_agent_id :: string
  pa_child_subject_id :: string
  pa_requested_scopes :: "string list"
  pa_sensitive_scopes :: "string list"
  pa_ttl_seconds :: int
  pa_parent_exp :: int
  pa_status :: string
  pa_created_at :: instant
  pa_expires_at :: instant
  pa_decided_at :: "instant option"
  pa_approved_by :: "string option"
  pa_child_jti :: "string option"
  pa_child_token :: "string option"
  pa_collected :: bool

definition is_pending :: "pending_approval \<Rightarrow> bool" where
  "is_pending a \<longleftrightarrow> pa_status a = ''pending''"

record action_record =
  ar_action_id :: string
  ar_jti :: string
  ar_subject_id :: string
  ar_name :: string
  ar_scope :: string
  ar_started_at :: instant
  ar_finished_at :: "instant option"
  ar_state :: "completion_state option"
  ar_failure_reason :: "string option"
  ar_reversibility :: reversibility

definition is_open_action :: "action_record \<Rightarrow> bool" where
  "is_open_action a \<longleftrightarrow> ar_finished_at a = None"

record action_review =
  av_review_id :: string
  av_jti :: string
  av_action_id :: string
  av_action_name :: string
  av_classification :: completion_state
  av_revoked_at :: instant
  av_revocation_root_jti :: string
  av_reviewed :: bool
  av_reviewed_by :: "string option"
  av_reviewed_at :: "instant option"

text \<open>\<open>__post_init__\<close>: a review of a clean action is refused.\<close>

definition mk_review :: "action_review \<Rightarrow> agp_error + action_review" where
  "mk_review r = (if av_classification r = CLEAN then Inl ValueError else Inr r)"

record revocation_result =
  rr_revoked_jtis :: "string list"
  rr_latency_us :: int
  rr_reviews :: "action_review list"

definition subtree_count :: "revocation_result \<Rightarrow> nat" where
  "subtree_count r = length (rr_revoked_jtis r)"

definition needs_review :: "revocation_result \<Rightarrow> bool" where
  "needs_review r \<longleftrightarrow> rr_reviews r \<noteq> []"

record chain_hop =
  ch_jti :: string
  ch_subject_id :: string
  ch_display_label :: "string option"
  ch_scopes :: "string list"
  ch_depth :: int
  ch_issued_at :: instant
  ch_expires_at :: instant
  ch_revoked :: bool
  ch_expired :: bool

record integrity_report =
  ir_intact :: bool
  ir_rows_checked :: nat
  ir_first_broken_row_id :: "nat option"
  ir_detail :: string

record token_metadata =
  tm_jti :: string
  tm_subject_id :: string
  tm_parent_jti :: "string option"
  tm_root_jti :: string
  tm_depth :: int
  tm_max_depth :: int
  tm_scopes :: "string list"
  tm_delegation_chain :: "json list"
  tm_issued_at :: instant
  tm_expires_at :: instant
  tm_approval_required :: bool
  tm_approved_by :: "string option"

definition is_expired :: "instant \<Rightarrow> token_metadata \<Rightarrow> bool" where
  "is_expired now m \<longleftrightarrow> tm_expires_at m < now"

record subject =
  sj_subject_id :: string
  sj_identifier_hash :: string
  sj_kind :: string
  sj_display_label :: string
  sj_created_at :: instant

text \<open>Decoding what \<open>to_payload\<close> writes loses, defaults and coerces nothing.\<close>

lemma from_payload_to_payload: "from_payload (to_payload c) = Inr c"
proof -
  have chain: "those (map entry_from_dict (map entry_to_dict (c_delegation_chain c)))
      = Some (c_delegation_chain c)"
    by (rule those_map_Some) simp
  have "json_get (to_payload c) ''approved_by'' = Some (json_of_opt (c_approved_by c))"
    by (simp add: json_get_def to_payload_def)
  then have "read_claims (to_payload c) = Some c"
    using chain
    by (cases "c_delegation_chain c")
      (auto simp: read_claims_def to_payload_def json_get_def list_of_def json_strs_def py_str_def
        py_int_def py_bool_def json_of_opt_def comp_def split: option.splits)
  then show ?thesis
    by (simp add: from_payload_def to_payload_def allowed_claims_def)
qed

section \<open>Properties\<close>

text \<open>The claim schema is closed. A payload with any claim outside the thirteen that agperms
  writes is refused as malformed, whatever its other claims say.\<close>

theorem unknown_claim_refused:
  assumes "k \<in> set (map fst kvs)" and "k \<notin> set allowed_claims"
  shows "from_payload (JObj kvs) = Inl (TokenError REASON_MALFORMED)"
  using assms by (auto simp: from_payload_def)

theorem unknown_claim_refused_witness:
  "from_payload (JObj [(''jti'', JStr ''j''), (''admin'', JBool True)]) = Inl (TokenError REASON_MALFORMED)"
  by (rule unknown_claim_refused [of "''admin''"]) (simp_all add: allowed_claims_def)

text \<open>\<open>worst_of\<close> is the maximum of the severity order, and \<open>None\<close> exactly for no classes.\<close>

theorem worst_of_is_max:
  "worst_of classes = (if classes = [] then None else Some (Max (set classes)))"
  using worst_of_Max by simp

end
