(* ===== verification/Agp_Config.thy ===== *)
theory Agp_Config
  imports Agp_Models
begin

text \<open>
  \<open>agperms/config.py\<close>. The dataclass is frozen except for the set of exempt subject ids, which
  \<open>register_exempt_subject\<close> grows at run time; that set is a field here like the others.
  Thresholds that are floats are real numbers.
\<close>

definition DEFAULT_SENSITIVE_SCOPES :: "string set" where
  "DEFAULT_SENSITIVE_SCOPES = {''send_email'', ''spend_money'', ''delete_data'', ''post_public_content'',
     ''transfer_funds'', ''execute_code''}"

definition DEFAULT_SCOPE_REVERSIBILITY :: "(string, string) dict" where
  "DEFAULT_SCOPE_REVERSIBILITY = [
     (''send_email'', ''IRREVERSIBLE''),
     (''spend_money'', ''COMPENSABLE''),
     (''delete_data'', ''IRREVERSIBLE''),
     (''post_public_content'', ''IRREVERSIBLE''),
     (''transfer_funds'', ''IRREVERSIBLE''),
     (''execute_code'', ''IRREVERSIBLE'')]"

record config =
  cf_jwt_secret :: string
  cf_jwt_algorithm :: string
  cf_issuer :: string
  cf_max_delegation_depth :: int
  cf_default_ttl_seconds :: int
  cf_max_ttl_seconds :: int
  cf_pii_salt :: string
  cf_sensitive_scopes :: "string set"
  cf_approval_timeout_seconds :: int
  cf_scope_reversibility :: "(string, reversibility) dict"
  cf_rate_limit_delegate_per_min :: int
  cf_rate_limit_verify_per_min :: int
  cf_rate_limit_action_per_min :: int
  cf_circuit_window_seconds :: int
  cf_circuit_error_rate_threshold :: real
  cf_circuit_min_samples :: int
  cf_circuit_volume_ceiling :: int
  cf_circuit_count_policy_denials :: bool
  cf_anomaly_sigma_threshold :: real
  cf_anomaly_min_baseline_samples :: int
  cf_exempt_agents :: "string set"
  cf_exempt_subject_ids :: "string set"
  cf_secret_generated :: bool

text \<open>The field defaults; the reversibility map is coerced by \<open>post_init\<close>.\<close>

definition default_config :: config where
  "default_config = \<lparr>cf_jwt_secret = '''', cf_jwt_algorithm = ''HS256'', cf_issuer = ''agperms'',
     cf_max_delegation_depth = 5, cf_default_ttl_seconds = 3600, cf_max_ttl_seconds = 86400,
     cf_pii_salt = '''', cf_sensitive_scopes = DEFAULT_SENSITIVE_SCOPES,
     cf_approval_timeout_seconds = 300, cf_scope_reversibility = [],
     cf_rate_limit_delegate_per_min = 60, cf_rate_limit_verify_per_min = 300,
     cf_rate_limit_action_per_min = 600, cf_circuit_window_seconds = 60,
     cf_circuit_error_rate_threshold = 1 / 4, cf_circuit_min_samples = 20,
     cf_circuit_volume_ceiling = 10000, cf_circuit_count_policy_denials = False,
     cf_anomaly_sigma_threshold = 3, cf_anomaly_min_baseline_samples = 10,
     cf_exempt_agents = {}, cf_exempt_subject_ids = {}, cf_secret_generated = False\<rparr>"

text \<open>\<open>Reversibility(value)\<close>; an unknown value raises \<open>ValueError\<close>.\<close>

definition rev_of_value :: "string \<Rightarrow> reversibility option" where
  "rev_of_value v = (if v = ''IDEMPOTENT'' then Some IDEMPOTENT
     else if v = ''REVERSIBLE'' then Some REVERSIBLE
     else if v = ''COMPENSABLE'' then Some COMPENSABLE
     else if v = ''IRREVERSIBLE'' then Some IRREVERSIBLE else None)"

lemma rev_of_value_value [simp]: "rev_of_value (rev_value r) = Some r"
  by (cases r) (auto simp: rev_of_value_def rev_value_def)

text \<open>
  \<open>__post_init__\<close>: the checks in the source's order, then the generated secrets (drawn by the
  n-th and the following interaction with the environment) and the coerced reversibility map,
  which the caller may have written with plain strings (\<open>raw\<close>).
\<close>

definition coerce_reversibility :: "(string, string) dict \<Rightarrow> (string, reversibility) dict option" where
  "coerce_reversibility raw = those (map (\<lambda>(s, v). map_option (Pair s) (rev_of_value v)) raw)"

definition post_init :: "env \<Rightarrow> nat \<Rightarrow> (string, string) dict \<Rightarrow> config \<Rightarrow> agp_error + config" where
  "post_init e n raw c =
    (if cf_max_delegation_depth c < 1 then Inl ConfigurationError
     else if \<not> (0 < cf_circuit_error_rate_threshold c \<and> cf_circuit_error_rate_threshold c \<le> 1)
       then Inl ConfigurationError
     else if cf_default_ttl_seconds c \<le> 0 \<or> cf_max_ttl_seconds c \<le> 0 then Inl ConfigurationError
     else if cf_jwt_algorithm c \<notin> {''HS256'', ''HS384'', ''HS512''} then Inl ConfigurationError
     else let
       c1 = (if cf_jwt_secret c = '''' then c\<lparr>cf_jwt_secret := e_token_urlsafe e n 48,
               cf_secret_generated := True\<rparr> else c);
       c2 = (if cf_pii_salt c1 = '''' then c1\<lparr>cf_pii_salt := e_token_urlsafe e (Suc n) 16\<rparr> else c1)
     in case coerce_reversibility raw of
          None \<Rightarrow> Inl ValueError
        | Some m \<Rightarrow> Inr (c2\<lparr>cf_scope_reversibility := m\<rparr>))"

definition is_exempt :: "config \<Rightarrow> string option \<Rightarrow> bool" where
  "is_exempt c agent = (case agent of None \<Rightarrow> False | Some a \<Rightarrow>
     a \<noteq> '''' \<and> (a \<in> cf_exempt_agents c \<or> a \<in> cf_exempt_subject_ids c))"

definition register_exempt_subject :: "string \<Rightarrow> string \<Rightarrow> config \<Rightarrow> config" where
  "register_exempt_subject raw subject_id c =
     (if raw \<in> cf_exempt_agents c
      then c\<lparr>cf_exempt_subject_ids := insert subject_id (cf_exempt_subject_ids c)\<rparr> else c)"

definition is_sensitive :: "config \<Rightarrow> string \<Rightarrow> bool" where
  "is_sensitive c scope \<longleftrightarrow> scope \<in> cf_sensitive_scopes c"

definition signing_key_is_ephemeral :: "config \<Rightarrow> bool" where
  "signing_key_is_ephemeral c = cf_secret_generated c"

definition sensitive_subset :: "config \<Rightarrow> string list \<Rightarrow> string list" where
  "sensitive_subset c scopes = sort (filter (\<lambda>s. s \<in> cf_sensitive_scopes c) scopes)"

definition reversibility_of :: "config \<Rightarrow> string \<Rightarrow> reversibility" where
  "reversibility_of c scope =
     (case dget (cf_scope_reversibility c) scope of None \<Rightarrow> IRREVERSIBLE | Some r \<Rightarrow> r)"

definition worst_reversibility :: "config \<Rightarrow> string list \<Rightarrow> reversibility option" where
  "worst_reversibility c scopes = worst_of (map (reversibility_of c) scopes)"

text \<open>\<open>dataclasses.replace\<close> constructs anew, so \<open>__post_init__\<close> runs on the changed fields.\<close>

definition with_overrides :: "env \<Rightarrow> nat \<Rightarrow> (config \<Rightarrow> config) \<Rightarrow> config \<Rightarrow> agp_error + config" where
  "with_overrides e n changes c = (let c' = changes c in
     post_init e n (map (\<lambda>(s, r). (s, rev_value r)) (cf_scope_reversibility c')) c')"

lemma sensitive_subset_empty_iff:
  "sensitive_subset c scopes = [] \<longleftrightarrow> set scopes \<inter> cf_sensitive_scopes c = {}"
  by (auto simp: sensitive_subset_def filter_empty_conv simp flip: set_empty)

lemma register_exempt_frame [frame_simps]:
  "cf_exempt_agents (register_exempt_subject r s c) = cf_exempt_agents c"
  "cf_jwt_secret (register_exempt_subject r s c) = cf_jwt_secret c"
  "cf_jwt_algorithm (register_exempt_subject r s c) = cf_jwt_algorithm c"
  "cf_issuer (register_exempt_subject r s c) = cf_issuer c"
  "cf_sensitive_scopes (register_exempt_subject r s c) = cf_sensitive_scopes c"
  "cf_max_ttl_seconds (register_exempt_subject r s c) = cf_max_ttl_seconds c"
  "cf_default_ttl_seconds (register_exempt_subject r s c) = cf_default_ttl_seconds c"
  "cf_approval_timeout_seconds (register_exempt_subject r s c) = cf_approval_timeout_seconds c"
  "cf_pii_salt (register_exempt_subject r s c) = cf_pii_salt c"
  by (simp_all add: register_exempt_subject_def)

text \<open>What a constructed configuration guarantees.\<close>

definition valid_config :: "config \<Rightarrow> bool" where
  "valid_config c \<longleftrightarrow> 1 \<le> cf_max_delegation_depth c \<and> 0 < cf_circuit_error_rate_threshold c
     \<and> cf_circuit_error_rate_threshold c \<le> 1 \<and> 0 < cf_default_ttl_seconds c
     \<and> 0 < cf_max_ttl_seconds c \<and> cf_jwt_algorithm c \<in> {''HS256'', ''HS384'', ''HS512''}"

lemma post_init_valid: "post_init e n raw c = Inr c' \<Longrightarrow> valid_config c'"
  by (auto simp: post_init_def valid_config_def Let_def split: if_splits option.splits)

section \<open>Properties\<close>

text \<open>Construction either refuses or yields a configuration whose ceilings make sense, and it
  never leaves the signing key or the salt empty (given that generated secrets are not empty); the
  flag that says the key is ephemeral is set exactly when the caller gave none.\<close>

theorem post_init_safe:
  assumes "post_init e n raw c = Inr c'" and "\<forall>m k. 0 < k \<longrightarrow> e_token_urlsafe e m k \<noteq> ''''"
    and "\<not> cf_secret_generated c"
  shows "valid_config c' \<and> cf_jwt_secret c' \<noteq> '''' \<and> cf_pii_salt c' \<noteq> ''''
    \<and> (signing_key_is_ephemeral c' \<longleftrightarrow> cf_jwt_secret c = '''')"
  using assms post_init_valid [OF assms(1)]
  by (auto simp: post_init_def signing_key_is_ephemeral_def Let_def split: if_splits option.splits)

theorem post_init_safe_witness:
  "\<exists>c'. post_init (demo_env (\<lambda>_. None)) 0 DEFAULT_SCOPE_REVERSIBILITY default_config = Inr c'
     \<and> valid_config c' \<and> cf_jwt_secret c' \<noteq> '''' \<and> signing_key_is_ephemeral c'"
proof -
  let ?r = "post_init (demo_env (\<lambda>_. None)) 0 DEFAULT_SCOPE_REVERSIBILITY default_config"
  obtain c' where c': "?r = Inr c'"
    by (auto simp: post_init_def default_config_def Let_def coerce_reversibility_def
        DEFAULT_SCOPE_REVERSIBILITY_def rev_of_value_def)
  have "\<forall>m k. 0 < k \<longrightarrow> e_token_urlsafe (demo_env (\<lambda>_. None)) m k \<noteq> ''''"
    by (simp add: demo_env_def)
  from post_init_safe [OF c' this] c' show ?thesis by (auto simp: default_config_def)
qed

text \<open>Reversibility fails closed. One scope that nobody classified is enough to make a grant
  IRREVERSIBLE, however harmless the other scopes are.\<close>

theorem unclassified_scope_irreversible:
  assumes "s \<in> set scopes" and "dget (cf_scope_reversibility c) s = None"
  shows "worst_reversibility c scopes = Some IRREVERSIBLE"
proof -
  let ?R = "reversibility_of c ` set scopes"
  have top: "r \<le> IRREVERSIBLE" for r
    using rev_rank_bound [of r] by (simp add: less_eq_reversibility_def)
  have "IRREVERSIBLE \<in> ?R" using assms by (force simp: reversibility_of_def)
  then have "Max ?R = IRREVERSIBLE" by (intro Max_eqI) (use top in auto)
  moreover have "scopes \<noteq> []" using assms(1) by auto
  ultimately show ?thesis by (simp add: worst_reversibility_def worst_of_Max)
qed

theorem unclassified_scope_irreversible_witness:
  "worst_reversibility (default_config\<lparr>cf_scope_reversibility := [(''read'', IDEMPOTENT)]\<rparr>)
     [''read'', ''launch''] = Some IRREVERSIBLE"
  by (rule unclassified_scope_irreversible [of "''launch''"]) simp_all

end
