(* ===== verification/Window_Cache.thy ===== *)
theory Window_Cache
  imports Agp_Config
begin

text \<open>
  The sliding-window counters of \<open>agperms/_guardrails.py\<close>: the interface \<open>SlidingWindowCache\<close> as a
  locale, the in-process implementation \<open>LocalWindowCache\<close> as its model, and the guarantee a rate
  limiter gets from any implementation. Windows are seconds, times microseconds.
\<close>

section \<open>The in-process cache\<close>

type_synonym buckets = "(string, instant list) dict"

definition usec :: "int \<Rightarrow> int" where
  "usec s = s * 1000000"

text \<open>\<open>while bucket and bucket[0] < cutoff: bucket.popleft()\<close>\<close>

fun pop_old_by :: "('a \<Rightarrow> instant) \<Rightarrow> instant \<Rightarrow> 'a list \<Rightarrow> 'a list" where
  "pop_old_by f cutoff [] = []"
| "pop_old_by f cutoff (t # ts) = (if f t < cutoff then pop_old_by f cutoff ts else t # ts)"

abbreviation pop_old :: "instant \<Rightarrow> instant list \<Rightarrow> instant list" where
  "pop_old \<equiv> pop_old_by (\<lambda>t. t)"

definition bucket_of :: "buckets \<Rightarrow> string \<Rightarrow> instant list" where
  "bucket_of b k = (case dget b k of None \<Rightarrow> [] | Some ts \<Rightarrow> ts)"

definition lw_hit :: "string \<Rightarrow> int \<Rightarrow> instant \<Rightarrow> buckets \<Rightarrow> nat \<times> buckets" where
  "lw_hit key window now b = (let cutoff = now - usec window;
     bucket = pop_old cutoff (bucket_of b key) @ [now]
   in (length bucket, dset key bucket b))"

definition lw_count :: "string \<Rightarrow> int \<Rightarrow> instant \<Rightarrow> buckets \<Rightarrow> nat" where
  "lw_count key window now b = (let cutoff = now - usec window in
     length (filter (\<lambda>ts. cutoff \<le> ts) (bucket_of b key)))"

definition lw_clear :: "string \<Rightarrow> buckets \<Rightarrow> buckets" where
  "lw_clear pre b = filter (\<lambda>(k, _). \<not> prefix pre k) b"

definition lw_keys :: "string \<Rightarrow> buckets \<Rightarrow> string list" where
  "lw_keys pre b = filter (prefix pre) (map fst b)"

lemma pop_old_filter: "sorted (map f ts) \<Longrightarrow> pop_old_by f cutoff ts = filter (\<lambda>t. cutoff \<le> f t) ts"
  by (induction ts) (auto intro!: filter_True [symmetric])

lemma filter_pop_old: "(\<And>t. P t \<Longrightarrow> cutoff \<le> t) \<Longrightarrow> filter P (pop_old cutoff ts) = filter P ts"
  by (induction ts) fastforce+

lemma pop_old_length: "length (pop_old cutoff ts) \<le> length ts"
  by (induction ts) auto

section \<open>The interface\<close>

text \<open>
  What a rate limiter needs of \<open>hit\<close>: cache \<open>c\<close> tracks a history \<open>h\<close> of the hits of a key, and a hit
  reports at least the hits of the trailing window, itself included. Hits of other keys do not
  disturb the history.
\<close>

locale window_cache =
  fixes hit :: "'k \<Rightarrow> int \<Rightarrow> int \<Rightarrow> 'c \<Rightarrow> nat \<times> 'c"
    and tracks :: "int \<Rightarrow> 'c \<Rightarrow> 'k \<Rightarrow> int list \<Rightarrow> bool"
    and empty_cache :: 'c
  assumes tracks_empty: "tracks w empty_cache k []"
    and hit_tracks: "tracks w c k h \<Longrightarrow> \<forall>t \<in> set h. t \<le> now \<Longrightarrow> tracks w (snd (hit k w now c)) k (h @ [now])"
    and hit_other: "tracks w c k h \<Longrightarrow> k' \<noteq> k \<Longrightarrow> tracks w (snd (hit k' w now c)) k h"
    and hit_count: "tracks w c k h \<Longrightarrow> \<forall>t \<in> set h. t \<le> now \<Longrightarrow>
        length (filter (\<lambda>t. now - usec w < t) (h @ [now])) \<le> fst (hit k w now c)"
begin

text \<open>A caller that lets a call (key, limit, time) through only when the count is within its limit.\<close>

fun admits :: "int \<Rightarrow> ('k \<times> int \<times> int) list \<Rightarrow> 'c \<Rightarrow> ('k \<times> int \<times> int \<times> bool) list" where
  "admits w [] c = []"
| "admits w ((k, bud, now) # calls) c =
     (k, bud, now, int (fst (hit k w now c)) \<le> bud) # admits w calls (snd (hit k w now c))"

definition admitted_in :: "'k \<Rightarrow> int \<Rightarrow> int \<Rightarrow> int \<Rightarrow> ('k \<times> int \<times> int \<times> bool) list \<Rightarrow> nat" where
  "admitted_in k bud lo hi tr =
     length (filter (\<lambda>(k', bud', t, ok). ok \<and> k' = k \<and> bud' = bud \<and> lo < t \<and> t \<le> hi) tr)"

text \<open>Calls refused after the last admitted one do not matter; the last admitted one was counted.\<close>

lemma admitted_bound_aux:
  assumes "tracks w c k h" and "sorted (h @ map (snd \<circ> snd) calls)"
    and "int (length (filter (\<lambda>t. hi - usec w < t \<and> t \<le> hi) past)) \<le> max 0 bud"
    and "\<And>P. length (filter P past) \<le> length (filter P h)"
  shows "int (length (filter (\<lambda>t. hi - usec w < t \<and> t \<le> hi) past)
       + admitted_in k bud (hi - usec w) hi (admits w calls c)) \<le> max 0 bud"
  using assms
proof (induction calls arbitrary: c h past)
  case Nil
  then show ?case by (simp add: admitted_in_def)
next
  case (Cons call calls)
  obtain k' bud' now where call: "call = (k', bud', now)" by (cases call) auto
  let ?c = "snd (hit k' w now c)" and ?ok = "int (fst (hit k' w now c)) \<le> bud'"
  let ?in = "\<lambda>t. hi - usec w < t \<and> t \<le> hi"
  have le: "\<forall>t \<in> set h. t \<le> now" using Cons.prems(2) by (auto simp: sorted_append call)
  show ?case
  proof (cases "k' = k")
    case False
    have "sorted (h @ map (snd \<circ> snd) calls)" using Cons.prems(2) by (auto simp: sorted_append comp_def)
    from Cons.IH [OF hit_other [OF Cons.prems(1) False] this Cons.prems(3,4)] False
    show ?thesis by (simp add: admitted_in_def call)
  next
    case same: True
    have tr: "tracks w ?c k (h @ [now])" using hit_tracks [OF Cons.prems(1) le] same by simp
    have srt: "sorted ((h @ [now]) @ map (snd \<circ> snd) calls)" using Cons.prems(2) by (simp add: call comp_def)
    show ?thesis
    proof (cases "?ok \<and> bud' = bud \<and> ?in now")
      case True
      have "length (filter ?in past) \<le> length (filter (\<lambda>t. now - usec w < t) past)"
        using True by (induction past) auto
      also have "\<dots> \<le> length (filter (\<lambda>t. now - usec w < t) h)" using Cons.prems(4) .
      finally have "length (filter ?in (past @ [now])) \<le> length (filter (\<lambda>t. now - usec w < t) (h @ [now]))"
        using True by (cases "0 < usec w") auto
      also have "\<dots> \<le> fst (hit k' w now c)" using hit_count [OF Cons.prems(1) le] same by simp
      finally have b: "int (length (filter ?in (past @ [now]))) \<le> max 0 bud" using True by linarith
      have "length (filter P (past @ [now])) \<le> length (filter P (h @ [now]))" for P
        using Cons.prems(4) by simp
      from Cons.IH [OF tr srt b this] show ?thesis using True same by (simp add: admitted_in_def call)
    next
      case False
      have "length (filter P past) \<le> length (filter P (h @ [now]))" for P
        using Cons.prems(4) [of P] by simp
      from Cons.IH [OF tr srt Cons.prems(3) this] show ?thesis
        using False same by (auto simp: admitted_in_def call)
    qed
  qed
qed

text \<open>However the calls are spaced and interleaved, no window admits more than the limit of a key.\<close>

lemma admitted_bound:
  assumes "sorted (map (snd \<circ> snd) calls)"
  shows "int (admitted_in k bud (hi - usec w) hi (admits w calls empty_cache)) \<le> max 0 bud"
  using admitted_bound_aux [OF tracks_empty, of calls hi w "[]" bud k] assms by simp

end

section \<open>The in-process cache satisfies the interface\<close>

text \<open>The bucket of a key is its history less a prefix of hits that fell out of some window.\<close>

definition lw_tracks :: "int \<Rightarrow> buckets \<Rightarrow> string \<Rightarrow> instant list \<Rightarrow> bool" where
  "lw_tracks w b k h \<longleftrightarrow>
     (\<exists>old. h = old @ bucket_of b k \<and> (\<forall>t \<in> set old. \<exists>u \<in> set h. t < u - usec w))"

lemma pop_old_split: "\<exists>popped. ts = popped @ pop_old cutoff ts \<and> (\<forall>t \<in> set popped. t < cutoff)"
proof (induction ts)
  case (Cons t ts)
  then obtain popped where "ts = popped @ pop_old cutoff ts" "\<forall>t \<in> set popped. t < cutoff" by blast
  then show ?case by (cases "t < cutoff") (auto intro!: exI [of _ "t # popped"])
qed simp

lemma bucket_of_lw_hit:
  "bucket_of (snd (lw_hit k w now b)) k' =
     (if k' = k then pop_old (now - usec w) (bucket_of b k) @ [now] else bucket_of b k')"
  by (simp add: lw_hit_def bucket_of_def Let_def)

lemma fst_lw_hit: "fst (lw_hit k w now b) = Suc (length (pop_old (now - usec w) (bucket_of b k)))"
  by (simp add: lw_hit_def Let_def)

interpretation local_window: window_cache lw_hit lw_tracks "[]"
proof
  fix w k show "lw_tracks w [] k []"
    by (simp add: lw_tracks_def bucket_of_def)
next
  fix w b k h k' now
  assume "lw_tracks w b k h" and "k' \<noteq> k"
  then show "lw_tracks w (snd (lw_hit k' w now b)) k h"
    by (simp add: lw_tracks_def bucket_of_lw_hit)
next
  fix w b k h now
  assume tr: "lw_tracks w b k h" and le: "\<forall>t \<in> set h. t \<le> now"
  then obtain old where h: "h = old @ bucket_of b k"
    and old: "\<forall>t \<in> set old. \<exists>u \<in> set h. t < u - usec w"
    by (auto simp: lw_tracks_def)
  let ?cut = "now - usec w"
  obtain popped where p: "bucket_of b k = popped @ pop_old ?cut (bucket_of b k)"
    "\<forall>t \<in> set popped. t < ?cut" using pop_old_split by blast
  show "lw_tracks w (snd (lw_hit k w now b)) k (h @ [now])"
    unfolding lw_tracks_def bucket_of_lw_hit
    by (rule exI [of _ "old @ popped"]) (use h p old in auto)
  have "\<forall>t \<in> set old. t < ?cut" using old le by fastforce
  then have "filter (\<lambda>t. ?cut < t) (h @ [now])
      = filter (\<lambda>t. ?cut < t) (pop_old ?cut (bucket_of b k) @ [now])"
    by (auto simp: h filter_pop_old filter_empty_conv)
  then show "length (filter (\<lambda>t. ?cut < t) (h @ [now])) \<le> fst (lw_hit k w now b)"
    by (metis fst_lw_hit length_append_singleton length_filter_le)
qed

end
