(* ===== verification/Agp_Guardrails.thy ===== *)
theory Agp_Guardrails
  imports Window_Cache
begin

text \<open>
  The rest of \<open>agperms/_guardrails.py\<close>: the rate limiter, the circuit breaker and the log-only anomaly
  detector. The time of the call is an argument; floats are real numbers.
\<close>

section \<open>Number formatting\<close>

text \<open>Python rounds halves to even when it formats a float.\<close>

definition round_half_even :: "real \<Rightarrow> int" where
  "round_half_even x = (let f = \<lfloor>x\<rfloor>; r = x - of_int f in
     if r < 1 / 2 then f else if 1 / 2 < r then f + 1 else if even f then f else f + 1)"

text \<open>\<open>f"{x:.df}"\<close> and \<open>f"{x:.0%}"\<close>.\<close>

definition fmt_fixed :: "nat \<Rightarrow> real \<Rightarrow> string" where
  "fmt_fixed d x = (let a = nat (round_half_even (\<bar>x\<bar> * 10 ^ d)); frac = str_nat (a mod 10 ^ d) in
     (if x < 0 then ''-'' else '''') @ str_nat (a div 10 ^ d)
     @ (if d = 0 then '''' else ''.'' @ replicate (d - length frac) CHR ''0'' @ frac))"

definition fmt_pct :: "real \<Rightarrow> string" where
  "fmt_pct x = fmt_fixed 0 (100 * x) @ ''%''"

section \<open>Rate limiter\<close>

definition RATE_PREFIX :: string where
  "RATE_PREFIX = ''rate:''"

definition WINDOW_SECONDS :: int where
  "WINDOW_SECONDS = 60"

definition limit_for :: "config \<Rightarrow> string \<Rightarrow> int" where
  "limit_for c act =
     (if act = ''delegate'' then cf_rate_limit_delegate_per_min c
      else if act = ''action'' then cf_rate_limit_action_per_min c
      else cf_rate_limit_verify_per_min c)"

definition rate_key :: "string \<Rightarrow> string \<Rightarrow> string" where
  "rate_key act subject_id = RATE_PREFIX @ act @ '':'' @ subject_id"

definition rate_check :: "config \<Rightarrow> string \<Rightarrow> string \<Rightarrow> instant \<Rightarrow> (buckets, agp_error, unit) prog" where
  "rate_check c subject_id act now b =
     (if is_exempt c (Some subject_id) then (Inr (), b)
      else let limit = limit_for c act;
             (count, b') = lw_hit (rate_key act subject_id) WINDOW_SECONDS now b
           in if limit < int count then (Inl (RateLimitExceeded subject_id limit WINDOW_SECONDS), b')
              else (Inr (), b'))"

definition rate_snapshot :: "instant \<Rightarrow> buckets \<Rightarrow> (string, nat) dict" where
  "rate_snapshot now b = fold (\<lambda>key out. let live = lw_count key WINDOW_SECONDS now b in
       if live \<noteq> 0 then dset (drop (length RATE_PREFIX) key) live out else out)
     (lw_keys RATE_PREFIX b) []"

definition rate_reset :: "buckets \<Rightarrow> buckets" where
  "rate_reset b = lw_clear RATE_PREFIX b"

section \<open>Circuit breaker\<close>

record breaker =
  br_events :: "(instant \<times> bool) list"
  br_open :: bool
  br_opened_at :: "instant option"
  br_reason :: "string option"

definition new_breaker :: breaker where
  "new_breaker = \<lparr>br_events = [], br_open = False, br_opened_at = None, br_reason = None\<rparr>"

text \<open>
  \<open>record\<close>: the tripping message goes to the caller, which calls back the audit log with it.
\<close>

definition breaker_record ::
  "config \<Rightarrow> bool \<Rightarrow> string option \<Rightarrow> bool \<Rightarrow> instant \<Rightarrow> breaker \<Rightarrow> string option \<times> breaker" where
  "breaker_record c error0 subject_id policy_denial now br =
     (if is_exempt c subject_id then (None, br)
      else let
        error = (if policy_denial \<and> \<not> cf_circuit_count_policy_denials c then False else error0);
        window = cf_circuit_window_seconds c;
        events = pop_old_by fst (now - usec window) (br_events br @ [(now, error)]);
        samples = length events;
        errors = length (filter snd events);
        rate = (if samples \<noteq> 0 then real errors / real samples else 0);
        tripped = (if br_open br then None
          else if cf_circuit_min_samples c \<le> int samples \<and> cf_circuit_error_rate_threshold c \<le> rate
            then Some (''error_rate '' @ fmt_pct rate @ '' >= threshold ''
              @ fmt_pct (cf_circuit_error_rate_threshold c) @ '' over '' @ str_nat samples
              @ '' samples in '' @ str_int window @ ''s'')
          else if cf_circuit_volume_ceiling c < int samples
            then Some (''call volume '' @ str_nat samples @ '' exceeded ceiling ''
              @ str_int (cf_circuit_volume_ceiling c) @ '' in '' @ str_int window @ ''s'')
          else None);
        br' = br\<lparr>br_events := events\<rparr>
      in (tripped, case tripped of None \<Rightarrow> br'
            | Some _ \<Rightarrow> br'\<lparr>br_open := True, br_opened_at := Some now, br_reason := tripped\<rparr>))"

definition breaker_check :: "breaker \<Rightarrow> agp_error + unit" where
  "breaker_check br = (if br_open br then Inl (CircuitOpen (br_reason br)) else Inr ())"

record circuit_state =
  cs_open :: bool
  cs_opened_at :: "instant option"
  cs_reason :: "string option"
  cs_error_rate :: real
  cs_samples :: nat
  cs_errors :: nat

definition breaker_state :: "config \<Rightarrow> instant \<Rightarrow> breaker \<Rightarrow> circuit_state" where
  "breaker_state c now br = (let cutoff = now - usec (cf_circuit_window_seconds c);
     live = filter (\<lambda>(ts, _). cutoff \<le> ts) (br_events br);
     samples = length live; errors = length (filter snd live)
   in \<lparr>cs_open = br_open br, cs_opened_at = br_opened_at br, cs_reason = br_reason br,
       cs_error_rate = (if samples \<noteq> 0 then real errors / real samples else 0),
       cs_samples = samples, cs_errors = errors\<rparr>)"

definition breaker_reset :: "breaker \<Rightarrow> breaker" where
  "breaker_reset br =
     br\<lparr>br_open := False, br_opened_at := None, br_reason := None, br_events := []\<rparr>"

section \<open>Anomaly detector\<close>

record baseline =
  bl_intervals :: "real list"
  bl_scope_counts :: "real list"
  bl_last_seen :: "instant option"

definition new_baseline :: baseline where
  "new_baseline = \<lparr>bl_intervals = [], bl_scope_counts = [], bl_last_seen = None\<rparr>"

text \<open>\<open>append\<close> on a \<open>deque(maxlen=100)\<close>.\<close>

definition push100 :: "'a \<Rightarrow> 'a list \<Rightarrow> 'a list" where
  "push100 x xs = (if length xs < 100 then xs @ [x] else tl xs @ [x])"

definition mean_std :: "real list \<Rightarrow> real \<times> real" where
  "mean_std xs = (if xs = [] then (0, 0)
     else let mean = sum_list xs / real (length xs) in
       if length xs < 2 then (mean, 0)
       else (mean, sqrt (sum_list (map (\<lambda>v. (v - mean) ^ 2) xs) / (real (length xs) - 1))))"

definition ZERO_STD_RELATIVE_MARGIN :: real where
  "ZERO_STD_RELATIVE_MARGIN = 2"

definition is_high_outlier :: "real \<Rightarrow> real \<Rightarrow> real \<Rightarrow> real \<Rightarrow> bool" where
  "is_high_outlier v mean std sigma = (if 0 < std then mean + sigma * std < v
     else max (mean * ZERO_STD_RELATIVE_MARGIN) (mean + 1) < v)"

definition is_low_outlier :: "real \<Rightarrow> real \<Rightarrow> real \<Rightarrow> real \<Rightarrow> bool" where
  "is_low_outlier v mean std sigma = (if 0 < std then v < mean - sigma * std
     else v < mean / ZERO_STD_RELATIVE_MARGIN)"

type_synonym baselines = "(string, baseline) dict"

text \<open>The finding about the gap since the last delegation, and the one about the number of scopes.\<close>

definition interval_finding :: "config \<Rightarrow> baseline \<Rightarrow> real \<Rightarrow> string list" where
  "interval_finding c bl interval =
     (if cf_anomaly_min_baseline_samples c \<le> int (length (bl_intervals bl)) then
        let (mean, std) = mean_std (bl_intervals bl) in
        if is_low_outlier interval mean std (cf_anomaly_sigma_threshold c) then
          [''delegation interval '' @ fmt_fixed 3 interval @ ''s is well below baseline mean ''
           @ fmt_fixed 3 mean @ ''s (std '' @ fmt_fixed 3 std @ '')'']
        else []
      else [])"

definition scope_finding :: "config \<Rightarrow> baseline \<Rightarrow> nat \<Rightarrow> string list" where
  "scope_finding c bl scope_count =
     (if cf_anomaly_min_baseline_samples c \<le> int (length (bl_scope_counts bl)) then
        let (mean, std) = mean_std (bl_scope_counts bl) in
        if is_high_outlier (real scope_count) mean std (cf_anomaly_sigma_threshold c) then
          [''requested '' @ str_nat scope_count @ '' scopes vs baseline mean '' @ fmt_fixed 2 mean
           @ '' (std '' @ fmt_fixed 2 std @ '')'']
        else []
      else [])"

definition observe_delegation ::
  "config \<Rightarrow> string \<Rightarrow> nat \<Rightarrow> instant \<Rightarrow> baselines \<Rightarrow> string option \<times> baselines" where
  "observe_delegation c subject_id scope_count now bls = (let
     bl = (case dget bls subject_id of None \<Rightarrow> new_baseline | Some bl \<Rightarrow> bl);
     interval = map_option (\<lambda>t. real_of_int (now - t) / 1000000) (bl_last_seen bl);
     f1 = (case interval of None \<Rightarrow> [] | Some i \<Rightarrow> interval_finding c bl i);
     ints = (case interval of None \<Rightarrow> bl_intervals bl | Some i \<Rightarrow> push100 i (bl_intervals bl));
     findings = f1 @ scope_finding c bl scope_count;
     bl' = bl\<lparr>bl_last_seen := Some now, bl_intervals := ints,
              bl_scope_counts := push100 (real scope_count) (bl_scope_counts bl)\<rparr>
   in (if findings = [] then None else Some (join ''; '' findings), dset subject_id bl' bls))"

definition anomaly_reset :: "baselines \<Rightarrow> baselines" where
  "anomaly_reset bls = []"


section \<open>The breaker's window\<close>

text \<open>An outcome reported to \<open>record\<close>: error, subject, policy denial, time.\<close>

type_synonym outcome = "bool \<times> string option \<times> bool \<times> instant"

definition effective :: "config \<Rightarrow> outcome list \<Rightarrow> (instant \<times> bool) list" where
  "effective c outs = map (\<lambda>(err, _, pol, t). (t, err \<and> \<not> (pol \<and> \<not> cf_circuit_count_policy_denials c)))
     (filter (\<lambda>(_, s, _, _). \<not> is_exempt c s) outs)"

definition breaker_run :: "config \<Rightarrow> outcome list \<Rightarrow> breaker \<Rightarrow> breaker" where
  "breaker_run c outs br =
     fold (\<lambda>(err, s, pol, now) br. snd (breaker_record c err s pol now br)) outs br"

definition times :: "outcome list \<Rightarrow> instant list" where
  "times outs = map (\<lambda>(_, _, _, t). t) outs"

lemma breaker_run_snoc:
  "breaker_run c (outs @ [(err, s, pol, now)]) br = snd (breaker_record c err s pol now (breaker_run c outs br))"
  by (simp add: breaker_run_def)

lemma effective_snoc:
  "effective c (outs @ [(err, s, pol, now)]) = effective c outs @
     (if is_exempt c s then [] else [(now, err \<and> \<not> (pol \<and> \<not> cf_circuit_count_policy_denials c))])"
  by (simp add: effective_def)

lemma effective_times: "t \<in> fst ` set (effective c outs) \<Longrightarrow> t \<in> set (times outs)"
  by (force simp: effective_def times_def)

lemma sorted_effective: "sorted (times outs) \<Longrightarrow> sorted (map fst (effective c outs))"
  by (induction outs) (force simp: effective_def times_def)+

lemma br_events_record:
  "\<not> is_exempt c s \<Longrightarrow> br_events (snd (breaker_record c err s pol now br))
     = pop_old_by fst (now - usec (cf_circuit_window_seconds c))
         (br_events br @ [(now, err \<and> \<not> (pol \<and> \<not> cf_circuit_count_policy_denials c))])"
  by (auto simp: breaker_record_def Let_def split: option.splits)

lemma pop_old_suffix: "suffix (pop_old_by f cutoff ts) ts"
  by (induction ts) (auto simp: suffix_Cons)

lemma filter_pop_old_by:
  "(\<And>x. P x \<Longrightarrow> cutoff \<le> f x) \<Longrightarrow> filter P (pop_old_by f cutoff ts) = filter P ts"
  by (induction ts) fastforce+

text \<open>The events kept are the end of the history, and nothing of any later window is missing.\<close>

lemma breaker_window:
  assumes "sorted (times outs)"
  shows "suffix (br_events (breaker_run c outs new_breaker)) (effective c outs) \<and>
    (\<forall>now. (\<forall>t \<in> set (times outs). t \<le> now) \<longrightarrow>
      filter (\<lambda>x. now - usec (cf_circuit_window_seconds c) \<le> fst x) (br_events (breaker_run c outs new_breaker))
      = filter (\<lambda>x. now - usec (cf_circuit_window_seconds c) \<le> fst x) (effective c outs))"
  using assms
proof (induction outs rule: rev_induct)
  case Nil
  then show ?case by (simp add: breaker_run_def new_breaker_def effective_def)
next
  case (snoc o1 outs)
  obtain err s pol now where o1: "o1 = (err, s, pol, now)" by (cases o1) auto
  have IH: "suffix (br_events (breaker_run c outs new_breaker)) (effective c outs)"
    and IH2: "\<And>now. \<forall>t \<in> set (times outs). t \<le> now \<Longrightarrow>
      filter (\<lambda>x. now - usec (cf_circuit_window_seconds c) \<le> fst x) (br_events (breaker_run c outs new_breaker))
      = filter (\<lambda>x. now - usec (cf_circuit_window_seconds c) \<le> fst x) (effective c outs)"
    using snoc by (auto simp: times_def sorted_append)
  show ?case
  proof (cases "is_exempt c s")
    case True
    then have "breaker_run c (outs @ [o1]) new_breaker = breaker_run c outs new_breaker"
      "effective c (outs @ [o1]) = effective c outs"
      by (simp_all add: o1 breaker_run_snoc effective_snoc breaker_record_def)
    then show ?thesis using IH IH2 by (simp add: times_def)
  next
    case False
    let ?e = "(now, err \<and> \<not> (pol \<and> \<not> cf_circuit_count_policy_denials c))"
    let ?old = "br_events (breaker_run c outs new_breaker)"
    have ev: "br_events (breaker_run c (outs @ [o1]) new_breaker)
        = pop_old_by fst (now - usec (cf_circuit_window_seconds c)) (?old @ [?e])"
      using False by (simp add: o1 breaker_run_snoc br_events_record)
    have eff: "effective c (outs @ [o1]) = effective c outs @ [?e]"
      using False by (simp add: o1 effective_snoc)
    have "suffix (br_events (breaker_run c (outs @ [o1]) new_breaker)) (effective c (outs @ [o1]))"
      unfolding ev eff using IH pop_old_suffix [of fst _ "?old @ [?e]"]
      by (meson same_suffix_suffix suffix_order.trans)
    moreover have "filter (\<lambda>x. now' - usec (cf_circuit_window_seconds c) \<le> fst x)
        (br_events (breaker_run c (outs @ [o1]) new_breaker))
      = filter (\<lambda>x. now' - usec (cf_circuit_window_seconds c) \<le> fst x) (effective c (outs @ [o1]))"
      if "\<forall>t \<in> set (times (outs @ [o1])). t \<le> now'" for now'
      unfolding ev eff using that IH2 [of now']
      by (subst filter_pop_old_by) (auto simp: o1 times_def)
    ultimately show ?thesis by blast
  qed
qed

text \<open>What the breaker holds right after a record: exactly the outcomes of the trailing window.\<close>

lemma breaker_events_after:
  assumes "sorted (times (outs @ [(err, s, pol, now)]))" and "\<not> is_exempt c s"
  shows "br_events (breaker_run c (outs @ [(err, s, pol, now)]) new_breaker)
    = filter (\<lambda>x. now - usec (cf_circuit_window_seconds c) \<le> fst x) (effective c (outs @ [(err, s, pol, now)]))"
    (is "?ev = filter ?P ?eff")
proof -
  let ?all = "outs @ [(err, s, pol, now)]"
  note w = breaker_window [OF assms(1), of c]
  have "\<forall>t \<in> set (times ?all). t \<le> now" using assms(1) by (auto simp: times_def sorted_append)
  then have "filter ?P ?ev = filter ?P ?eff" using w by blast
  moreover have "sorted (map fst (br_events (breaker_run c outs new_breaker) @ [(now, x)]))" for x
  proof -
    have "sorted (times outs)" using assms(1) by (simp add: times_def sorted_append)
    then have "suffix (br_events (breaker_run c outs new_breaker)) (effective c outs)"
      using breaker_window by blast
    then obtain pre where pre: "effective c outs = pre @ br_events (breaker_run c outs new_breaker)"
      by (auto simp: suffix_def)
    have "sorted (map fst (effective c outs))" using sorted_effective \<open>sorted (times outs)\<close> .
    moreover have "\<forall>t \<in> fst ` set (effective c outs). t \<le> now"
      using effective_times [of _ c outs] assms(1) by (auto simp: times_def sorted_append) force
    ultimately show ?thesis unfolding pre by (auto simp: sorted_append)
  qed
  then have "filter ?P ?ev = ?ev"
    using assms(2) by (simp add: breaker_run_snoc br_events_record pop_old_filter del: map_append)
  ultimately show ?thesis by simp
qed

lemma breaker_record_open:
  assumes "\<not> is_exempt c s"
  shows "br_open (snd (breaker_record c err s pol now br)) \<longleftrightarrow> br_open br \<or>
    (let ev = br_events (snd (breaker_record c err s pol now br)); n = length ev in
       cf_circuit_min_samples c \<le> int n \<and>
         cf_circuit_error_rate_threshold c \<le> (if n = 0 then 0 else real (length (filter snd ev)) / real n)
       \<or> cf_circuit_volume_ceiling c < int n)"
  unfolding br_events_record [OF assms]
  using assms by (auto simp: breaker_record_def Let_def split: option.splits)

section \<open>Rate-limited runs\<close>

fun rate_run :: "config \<Rightarrow> (string \<times> string \<times> instant) list \<Rightarrow> buckets
    \<Rightarrow> (string \<times> string \<times> instant \<times> bool) list" where
  "rate_run c [] b = []"
| "rate_run c ((s, act, now) # calls) b = (case rate_check c s act now b of
     (r, b') \<Rightarrow> (s, act, now, r = Inr ()) # rate_run c calls b')"

definition passed :: "string \<Rightarrow> string \<Rightarrow> instant \<Rightarrow> instant \<Rightarrow> (string \<times> string \<times> instant \<times> bool) list \<Rightarrow> nat" where
  "passed s act lo hi tr = length (filter (\<lambda>(s', act', t, ok). ok \<and> s' = s \<and> act' = act \<and> lo < t \<and> t \<le> hi) tr)"

definition counted :: "config \<Rightarrow> (string \<times> string \<times> instant) list \<Rightarrow> (string \<times> int \<times> int) list" where
  "counted c calls = map (\<lambda>(s, act, t). (rate_key act s, limit_for c act, t))
     (filter (\<lambda>(s, _, _). \<not> is_exempt c (Some s)) calls)"

lemma passed_le_admitted:
  "\<not> is_exempt c (Some s) \<Longrightarrow> passed s act lo hi (rate_run c calls b)
     \<le> local_window.admitted_in (rate_key act s) (limit_for c act) lo hi
         (local_window.admits WINDOW_SECONDS (counted c calls) b)"
proof (induction c calls b rule: rate_run.induct)
  case (2 c s' act' now calls b)
  obtain r b' where rb: "rate_check c s' act' now b = (r, b')" by fastforce
  have IH: "passed s act lo hi (rate_run c calls b') \<le> local_window.admitted_in (rate_key act s)
      (limit_for c act) lo hi (local_window.admits WINDOW_SECONDS (counted c calls) b')"
    using 2 rb by simp
  show ?case
  proof (cases "is_exempt c (Some s')")
    case True
    then have "b' = b" using rb by (simp add: rate_check_def)
    then show ?thesis using IH True 2(2) rb by (auto simp: passed_def counted_def)
  next
    case False
    then have "b' = snd (lw_hit (rate_key act' s') WINDOW_SECONDS now b)"
      and "r = Inr () \<longleftrightarrow> int (fst (lw_hit (rate_key act' s') WINDOW_SECONDS now b)) \<le> limit_for c act'"
      using rb by (auto simp: rate_check_def Let_def split: prod.splits if_splits)
    then show ?thesis using IH False rb
      by (auto simp: passed_def counted_def local_window.admitted_in_def)
  qed
qed (simp add: passed_def)

lemma counted_sorted: "sorted (map (snd \<circ> snd) calls) \<Longrightarrow> sorted (map (snd \<circ> snd) (counted c calls))"
  by (induction calls) (auto simp: counted_def split: if_splits)

section \<open>Properties\<close>

text \<open>C24: the rate limiter is a true sliding window. Whatever the interleaving of subjects and
  operations and however the calls are spaced (two calls straddling a minute boundary included), no
  60-second window lets more than the configured number of calls of a non-exempt subject pass.\<close>

theorem rate_limit_sliding_window:
  assumes "sorted (map (snd \<circ> snd) calls)" and "\<not> is_exempt c (Some s)"
  shows "int (passed s act (hi - 60000000) hi (rate_run c calls [])) \<le> max 0 (limit_for c act)"
proof -
  have "sorted (map (snd \<circ> snd) (counted c calls))" using counted_sorted assms(1) .
  from local_window.admitted_bound [OF this, where w = WINDOW_SECONDS]
    have "int (local_window.admitted_in (rate_key act s) (limit_for c act) (hi - 60000000) hi
        (local_window.admits WINDOW_SECONDS (counted c calls) [])) \<le> max 0 (limit_for c act)"
    by (simp add: WINDOW_SECONDS_def usec_def)
  with passed_le_admitted [OF assms(2), of act "hi - 60000000" hi calls "[]"]
  show ?thesis by linarith
qed

theorem rate_limit_sliding_window_witness:
  "int (passed ''agent'' ''verify'' (70000000 - 60000000) 70000000
     (rate_run (default_config\<lparr>cf_rate_limit_verify_per_min := 1\<rparr>)
       [(''agent'', ''verify'', 1000000), (''agent'', ''verify'', 62000000), (''agent'', ''verify'', 63000000)] []))
   \<le> max 0 (limit_for (default_config\<lparr>cf_rate_limit_verify_per_min := 1\<rparr>) ''verify'')"
  by (rule rate_limit_sliding_window) (simp_all add: is_exempt_def default_config_def)

text \<open>C25: when the breaker trips. After a time-ordered run of outcomes the breaker is open exactly if
  it was open before the last one (whose subject is not exempt) or, over the outcomes of the trailing window (exempt subjects left
  out, policy denials discounted as configured), the error rate reached the threshold with enough
  samples, or the volume passed the ceiling. Nothing else opens it and nothing recorded closes it.\<close>

theorem breaker_trips_exactly:
  fixes c outs err s pol now
  defines "live \<equiv> filter (\<lambda>x. now - usec (cf_circuit_window_seconds c) \<le> fst x)
      (effective c (outs @ [(err, s, pol, now)]))"
  assumes "sorted (times (outs @ [(err, s, pol, now)]))" and "\<not> is_exempt c s"
    and "0 \<le> cf_circuit_window_seconds c"
  shows "br_open (breaker_run c (outs @ [(err, s, pol, now)]) new_breaker) \<longleftrightarrow>
    br_open (breaker_run c outs new_breaker)
    \<or> cf_circuit_min_samples c \<le> int (length live)
        \<and> cf_circuit_error_rate_threshold c \<le> real (length (filter snd live)) / real (length live)
    \<or> cf_circuit_volume_ceiling c < int (length live)"
proof -
  have "br_events (snd (breaker_record c err s pol now (breaker_run c outs new_breaker))) = live"
    using breaker_events_after [OF assms(2,3)] by (simp add: breaker_run_snoc live_def)
  then show ?thesis
    by (simp add: breaker_run_snoc breaker_record_open [OF assms(3)] Let_def)
qed

theorem breaker_trips_exactly_witness:
  "br_open (breaker_run (default_config\<lparr>cf_circuit_min_samples := 2\<rparr>)
     ([(False, None, False, 0)] @ [(True, None, False, 5)]) new_breaker)"
  by (subst breaker_trips_exactly)
    (simp_all add: times_def is_exempt_def default_config_def effective_def usec_def)

text \<open>Clients cannot open the breaker for everyone else. With policy denials not counted (the
  default), a run whose every error is a policy denial never trips it, short of sheer volume.\<close>

theorem denials_cannot_trip:
  assumes "\<not> cf_circuit_count_policy_denials c" and "0 < cf_circuit_error_rate_threshold c"
    and "\<forall>(err, s, pol, t) \<in> set outs. err \<longrightarrow> pol" and "int (length outs) \<le> cf_circuit_volume_ceiling c"
  shows "\<not> br_open (breaker_run c outs new_breaker)"
proof -
  have "(\<forall>x \<in> set (br_events (breaker_run c outs new_breaker)). \<not> snd x) \<and>
      length (br_events (breaker_run c outs new_breaker)) \<le> length outs \<and>
      \<not> br_open (breaker_run c outs new_breaker)"
    using assms(3,4)
  proof (induction outs rule: rev_induct)
    case Nil
    then show ?case by (simp add: breaker_run_def new_breaker_def)
  next
    case (snoc o1 outs)
    obtain err s pol now where o1: "o1 = (err, s, pol, now)" by (cases o1) auto
    let ?br = "breaker_run c outs new_breaker"
    have IH: "\<forall>x \<in> set (br_events ?br). \<not> snd x" "length (br_events ?br) \<le> length outs" "\<not> br_open ?br"
      using snoc by auto
    show ?case
    proof (cases "is_exempt c s")
      case True
      then show ?thesis using IH by (simp add: o1 breaker_run_snoc breaker_record_def)
    next
      case False
      let ?ev = "br_events (snd (breaker_record c err s pol now ?br))"
      have eq: "(err \<and> \<not> (pol \<and> \<not> cf_circuit_count_policy_denials c)) = False"
        using snoc.prems(1) assms(1) by (auto simp: o1)
      have "?ev = pop_old_by fst (now - usec (cf_circuit_window_seconds c)) (br_events ?br @ [(now, False)])"
        unfolding br_events_record [OF False] eq by (rule refl)
      then have suf: "suffix ?ev (br_events ?br @ [(now, False)])"
        by (metis pop_old_suffix)
      then have "\<forall>x \<in> set ?ev. \<not> snd x" using IH(1) set_mono_suffix by fastforce
      moreover have "length ?ev \<le> length (outs @ [o1])"
        using suffix_length_le [OF suf] IH(2) by simp
      moreover have "\<not> br_open (snd (breaker_record c err s pol now ?br))"
        using calculation IH(3) assms(2) snoc.prems(2)
        by (auto simp: breaker_record_open [OF False] Let_def filter_empty_conv)
      ultimately show ?thesis by (simp add: o1 breaker_run_snoc)
    qed
  qed
  then show ?thesis by blast
qed

theorem denials_cannot_trip_witness:
  "\<not> br_open (breaker_run default_config
     (replicate 100 (True, Some ''mallory'', True, 0)) new_breaker)"
  by (rule denials_cannot_trip) (simp_all add: default_config_def)

text \<open>the most predictable agent stays detectable. For a subject whose recorded delegations all
  asked for the same number of scopes (so the spread is zero), a request is reported exactly when it
  asks for more than twice that number and at least two more, never for a mere increase.\<close>

theorem flat_baseline_detectable:
  assumes "bl_scope_counts bl = replicate n (real k)" and "0 < n"
    and "cf_anomaly_min_baseline_samples c \<le> int n"
  shows "scope_finding c bl m \<noteq> [] \<longleftrightarrow> 2 * k < m \<and> k + 1 < m"
proof -
  have "mean_std (replicate n (real k)) = (real k, 0)"
    using assms(2) by (auto simp: mean_std_def Let_def sum_list_replicate)
  moreover have "max (real k * 2) (real k + 1) < real m \<longleftrightarrow> 2 * k < m \<and> k + 1 < m"
    by linarith
  ultimately show ?thesis
    using assms by (simp add: scope_finding_def is_high_outlier_def ZERO_STD_RELATIVE_MARGIN_def)
qed

theorem flat_baseline_detectable_witness:
  "scope_finding default_config
     \<lparr>bl_intervals = [], bl_scope_counts = replicate 10 (real 3), bl_last_seen = None\<rparr> 7 \<noteq> []"
  by (subst flat_baseline_detectable [where n = 10 and k = 3]) (simp_all add: default_config_def)

end
