(* ===== verification/Memory_Storage.thy ===== *)
theory Memory_Storage
  imports Storage Agp_Guardrails
begin

text \<open>
  \<open>agperms/storage/memory.py\<close>: \<open>MemoryStorage\<close>, one record of dictionaries, and its operations.
  \<open>deepcopy\<close> has no counterpart (values do not alias) and the lock is not modelled: each operation
  runs to its end, as the lock makes it do. An operation that can raise is a program on the store.

  The rows of the audit log are the events of \<open>_audit.py\<close> with the two hashes and the row number.
\<close>

section \<open>State\<close>

record audit_event =
  ev_action :: string
  ev_actor_id :: "string option"
  ev_actor_hash :: "string option"
  ev_jti :: "string option"
  ev_parent_jti :: "string option"
  ev_root_jti :: "string option"
  ev_scopes :: "string list option"
  ev_denied_scopes :: "string list option"
  ev_required_scope :: "string option"
  ev_decision :: "string option"
  ev_reason :: "string option"
  ev_depth :: "int option"
  ev_detail :: "json option"
  ev_latency_us :: "int option"
  ev_event_ts :: string

record audit_row = audit_event +
  aw_prev_hash :: string
  aw_row_hash :: string
  aw_id :: nat

record revocation =
  rv_jti :: string
  rv_revoked_at :: instant
  rv_root :: string
  rv_reason :: "string option"

record memory_store =
  ms_tokens :: "(string, token_metadata) dict"
  ms_edges :: "(string, string list) dict"
  ms_revoked :: "(string, revocation) dict"
  ms_subjects :: "(string, subject) dict"
  ms_subject_by_hash :: "(string \<times> string, string) dict"
  ms_audit :: "audit_row list"
  ms_approvals :: "(string, pending_approval) dict"
  ms_actions :: "(string, action_record) dict"
  ms_actions_by_jti :: "(string, string list) dict"
  ms_reviews :: "(string, action_review) dict"
  ms_closed :: bool

type_synonym 'a mem_prog = "(memory_store, agp_error, 'a) prog"

definition empty_store :: memory_store where
  "empty_store = \<lparr>ms_tokens = [], ms_edges = [], ms_revoked = [], ms_subjects = [],
     ms_subject_by_hash = [], ms_audit = [], ms_approvals = [], ms_actions = [],
     ms_actions_by_jti = [], ms_reviews = [], ms_closed = False\<rparr>"

section \<open>Tokens and edges\<close>

definition put_token :: "token_metadata \<Rightarrow> unit mem_prog" where
  "put_token m st = (if dget (ms_tokens st) (tm_jti m) \<noteq> None then (Inl StorageError, st)
     else (Inr (), st\<lparr>ms_tokens := dset (tm_jti m) m (ms_tokens st)\<rparr>))"

definition get_token :: "memory_store \<Rightarrow> string \<Rightarrow> token_metadata option" where
  "get_token st jti = dget (ms_tokens st) jti"

definition dget_list :: "('k, 'v list) dict \<Rightarrow> 'k \<Rightarrow> 'v list" where
  "dget_list d k = (case dget d k of None \<Rightarrow> [] | Some xs \<Rightarrow> xs)"

definition add_edge :: "string \<Rightarrow> string \<Rightarrow> memory_store \<Rightarrow> memory_store" where
  "add_edge p c st = (let children = dget_list (ms_edges st) p in
     st\<lparr>ms_edges := dset p (if c \<in> set children then children else children @ [c]) (ms_edges st)\<rparr>)"

definition children_of :: "memory_store \<Rightarrow> string list \<Rightarrow> string list" where
  "children_of st parents = concat (map (dget_list (ms_edges st)) parents)"

definition descendants_breadth_first :: "memory_store \<Rightarrow> string \<Rightarrow> string list option" where
  "descendants_breadth_first st root_jti = bfs (children_of st) root_jti"

definition mem_edges :: "memory_store \<Rightarrow> (string \<times> string) set" where
  "mem_edges st = {(p, c). c \<in> set (dget_list (ms_edges st) p)}"

section \<open>Revocation\<close>

definition is_revoked :: "string \<Rightarrow> bool mem_prog" where
  "is_revoked jti st = (if ms_closed st then (Inl StorageError, st)
     else (Inr (dget (ms_revoked st) jti \<noteq> None), st))"

definition revoked_among :: "memory_store \<Rightarrow> string list \<Rightarrow> string set" where
  "revoked_among st jtis = {jti \<in> set jtis. dget (ms_revoked st) jti \<noteq> None}"

fun revoke_many :: "string \<times> string option \<times> instant \<Rightarrow> string list \<Rightarrow> memory_store
    \<Rightarrow> string list \<times> memory_store" where
  "revoke_many (root_jti, reason, now) [] st = ([], st)"
| "revoke_many (root_jti, reason, now) (jti # jtis) st =
     (if dget (ms_revoked st) jti \<noteq> None then revoke_many (root_jti, reason, now) jtis st
      else let st' = st\<lparr>ms_revoked := dset jti \<lparr>rv_jti = jti, rv_revoked_at = now, rv_root = root_jti,
                          rv_reason = reason\<rparr> (ms_revoked st)\<rparr>;
             (newly, st'') = revoke_many (root_jti, reason, now) jtis st'
           in (jti # newly, st''))"

definition mem_revoked :: "memory_store \<Rightarrow> string set" where
  "mem_revoked st = {j. dget (ms_revoked st) j \<noteq> None}"

section \<open>Subjects\<close>

text \<open>The UUID and the time of the call are those a creation would use.\<close>

definition get_or_create_subject ::
  "string \<Rightarrow> instant \<Rightarrow> string \<Rightarrow> string \<Rightarrow> string \<Rightarrow> subject mem_prog" where
  "get_or_create_subject uuid now h kind label st =
     (case dget (ms_subject_by_hash st) (h, kind) of
        Some sid \<Rightarrow> (case dget (ms_subjects st) sid of
            None \<Rightarrow> (Inl KeyError, st) | Some s \<Rightarrow> (Inr s, st))
      | None \<Rightarrow> let s = \<lparr>sj_subject_id = kind @ '':'' @ uuid, sj_identifier_hash = h, sj_kind = kind,
                   sj_display_label = label, sj_created_at = now\<rparr> in
          (Inr s, st\<lparr>ms_subjects := dset (sj_subject_id s) s (ms_subjects st),
                     ms_subject_by_hash := dset (h, kind) (sj_subject_id s) (ms_subject_by_hash st)\<rparr>))"

definition get_subject :: "memory_store \<Rightarrow> string \<Rightarrow> subject option" where
  "get_subject st sid = dget (ms_subjects st) sid"

text \<open>The dictionary of the found ones; its order is that of a set, and no caller reads it.\<close>

definition get_subjects :: "memory_store \<Rightarrow> string list \<Rightarrow> (string, subject) dict" where
  "get_subjects st sids = List.map_filter (\<lambda>sid. map_option (Pair sid) (dget (ms_subjects st) sid)) (remdups sids)"

section \<open>Audit rows\<close>

definition audit_tail_hash :: "memory_store \<Rightarrow> string option" where
  "audit_tail_hash st = (if ms_audit st = [] then None else Some (aw_row_hash (last (ms_audit st))))"

fun number_rows :: "nat \<Rightarrow> audit_row list \<Rightarrow> audit_row list" where
  "number_rows n [] = []"
| "number_rows n (r # rs) = r\<lparr>aw_id := n\<rparr> # number_rows (Suc n) rs"

definition append_audit_batch :: "audit_row list \<Rightarrow> memory_store \<Rightarrow> memory_store" where
  "append_audit_batch rows st =
     st\<lparr>ms_audit := ms_audit st @ number_rows (length (ms_audit st) + 1) rows\<rparr>"

definition iter_audit_rows :: "memory_store \<Rightarrow> audit_row list" where
  "iter_audit_rows st = ms_audit st"

definition find_audit_rows ::
  "memory_store \<Rightarrow> string option \<Rightarrow> string option \<Rightarrow> int option \<Rightarrow> audit_row list" where
  "find_audit_rows st act jti limit = (let
     matches = filter (\<lambda>row. (act = None \<or> Some (ev_action row) = act) \<and> (jti = None \<or> ev_jti row = jti))
       (ms_audit st)
   in case limit of None \<Rightarrow> matches | Some n \<Rightarrow> slice_to (rev matches) n)"

definition count_audit_rows :: "memory_store \<Rightarrow> nat" where
  "count_audit_rows st = length (ms_audit st)"

section \<open>Approvals\<close>

definition put_approval :: "pending_approval \<Rightarrow> memory_store \<Rightarrow> memory_store" where
  "put_approval a st = st\<lparr>ms_approvals := dset (pa_approval_id a) a (ms_approvals st)\<rparr>"

definition get_approval :: "memory_store \<Rightarrow> string \<Rightarrow> pending_approval option" where
  "get_approval st aid = dget (ms_approvals st) aid"

definition update_approval :: "pending_approval \<Rightarrow> unit mem_prog" where
  "update_approval a st = (if dget (ms_approvals st) (pa_approval_id a) = None then (Inl StorageError, st)
     else (Inr (), st\<lparr>ms_approvals := dset (pa_approval_id a) a (ms_approvals st)\<rparr>))"

definition list_approvals :: "memory_store \<Rightarrow> string option \<Rightarrow> pending_approval list" where
  "list_approvals st status = (let found = map snd (ms_approvals st);
     found' = (case status of None \<Rightarrow> found | Some s \<Rightarrow> filter (\<lambda>a. pa_status a = s) found)
   in sort_desc_by pa_created_at found')"

section \<open>Actions\<close>

definition put_action :: "action_record \<Rightarrow> unit mem_prog" where
  "put_action a st = (if dget (ms_actions st) (ar_action_id a) \<noteq> None then (Inl StorageError, st)
     else (Inr (), st\<lparr>ms_actions := dset (ar_action_id a) a (ms_actions st),
        ms_actions_by_jti := dset (ar_jti a) (dget_list (ms_actions_by_jti st) (ar_jti a) @ [ar_action_id a])
          (ms_actions_by_jti st)\<rparr>))"

definition close_action :: "string \<Rightarrow> completion_state \<Rightarrow> instant \<Rightarrow> string option \<Rightarrow> memory_store
    \<Rightarrow> action_record option \<times> memory_store" where
  "close_action aid state finished_at failure_reason st = (case dget (ms_actions st) aid of
     None \<Rightarrow> (None, st)
   | Some a \<Rightarrow> let a' = a\<lparr>ar_finished_at := Some finished_at, ar_state := Some state,
                       ar_failure_reason := failure_reason\<rparr>
       in (Some a', st\<lparr>ms_actions := dset aid a' (ms_actions st)\<rparr>))"

definition get_action :: "memory_store \<Rightarrow> string \<Rightarrow> action_record option" where
  "get_action st aid = dget (ms_actions st) aid"

definition questionable :: "action_record \<Rightarrow> bool" where
  "questionable a \<longleftrightarrow> is_open_action a \<or> ar_state a \<noteq> Some CLEAN"

definition actions_for_review :: "memory_store \<Rightarrow> string list \<Rightarrow> action_record list" where
  "actions_for_review st jtis = sort_key ar_started_at
     (filter questionable (List.map_filter (dget (ms_actions st))
        (concat (map (dget_list (ms_actions_by_jti st)) jtis))))"

section \<open>Reviews\<close>

definition put_review :: "action_review \<Rightarrow> memory_store \<Rightarrow> memory_store" where
  "put_review r st = st\<lparr>ms_reviews := dset (av_review_id r) r (ms_reviews st)\<rparr>"

definition get_review :: "memory_store \<Rightarrow> string \<Rightarrow> action_review option" where
  "get_review st rid = dget (ms_reviews st) rid"

definition update_review :: "action_review \<Rightarrow> unit mem_prog" where
  "update_review r st = (if dget (ms_reviews st) (av_review_id r) = None then (Inl StorageError, st)
     else (Inr (), st\<lparr>ms_reviews := dset (av_review_id r) r (ms_reviews st)\<rparr>))"

definition list_reviews :: "memory_store \<Rightarrow> bool option \<Rightarrow> action_review list" where
  "list_reviews st reviewed = (let found = map snd (ms_reviews st);
     found' = (case reviewed of None \<Rightarrow> found | Some b \<Rightarrow> filter (\<lambda>r. av_reviewed r = b) found)
   in sort_desc_by av_revoked_at found')"

definition close_store :: "memory_store \<Rightarrow> memory_store" where
  "close_store st = st\<lparr>ms_closed := True\<rparr>"

section \<open>The contracts hold\<close>

lemma finite_mem_edges: "finite (mem_edges st)"
proof -
  have "mem_edges st \<subseteq> fst ` set (ms_edges st) \<times> \<Union> (set ` snd ` set (ms_edges st))"
  proof
    fix x assume "x \<in> mem_edges st"
    then obtain p c where x: "x = (p, c)" and c: "c \<in> set (dget_list (ms_edges st) p)"
      by (auto simp: mem_edges_def)
    then obtain cs where "dget (ms_edges st) p = Some cs" "c \<in> set cs"
      by (cases "dget (ms_edges st) p") (auto simp: dget_list_def)
    with x show "x \<in> fst ` set (ms_edges st) \<times> \<Union> (set ` snd ` set (ms_edges st))"
      by (force dest: map_of_SomeD)
  qed
  then show ?thesis by (rule finite_subset) auto
qed

lemma mem_edges_add: "mem_edges (add_edge p c st) = insert (p, c) (mem_edges st)"
  by (auto simp: mem_edges_def add_edge_def dget_list_def Let_def split: if_splits)

lemma mem_revoked_update [simp]:
  "mem_revoked (st\<lparr>ms_revoked := dset j rv (ms_revoked st)\<rparr>) = insert j (mem_revoked st)"
  by (auto simp: mem_revoked_def)

lemma revoke_many_spec:
  "mem_revoked (snd (revoke_many x js st)) = mem_revoked st \<union> set js \<and>
   set (fst (revoke_many x js st)) = set js - mem_revoked st \<and>
   (\<exists>rv. snd (revoke_many x js st) = st\<lparr>ms_revoked := rv\<rparr>)"
proof (induction x js st rule: revoke_many.induct)
  case (1 r reason now st)
  show ?case by (auto intro: exI [of _ "ms_revoked st"])
next
  case (2 r reason now j js st)
  show ?case
  proof (cases "dget (ms_revoked st) j \<noteq> None")
    case True
    then have "j \<in> mem_revoked st" by (simp add: mem_revoked_def)
    then show ?thesis using 2(1) True by auto
  next
    case False
    let ?st' = "st\<lparr>ms_revoked := dset j \<lparr>rv_jti = j, rv_revoked_at = now, rv_root = r, rv_reason = reason\<rparr>
        (ms_revoked st)\<rparr>"
    obtain newly st'' where run: "revoke_many (r, reason, now) js ?st' = (newly, st'')" by fastforce
    from 2(2) [OF False refl] have
      "mem_revoked st'' = insert j (mem_revoked st) \<union> set js"
      "set newly = set js - insert j (mem_revoked st)" "\<exists>rv. st'' = ?st'\<lparr>ms_revoked := rv\<rparr>"
      by (simp_all add: run)
    moreover have "j \<notin> mem_revoked st" using False by (simp add: mem_revoked_def)
    moreover have "revoke_many (r, reason, now) (j # js) st = (j # newly, st'')"
      using False by (simp add: run)
    ultimately show ?thesis by auto
  qed
qed

lemma mem_edges_revoke_many: "mem_edges (snd (revoke_many x js st)) = mem_edges st"
proof -
  obtain rv where "snd (revoke_many x js st) = st\<lparr>ms_revoked := rv\<rparr>" using revoke_many_spec by blast
  then show ?thesis by (simp add: mem_edges_def)
qed

interpretation mem_store: revocation_store children_of mem_edges mem_revoked add_edge revoke_many
proof
  fix st xs show "set (children_of st xs) = mem_edges st `` set xs"
    by (auto simp: children_of_def mem_edges_def)
next
  fix p c st show "mem_revoked (add_edge p c st) = mem_revoked st"
    by (simp add: mem_revoked_def add_edge_def Let_def)
qed (simp_all add: finite_mem_edges mem_edges_add revoke_many_spec mem_edges_revoke_many)

section \<open>The store invariant\<close>

text \<open>
  Dictionaries hold a key once and each record under its own id; the index of actions by token
  lists exactly the actions of that token, each once. Apart from that, \<open>subjects_ok\<close>: the index of subjects
  points at existing subjects (kept as long as \<open>uuid4\<close> returns no subject id twice).
\<close>

definition actions_ok :: "(string, action_record) dict \<Rightarrow> (string, string list) dict \<Rightarrow> bool" where
  "actions_ok acts ix \<longleftrightarrow> wf_dict acts \<and> (\<forall>i a. dget acts i = Some a \<longrightarrow> ar_action_id a = i)
     \<and> (\<forall>j i. i \<in> set (dget_list ix j) \<longleftrightarrow> (\<exists>a. dget acts i = Some a \<and> ar_jti a = j))
     \<and> (\<forall>j. distinct (dget_list ix j))"

definition subjects_ok :: "(string, subject) dict \<Rightarrow> (string \<times> string, string) dict \<Rightarrow> bool" where
  "subjects_ok subs ix \<longleftrightarrow> (\<forall>h k sid. dget ix (h, k) = Some sid \<longrightarrow>
     (\<exists>s. dget subs sid = Some s \<and> sj_subject_id s = sid \<and> sj_identifier_hash s = h \<and> sj_kind s = k))"

definition mem_ok :: "memory_store \<Rightarrow> bool" where
  "mem_ok st \<longleftrightarrow> wf_dict (ms_approvals st) \<and> wf_dict (ms_reviews st)
     \<and> (\<forall>j m. dget (ms_tokens st) j = Some m \<longrightarrow> tm_jti m = j)
     \<and> (\<forall>i a. dget (ms_approvals st) i = Some a \<longrightarrow> pa_approval_id a = i)
     \<and> (\<forall>i r. dget (ms_reviews st) i = Some r \<longrightarrow> av_review_id r = i)
     \<and> actions_ok (ms_actions st) (ms_actions_by_jti st)"

lemma mem_ok_empty [simp]: "mem_ok empty_store"
  by (simp add: mem_ok_def actions_ok_def empty_store_def dget_list_def)

lemma dget_list_dset [simp]: "dget_list (dset k v d) k' = (if k' = k then v else dget_list d k')"
  by (simp add: dget_list_def)

lemma mem_ok_put_token: "mem_ok st \<Longrightarrow> put_token m st = (r, st') \<Longrightarrow> mem_ok st'"
  by (auto simp: mem_ok_def put_token_def split: if_splits)

lemma mem_ok_frame [simp]:
  "mem_ok (add_edge p c st) = mem_ok st" "mem_ok (append_audit_batch rows st) = mem_ok st"
  "mem_ok (close_store st) = mem_ok st" "mem_ok (st\<lparr>ms_revoked := rv\<rparr>) = mem_ok st"
  by (simp_all add: mem_ok_def add_edge_def append_audit_batch_def close_store_def Let_def)

lemma mem_ok_revoke_many: "mem_ok (snd (revoke_many x js st)) = mem_ok st"
  using revoke_many_spec [of x js st] by auto

lemma mem_ok_put_approval: "mem_ok st \<Longrightarrow> mem_ok (put_approval a st)"
  by (auto simp: mem_ok_def put_approval_def)

lemma mem_ok_update_approval: "mem_ok st \<Longrightarrow> update_approval a st = (r, st') \<Longrightarrow> mem_ok st'"
  by (auto simp: mem_ok_def update_approval_def split: if_splits)

lemma mem_ok_put_review: "mem_ok st \<Longrightarrow> mem_ok (put_review a st)"
  by (auto simp: mem_ok_def put_review_def)

lemma mem_ok_update_review: "mem_ok st \<Longrightarrow> update_review a st = (r, st') \<Longrightarrow> mem_ok st'"
  by (auto simp: mem_ok_def update_review_def split: if_splits)

lemma actions_ok_put:
  assumes "actions_ok acts ix" and "dget acts (ar_action_id a) = None"
  shows "actions_ok (dset (ar_action_id a) a acts) (dset (ar_jti a) (dget_list ix (ar_jti a) @ [ar_action_id a]) ix)"
  using assms unfolding actions_ok_def by (intro conjI allI) (auto split: if_splits)

lemma actions_ok_close:
  assumes "actions_ok acts ix" and "dget acts i = Some a" and "ar_jti a' = ar_jti a" and "ar_action_id a' = i"
  shows "actions_ok (dset i a' acts) ix"
  using assms unfolding actions_ok_def by (intro conjI allI) (auto split: if_splits)

lemma mem_ok_put_action: "mem_ok st \<Longrightarrow> put_action a st = (r, st') \<Longrightarrow> mem_ok st'"
  by (auto simp: mem_ok_def put_action_def intro: actions_ok_put split: if_splits)

lemma mem_ok_close_action: "mem_ok st \<Longrightarrow> mem_ok (snd (close_action i s f r st))"
proof (cases "dget (ms_actions st) i")
  case (Some a)
  assume ok: "mem_ok st"
  then have "ar_action_id a = i" using Some by (simp add: mem_ok_def actions_ok_def)
  then show ?thesis using ok Some
    by (simp add: mem_ok_def close_action_def Let_def actions_ok_close [OF _ Some])
qed (simp add: close_action_def)

lemma subjects_ok_put:
  assumes "subjects_ok subs ix" and "dget subs (sj_subject_id s) = None"
  shows "subjects_ok (dset (sj_subject_id s) s subs) (dset (sj_identifier_hash s, sj_kind s) (sj_subject_id s) ix)"
  unfolding subjects_ok_def
proof (intro allI impI)
  fix h k sid
  assume a: "dget (dset (sj_identifier_hash s, sj_kind s) (sj_subject_id s) ix) (h, k) = Some sid"
  show "\<exists>s'. dget (dset (sj_subject_id s) s subs) sid = Some s' \<and> sj_subject_id s' = sid
      \<and> sj_identifier_hash s' = h \<and> sj_kind s' = k"
  proof (cases "(h, k) = (sj_identifier_hash s, sj_kind s)")
    case False
    then have "dget ix (h, k) = Some sid" using a by (auto split: if_splits)
    then obtain s' where s': "dget subs sid = Some s'" "sj_subject_id s' = sid \<and> sj_identifier_hash s' = h \<and> sj_kind s' = k"
      using assms(1) unfolding subjects_ok_def by blast
    moreover have "sid \<noteq> sj_subject_id s" using s' assms(2) by auto
    ultimately show ?thesis by simp
  qed (use a in auto)
qed

lemma mem_ok_subject: "get_or_create_subject uuid now h kind label st = (r, st') \<Longrightarrow> mem_ok st' = mem_ok st"
  by (auto simp: mem_ok_def get_or_create_subject_def Let_def split: option.splits)

lemma subjects_ok_resolve:
  assumes "subjects_ok (ms_subjects st) (ms_subject_by_hash st)"
    and "dget (ms_subjects st) (kind @ '':'' @ uuid) = None"
    and "get_or_create_subject uuid now h kind label st = (r, st')"
  shows "subjects_ok (ms_subjects st') (ms_subject_by_hash st')"
proof -
  let ?s = "\<lparr>sj_subject_id = kind @ '':'' @ uuid, sj_identifier_hash = h, sj_kind = kind,
      sj_display_label = label, sj_created_at = now\<rparr>"
  from subjects_ok_put [OF assms(1), of ?s] assms show ?thesis
    by (auto simp: get_or_create_subject_def Let_def split: option.splits)
qed

section \<open>Properties\<close>

text \<open>C27: the walk over delegations. On any edge set, cycles and shared descendants included, it
  ends; it returns the token and every token delegated from it exactly once, the token first, one
  level after the other (level \<open>i\<close> holds the tokens at distance exactly \<open>i\<close>).\<close>

theorem descendants_level_order:
  "\<exists>order levels. descendants_breadth_first st j = Some order \<and> distinct order
    \<and> set order = (mem_edges st)\<^sup>* `` {j} \<and> order = concat levels \<and> hd levels = [j]
    \<and> map set levels = map (layer (mem_edges st) j) [0..<length levels]"
proof -
  obtain order levels where "bfs (children_of st) j = Some order" "distinct order"
    "set order = (mem_edges st)\<^sup>* `` {j}" "order = concat levels" "hd levels = [j]"
    "\<forall>i < length levels. set (levels ! i) = layer (mem_edges st) j i"
    using mem_store.walk.bfs_levels [of st j] by blast
  moreover from this(6) have "map set levels = map (layer (mem_edges st) j) [0..<length levels]"
    by (intro nth_equalityI) simp_all
  ultimately show ?thesis unfolding descendants_breadth_first_def by blast
qed

text \<open>A bulk revocation is all-or-nothing and idempotent. Afterwards exactly the listed tokens
  and the ones revoked before are revoked, the report is the listed ones that were live, each once
  and in order, an earlier revocation keeps its record, and nothing else in the store changes.\<close>

theorem revoke_many_exact:
  "case revoke_many (rj, reason, now) js st of (newly, st') \<Rightarrow>
     mem_revoked st' = mem_revoked st \<union> set js
     \<and> newly = rev (remdups (rev (filter (\<lambda>j. j \<notin> mem_revoked st) js)))
     \<and> map_of (ms_revoked st) \<subseteq>\<^sub>m map_of (ms_revoked st')
     \<and> st'\<lparr>ms_revoked := []\<rparr> = st\<lparr>ms_revoked := []\<rparr>"
proof -
  have "fst (revoke_many (rj, reason, now) js st) = rev (remdups (rev (filter (\<lambda>j. j \<notin> mem_revoked st) js)))
    \<and> (\<forall>j \<in> mem_revoked st. dget (ms_revoked (snd (revoke_many (rj, reason, now) js st))) j = dget (ms_revoked st) j)"
  proof (induction js arbitrary: st)
    case (Cons j js)
    show ?case
    proof (cases "j \<in> mem_revoked st")
      case True
      then have "revoke_many (rj, reason, now) (j # js) st = revoke_many (rj, reason, now) js st"
        by (simp add: mem_revoked_def)
      then show ?thesis using Cons [of st] True by simp
    next
      case False
      let ?st = "st\<lparr>ms_revoked := dset j \<lparr>rv_jti = j, rv_revoked_at = now, rv_root = rj, rv_reason = reason\<rparr>
        (ms_revoked st)\<rparr>"
      obtain newly st'' where run: "revoke_many (rj, reason, now) js ?st = (newly, st'')" by fastforce
      have "revoke_many (rj, reason, now) (j # js) st = (j # newly, st'')"
        using False by (simp add: run mem_revoked_def)
      moreover have "filter (\<lambda>x. x \<notin> mem_revoked ?st) js = filter (\<lambda>x. x \<noteq> j) (filter (\<lambda>x. x \<notin> mem_revoked st) js)"
        by (auto intro: filter_cong)
      moreover have "rev (remdups (rev (j # xs))) = j # rev (remdups (rev (filter (\<lambda>x. x \<noteq> j) xs)))" for xs
        by (induction xs rule: rev_induct) auto
      ultimately show ?thesis using Cons [of ?st] False by (auto simp: run mem_revoked_def)
    qed
  qed simp
  moreover from this have "map_of (ms_revoked st) \<subseteq>\<^sub>m map_of (ms_revoked (snd (revoke_many (rj, reason, now) js st)))"
    by (simp add: map_le_def mem_revoked_def dom_def)
  ultimately show ?thesis using revoke_many_spec [of "(rj, reason, now)" js st] by (auto split: prod.splits)
qed

lemma actions_for_review_set:
  assumes "mem_ok st"
  shows "set (actions_for_review st jtis) =
      {a. (\<exists>i. dget (ms_actions st) i = Some a) \<and> ar_jti a \<in> set jtis \<and> questionable a}"
proof -
  have ix: "i \<in> set (dget_list (ms_actions_by_jti st) j) \<longleftrightarrow> (\<exists>a. dget (ms_actions st) i = Some a \<and> ar_jti a = j)" for i j
    using assms by (auto simp: mem_ok_def actions_ok_def)
  have "set (List.map_filter (dget (ms_actions st)) xs) = {a. \<exists>i \<in> set xs. dget (ms_actions st) i = Some a}" for xs
    by (induction xs) (auto simp: List.map_filter_simps split: option.splits)
  then show ?thesis by (fastforce simp: actions_for_review_def ix)
qed

lemma distinct_map_filter_ids:
  assumes "distinct xs" and "\<And>i a. dget acts i = Some a \<Longrightarrow> ar_action_id a = i"
  shows "distinct (map ar_action_id (List.map_filter (dget acts) xs))"
proof -
  have "set (map ar_action_id (List.map_filter (dget acts) ys)) \<subseteq> set ys" for ys
    by (induction ys) (auto simp: List.map_filter_simps assms(2) split: option.splits)
  then show ?thesis using assms(1)
    by (induction xs) (auto simp: List.map_filter_simps assms(2) split: option.splits)
qed

lemma actions_for_review_distinct:
  assumes ok: "mem_ok st" and js: "distinct jtis"
  shows "distinct (map ar_action_id (actions_for_review st jtis))"
proof -
  let ?ix = "dget_list (ms_actions_by_jti st)" and ?found = "List.map_filter (dget (ms_actions st))"
  have acts: "actions_ok (ms_actions st) (ms_actions_by_jti st)" using ok by (simp add: mem_ok_def)
  have "set (?ix j) \<inter> set (?ix j') = {}" if "j \<noteq> j'" for j j' using acts that by (fastforce simp: actions_ok_def)
  then have "distinct (concat (map ?ix jtis))"
    using js acts by (induction jtis) (auto simp: actions_ok_def)
  then have "distinct (map ar_action_id (?found (concat (map ?ix jtis))))"
    by (rule distinct_map_filter_ids) (use acts in \<open>simp add: actions_ok_def\<close>)
  then have "distinct (map ar_action_id (filter questionable (?found (concat (map ?ix jtis)))))"
    by (simp add: distinct_map_filter)
  moreover have "mset (map ar_action_id (actions_for_review st jtis)) = mset (map ar_action_id (filter questionable (?found (concat (map ?ix jtis)))))"
    by (simp add: actions_for_review_def)
  ultimately show ?thesis by (metis mset_eq_imp_distinct_iff)
qed

text \<open>What a revocation reports as in flight. In a consistent store the actions offered for
  review are exactly those of the listed tokens that were not cleanly completed (still open, or
  closed otherwise than CLEAN), in the order they started.\<close>

theorem actions_for_review_exact:
  assumes "mem_ok st"
  shows "set (actions_for_review st jtis) =
      {a. (\<exists>i. dget (ms_actions st) i = Some a) \<and> ar_jti a \<in> set jtis \<and> questionable a}
    \<and> sorted (map ar_started_at (actions_for_review st jtis))"
  using actions_for_review_set [OF assms] by (simp add: actions_for_review_def)

definition example_action :: "string \<Rightarrow> string \<Rightarrow> instant \<Rightarrow> completion_state option \<Rightarrow> action_record" where
  "example_action i j began state = \<lparr>ar_action_id = i, ar_jti = j, ar_subject_id = ''agent:1'', ar_name = ''pay'',
     ar_scope = ''pay'', ar_started_at = began, ar_finished_at = map_option (\<lambda>_. began + 1) state, ar_state = state,
     ar_failure_reason = None, ar_reversibility = IRREVERSIBLE\<rparr>"

text \<open>Two actions of token \<open>j\<close>, one open and one completed, and an open one of another token.\<close>

definition example_store :: memory_store where
  "example_store = fold (\<lambda>a st. snd (put_action a st))
     [example_action ''a'' ''j'' 3 None, example_action ''b'' ''j'' 1 (Some CLEAN), example_action ''c'' ''k'' 2 None]
     empty_store"

lemma mem_ok_put_action_snd: "mem_ok st \<Longrightarrow> mem_ok (snd (put_action a st))"
  by (cases "put_action a st") (auto dest: mem_ok_put_action)

lemma mem_ok_example: "mem_ok example_store"
  by (simp add: example_store_def mem_ok_put_action_snd)

lemma example_store_actions:
  "ms_actions example_store = [(''a'', example_action ''a'' ''j'' 3 None),
      (''b'', example_action ''b'' ''j'' 1 (Some CLEAN)), (''c'', example_action ''c'' ''k'' 2 None)]"
  "ms_edges example_store = []" "ms_reviews example_store = []"
  by (simp_all add: example_store_def put_action_def empty_store_def) (simp add: example_action_def)

lemma example_store_lookup:
  "(\<exists>i. dget (ms_actions example_store) i = Some a) \<longleftrightarrow> a \<in> {example_action ''a'' ''j'' 3 None,
      example_action ''b'' ''j'' 1 (Some CLEAN), example_action ''c'' ''k'' 2 None}"
  by (subst wf_dict_values [symmetric]) (auto simp: wf_dict_def example_store_actions)

lemma example_action_fields:
  "questionable (example_action i j n None)" "\<not> questionable (example_action i j n (Some CLEAN))"
  "ar_jti (example_action i j n s) = j" "ar_action_id (example_action i j n s) = i"
  by (simp_all add: example_action_def questionable_def is_open_action_def)

theorem actions_for_review_exact_witness:
  "set (actions_for_review example_store [''j'']) = {example_action ''a'' ''j'' 3 None}"
proof -
  have "{a. a \<in> {example_action ''a'' ''j'' 3 None, example_action ''b'' ''j'' 1 (Some CLEAN),
      example_action ''c'' ''k'' 2 None} \<and> ar_jti a \<in> set [''j''] \<and> questionable a} = {example_action ''a'' ''j'' 3 None}"
    using example_action_fields by (intro set_eqI iffI; elim CollectE conjE insertE) simp_all
  then show ?thesis
    using actions_for_review_exact [OF mem_ok_example, of "[''j'']"] unfolding example_store_lookup by argo
qed

text \<open>One identity per person. Resolving the same identifier hash and kind again, with whatever
  UUID, time or label, returns the subject of the first resolution and leaves the store as it was.\<close>

theorem subject_resolution_converges:
  assumes "get_or_create_subject uuid now h kind label st = (Inr s, st')"
    and "subjects_ok (ms_subjects st) (ms_subject_by_hash st)"
  shows "get_or_create_subject uuid' now' h kind label' st' = (Inr s, st')
    \<and> sj_identifier_hash s = h \<and> sj_kind s = kind"
proof (cases "dget (ms_subject_by_hash st) (h, kind)")
  case None
  then have s: "s = \<lparr>sj_subject_id = kind @ '':'' @ uuid, sj_identifier_hash = h, sj_kind = kind,
      sj_display_label = label, sj_created_at = now\<rparr>"
    "st' = st\<lparr>ms_subjects := dset (sj_subject_id s) s (ms_subjects st),
       ms_subject_by_hash := dset (h, kind) (sj_subject_id s) (ms_subject_by_hash st)\<rparr>"
    using assms(1) by (auto simp: get_or_create_subject_def Let_def)
  then show ?thesis by (simp add: get_or_create_subject_def)
next
  case (Some sid)
  then obtain s0 where "dget (ms_subjects st) sid = Some s0" "sj_identifier_hash s0 = h" "sj_kind s0 = kind"
    using assms(2) unfolding subjects_ok_def by blast
  then show ?thesis using Some assms(1) by (simp add: get_or_create_subject_def)
qed

theorem subject_resolution_converges_witness:
  "\<exists>s st'. get_or_create_subject ''u1'' 5 ''hash'' ''human'' ''alice'' empty_store = (Inr s, st')
     \<and> get_or_create_subject ''u2'' 9 ''hash'' ''human'' ''Alice'' st' = (Inr s, st')"
proof -
  obtain s st' where run: "get_or_create_subject ''u1'' 5 ''hash'' ''human'' ''alice'' empty_store = (Inr s, st')"
    by (simp add: get_or_create_subject_def empty_store_def Let_def)
  moreover have "subjects_ok (ms_subjects empty_store) (ms_subject_by_hash empty_store)"
    by (simp add: subjects_ok_def empty_store_def)
  ultimately show ?thesis using subject_resolution_converges [OF run] by blast
qed

end
