(* ===== verification/Hash_Chain.thy ===== *)
theory Hash_Chain
  imports Py_Json
begin

text \<open>
  Hash chains, as both audit logs keep them: each row stores the hash of its predecessor and the
  hash of that followed by its own canonical text. The locale is the interface between a log and
  its verifier; what it assumes of the rows is that the canonical text determines the content and
  is not empty at the front of a digest. Collision resistance is not assumed of the hash function
  as a whole (it is false of every function into digests): the lemmas ask that the texts actually
  hashed in the chains at hand do not collide.
\<close>

definition digests :: "(string \<Rightarrow> string) \<Rightarrow> nat \<Rightarrow> bool" where
  "digests H n \<longleftrightarrow> (\<forall>s. length (H s) = n)"

locale hash_chain =
  fixes H :: "string \<Rightarrow> string"
    and canon :: "'r \<Rightarrow> string"
    and prev_of :: "'r \<Rightarrow> string"
    and hash_of :: "'r \<Rightarrow> string"
    and content :: "'r \<Rightarrow> 'c"
    and genesis :: string
  assumes canon_content: "canon r = canon r' \<longleftrightarrow> content r = content r'"
begin

definition input :: "'r \<Rightarrow> string" where
  "input r = prev_of r @ canon r"

fun linked :: "string \<Rightarrow> 'r list \<Rightarrow> bool" where
  "linked p [] \<longleftrightarrow> True"
| "linked p (r # rs) \<longleftrightarrow> prev_of r = p \<and> hash_of r = H (p @ canon r) \<and> linked (hash_of r) rs"

definition tail_hash :: "string \<Rightarrow> 'r list \<Rightarrow> string" where
  "tail_hash p rs = (if rs = [] then p else hash_of (last rs))"

lemma tail_hash_simps [simp]:
  "tail_hash p [] = p" "tail_hash p (rs @ [r]) = hash_of r" "tail_hash p (r # rs) = tail_hash (hash_of r) rs"
  by (auto simp: tail_hash_def)

lemma tail_hash_append [simp]: "tail_hash p (rs @ rs') = tail_hash (tail_hash p rs) rs'"
  by (induction rs arbitrary: p) auto

lemma linked_append: "linked p (rs @ rs') \<longleftrightarrow> linked p rs \<and> linked (tail_hash p rs) rs'"
  by (induction rs arbitrary: p) auto

lemma linked_input: "linked p rs \<Longrightarrow> r \<in> set rs \<Longrightarrow> hash_of r = H (input r)"
  by (induction rs arbitrary: p) (auto simp: input_def)

lemma tail_length:
  "digests H n \<Longrightarrow> length p = n \<Longrightarrow> linked p rs \<Longrightarrow> length (tail_hash p rs) = n"
  by (induction rs arbitrary: p) (auto simp: digests_def)

text \<open>The tail hash commits to the whole history.\<close>

lemma tail_determines:
  assumes "digests H n" and "length genesis = n"
    and "inj_on H (input ` (set rs \<union> set rs'))" and "genesis \<notin> H ` input ` (set rs \<union> set rs')"
    and "linked genesis rs" and "linked genesis rs'" and "tail_hash genesis rs = tail_hash genesis rs'"
  shows "map content rs = map content rs'"
  using assms(3-)
proof (induction rs arbitrary: rs' rule: rev_induct)
  case Nil
  show ?case
  proof (cases rs' rule: rev_cases)
    case (snoc ys y)
    then have "genesis = H (input y)" using Nil linked_input by (metis tail_hash_simps(1,2) in_set_conv_decomp)
    then show ?thesis using Nil(2) snoc by auto
  qed simp
next
  case (snoc r rs)
  show ?case
  proof (cases rs' rule: rev_cases)
    case Nil
    then have "genesis = H (input r)" using snoc.prems linked_input [of genesis "rs @ [r]" r] by simp
    then show ?thesis using snoc.prems(2) by auto
  next
    case (snoc ys y)
    have l: "linked genesis rs" "linked genesis ys" "prev_of r = tail_hash genesis rs"
      "prev_of y = tail_hash genesis ys"
      using snoc.prems(3,4) snoc by (simp_all add: linked_append)
    have "H (input r) = H (input y)"
      using snoc.prems(3,4,5) snoc linked_input [of genesis "rs @ [r]" r]
        linked_input [of genesis "ys @ [y]" y] by simp
    moreover have "input r \<in> input ` (set (rs @ [r]) \<union> set rs')" "input y \<in> input ` (set (rs @ [r]) \<union> set rs')"
      using snoc by auto
    ultimately have eq: "input r = input y" using inj_onD [OF snoc.prems(1)] by blast
    have "length (prev_of r) = length (prev_of y)"
      using l tail_length [OF assms(1,2)] by simp
    then have "prev_of r = prev_of y" "canon r = canon y" using eq by (auto simp: input_def)
    moreover have "map content rs = map content ys"
      by (rule snoc.IH) (use l snoc.prems(1,2) snoc calculation in \<open>auto intro: inj_on_subset\<close>)
    ultimately show ?thesis using canon_content snoc by simp
  qed
qed

text \<open>A row edited in place, with its stored hashes left alone, breaks the chain.\<close>

lemma edit_detected:
  assumes "digests H n" and "length genesis = n" and "inj_on H {input r, input r'}"
    and "linked genesis (a @ r # b)" and "content r' \<noteq> content r" and "hash_of r' = hash_of r"
  shows "\<not> linked genesis (a @ r' # b')"
proof
  assume "linked genesis (a @ r' # b')"
  then have p': "prev_of r' = tail_hash genesis a" "hash_of r' = H (input r')"
    by (simp_all add: linked_append input_def)
  have p: "prev_of r = tail_hash genesis a" "hash_of r = H (input r)"
    using assms(4) by (simp_all add: linked_append input_def)
  have "H (input r') = H (input r)" using p p' assms(6) by simp
  then have "input r' = input r" using inj_onD [OF assms(3)] by blast
  then have "canon r' = canon r" using p p' by (simp add: input_def)
  then show False using assms(5) canon_content by blast
qed

text \<open>A run of rows gone out of the middle breaks the chain at the next row.\<close>

lemma cut_detected:
  assumes "digests H n" and "length genesis = n"
    and "inj_on H (input ` (set (a @ gone)))" and "genesis \<notin> H ` input ` set (a @ gone)"
    and "linked genesis (a @ gone @ r # b)" and "gone \<noteq> []"
  shows "\<not> linked genesis (a @ r # b')"
proof
  assume "linked genesis (a @ r # b')"
  then have l: "linked genesis a" "prev_of r = tail_hash genesis a" by (simp_all add: linked_append)
  have "linked genesis ((a @ gone) @ r # b)" using assms(5) by simp
  then have l': "linked genesis (a @ gone)" "prev_of r = tail_hash genesis (a @ gone)"
    by (simp_all only: linked_append linked.simps)
  have "tail_hash genesis (a @ gone) = tail_hash genesis a" using l l' by metis
  note l'(1) l(1) this
  moreover have "set (a @ gone) \<union> set a = set (a @ gone)" by auto
  ultimately have "map content (a @ gone) = map content a"
    using tail_determines [OF assms(1,2), of "a @ gone" a] assms(3,4) by metis
  then have "length (a @ gone) = length a" by (metis length_map)
  then show False using assms(6) by simp
qed

text \<open>Two neighbours swapped break it as well.\<close>

lemma swap_detected:
  assumes "digests H n" and "length genesis = n"
    and "inj_on H (input ` (set (a @ [r])))" and "genesis \<notin> H ` input ` set (a @ [r])"
    and "linked genesis (a @ r # r' # b)"
  shows "\<not> linked genesis (a @ r' # r # b')"
  using cut_detected [OF assms(1,2,3,4), of r' b "r # b'"] assms(5) by simp

text \<open>What no chain of this kind can show: that its newest rows are missing.\<close>

lemma truncation_unseen: "linked genesis (rs @ newest) \<Longrightarrow> linked genesis rs"
  by (simp add: linked_append)

end

end
