(* ===== verification/Agp_Audit.thy ===== *)
theory Agp_Audit
  imports Memory_Storage Hash_Chain
begin

text \<open>
  \<open>agperms/_audit.py\<close>: the append-only audit log. The writer (\<open>log_batch\<close>) works on the pair of the
  cached tail and the store; the verifier (\<open>verify_integrity\<close>) walks the rows. Latencies are whole
  microseconds.
\<close>

section \<open>Canonical text and row hashes\<close>

definition GENESIS_HASH :: string where
  "GENESIS_HASH = replicate 64 CHR ''0''"

definition blank_event :: audit_event where
  "blank_event = \<lparr>ev_action = '''', ev_actor_id = None, ev_actor_hash = None, ev_jti = None,
     ev_parent_jti = None, ev_root_jti = None, ev_scopes = None, ev_denied_scopes = None,
     ev_required_scope = None, ev_decision = None, ev_reason = None, ev_depth = None,
     ev_detail = None, ev_latency_us = None, ev_event_ts = ''''\<rparr>"

definition json_of_strs :: "string list option \<Rightarrow> json" where
  "json_of_strs x = (case x of None \<Rightarrow> JNull | Some xs \<Rightarrow> json_strs xs)"

text \<open>The fields of \<open>_HASHED_FIELDS\<close>, the same that \<open>to_payload\<close> writes; the latency is not one.\<close>

definition event_payload :: "'a audit_event_scheme \<Rightarrow> json" where
  "event_payload r = JObj [
     (''action'', JStr (ev_action r)),
     (''actor_id'', json_of_opt (ev_actor_id r)),
     (''actor_hash'', json_of_opt (ev_actor_hash r)),
     (''jti'', json_of_opt (ev_jti r)),
     (''parent_jti'', json_of_opt (ev_parent_jti r)),
     (''root_jti'', json_of_opt (ev_root_jti r)),
     (''scopes'', json_of_strs (ev_scopes r)),
     (''denied_scopes'', json_of_strs (ev_denied_scopes r)),
     (''required_scope'', json_of_opt (ev_required_scope r)),
     (''decision'', json_of_opt (ev_decision r)),
     (''reason'', json_of_opt (ev_reason r)),
     (''depth'', (case ev_depth r of None \<Rightarrow> JNull | Some d \<Rightarrow> JInt d)),
     (''detail'', (case ev_detail r of None \<Rightarrow> JNull | Some d \<Rightarrow> d)),
     (''event_ts'', JStr (ev_event_ts r))]"

definition canonical_content :: "'a audit_event_scheme \<Rightarrow> string" where
  "canonical_content r = json_dumps (event_payload r)"

definition compute_row_hash :: "env \<Rightarrow> string \<Rightarrow> 'a audit_event_scheme \<Rightarrow> string" where
  "compute_row_hash e prev r = e_sha256 e (prev @ canonical_content r)"

section \<open>Writing\<close>

definition row_of :: "audit_event \<Rightarrow> string \<Rightarrow> string \<Rightarrow> audit_row" where
  "row_of ev prev h = \<lparr>ev_action = ev_action ev, ev_actor_id = ev_actor_id ev,
     ev_actor_hash = ev_actor_hash ev, ev_jti = ev_jti ev, ev_parent_jti = ev_parent_jti ev,
     ev_root_jti = ev_root_jti ev, ev_scopes = ev_scopes ev, ev_denied_scopes = ev_denied_scopes ev,
     ev_required_scope = ev_required_scope ev, ev_decision = ev_decision ev, ev_reason = ev_reason ev,
     ev_depth = ev_depth ev, ev_detail = ev_detail ev, ev_latency_us = ev_latency_us ev,
     ev_event_ts = ev_event_ts ev, aw_prev_hash = prev, aw_row_hash = h, aw_id = 0\<rparr>"

fun chain_rows :: "env \<Rightarrow> string \<Rightarrow> audit_event list \<Rightarrow> audit_row list \<times> string" where
  "chain_rows e prev [] = ([], prev)"
| "chain_rows e prev (ev # evs) = (let row_hash = compute_row_hash e prev ev;
     (rows, tail) = chain_rows e row_hash evs in (row_of ev prev row_hash # rows, tail))"

definition log_batch :: "env \<Rightarrow> audit_event list \<Rightarrow> string option \<times> memory_store
    \<Rightarrow> string option \<times> memory_store" where
  "log_batch e events s = (case s of (cached, st) \<Rightarrow>
     if events = [] then s
     else let
       prev = (case cached of Some t \<Rightarrow> t | None \<Rightarrow> str_or (audit_tail_hash st) GENESIS_HASH);
       (rows, tail) = chain_rows e prev events
     in (Some tail, append_audit_batch rows st))"

definition log_one :: "env \<Rightarrow> audit_event \<Rightarrow> string option \<times> memory_store
    \<Rightarrow> string option \<times> memory_store" where
  "log_one e ev s = log_batch e [ev] s"

section \<open>Verifying\<close>

fun verify_rows :: "env \<Rightarrow> nat \<Rightarrow> string \<Rightarrow> audit_row list \<Rightarrow> integrity_report" where
  "verify_rows e n prev [] = \<lparr>ir_intact = True, ir_rows_checked = n, ir_first_broken_row_id = None,
     ir_detail = ''chain intact across '' @ str_nat n @ '' rows''\<rparr>"
| "verify_rows e n prev (row # rows) =
     (if aw_prev_hash row \<noteq> prev then
        \<lparr>ir_intact = False, ir_rows_checked = n, ir_first_broken_row_id = Some (aw_id row),
          ir_detail = ''row '' @ str_nat (aw_id row) @ '': prev_hash does not match the previous row''
            @ [CHR 0x27] @ ''s row_hash (row deleted, reordered, or prev_hash altered)''\<rparr>
      else if compute_row_hash e prev row \<noteq> aw_row_hash row then
        \<lparr>ir_intact = False, ir_rows_checked = n, ir_first_broken_row_id = Some (aw_id row),
          ir_detail = ''row '' @ str_nat (aw_id row) @ '': content hash mismatch -- a field of this row ''
            @ ''was modified after it was written''\<rparr>
      else verify_rows e (Suc n) (aw_row_hash row) rows)"

definition verify_integrity :: "env \<Rightarrow> memory_store \<Rightarrow> integrity_report" where
  "verify_integrity e st = verify_rows e 0 GENESIS_HASH (iter_audit_rows st)"

section \<open>The rows form a hash chain\<close>

definition row_content :: "audit_row \<Rightarrow> json" where
  "row_content r = sort_keys (event_payload r)"

interpretation agp_chain: hash_chain "e_sha256 e" canonical_content aw_prev_hash aw_row_hash row_content
    GENESIS_HASH for e :: env
proof
  fix r r' :: audit_row
  show "canonical_content r = canonical_content r' \<longleftrightarrow> row_content r = row_content r'"
    unfolding canonical_content_def row_content_def
    by (auto simp: json_dumps_def dest: json_dumps_inj [unfolded json_dumps_def])
qed

lemma verify_rows_intact:
  "ir_intact (verify_rows e n p rows) \<longleftrightarrow> agp_chain.linked e p rows"
  by (induction rows arbitrary: n p) (auto simp: compute_row_hash_def)

lemma verify_rows_broken:
  "agp_chain.linked e p good \<Longrightarrow> \<not> agp_chain.linked e (agp_chain.tail_hash p good) [row] \<Longrightarrow>
   \<not> ir_intact (verify_rows e n p (good @ row # rows))
   \<and> ir_rows_checked (verify_rows e n p (good @ row # rows)) = n + length good
   \<and> ir_first_broken_row_id (verify_rows e n p (good @ row # rows)) = Some (aw_id row)"
  by (induction good arbitrary: n p) (auto simp: compute_row_hash_def)

text \<open>Equal content is equality of every hashed field, of \<open>detail\<close> up to the order of its keys.\<close>

lemma json_of_opt_inj [simp]: "json_of_opt a = json_of_opt b \<longleftrightarrow> a = b"
  by (auto simp: json_of_opt_def split: option.splits)

lemma canonical_row_of [simp]: "canonical_content (row_of ev p h) = canonical_content ev"
  by (simp add: canonical_content_def event_payload_def row_of_def)

lemma canonical_id [simp]: "canonical_content (r\<lparr>aw_id := n\<rparr>) = canonical_content r"
  by (simp add: canonical_content_def event_payload_def)

lemma row_of_simps [simp]:
  "aw_prev_hash (row_of ev p h) = p" "aw_row_hash (row_of ev p h) = h"
  by (simp_all add: row_of_def)

lemma linked_number_rows: "agp_chain.linked e p (number_rows n rows) = agp_chain.linked e p rows"
  by (induction rows arbitrary: n p) simp_all

lemma tail_number_rows: "agp_chain.tail_hash p (number_rows n rows) = agp_chain.tail_hash p rows"
  by (induction rows arbitrary: n p) simp_all

lemma chain_rows_linked:
  "chain_rows e p evs = (rows, t) \<Longrightarrow> agp_chain.linked e p rows \<and> agp_chain.tail_hash p rows = t"
proof (induction evs arbitrary: p rows)
  case (Cons ev evs)
  obtain rows' t' where "chain_rows e (compute_row_hash e p ev) evs = (rows', t')" by fastforce
  then show ?case using Cons by (auto simp: compute_row_hash_def)
qed simp

text \<open>The log is sound: the stored rows are a chain from genesis and the cached tail is their tail.\<close>

definition audit_ok :: "env \<Rightarrow> string option \<times> memory_store \<Rightarrow> bool" where
  "audit_ok e s \<longleftrightarrow> agp_chain.linked e GENESIS_HASH (ms_audit (snd s)) \<and>
     (fst s = Some (agp_chain.tail_hash GENESIS_HASH (ms_audit (snd s))) \<or> fst s = None \<and> ms_audit (snd s) = [])"

lemma audit_ok_empty: "audit_ok e (None, empty_store)"
  by (simp add: audit_ok_def empty_store_def)

lemma audit_ok_log: "audit_ok e s \<Longrightarrow> audit_ok e (log_batch e evs s)"
proof -
  assume ok: "audit_ok e s"
  obtain cached st where s: "s = (cached, st)" by fastforce
  define p where "p = (case cached of Some t \<Rightarrow> t | None \<Rightarrow> str_or (audit_tail_hash st) GENESIS_HASH)"
  obtain rows t where c: "chain_rows e p evs = (rows, t)" by fastforce
  have p: "p = agp_chain.tail_hash GENESIS_HASH (ms_audit st)"
    using ok by (auto simp: p_def s audit_ok_def audit_tail_hash_def str_or_def)
  have new: "agp_chain.linked e p rows" "agp_chain.tail_hash p rows = t"
    using chain_rows_linked [OF c] by simp_all
  have old: "agp_chain.linked e GENESIS_HASH (ms_audit st)" using ok by (simp add: audit_ok_def s)
  show ?thesis
  proof (cases "evs = []")
    case True
    then show ?thesis using ok by (simp add: s log_batch_def)
  next
    case False
    then have run: "log_batch e evs s = (Some t, append_audit_batch rows st)"
      by (simp add: s log_batch_def p_def [symmetric] c)
    show ?thesis unfolding run using old new
      by (simp add: audit_ok_def append_audit_batch_def agp_chain.linked_append p [symmetric]
          linked_number_rows tail_number_rows)
  qed
qed

text \<open>A log call touches nothing of the store but the audit rows, and only adds rows.\<close>

lemma log_batch_frame [frame_simps]:
  "ms_tokens (snd (log_batch e evs s)) = ms_tokens (snd s)"
  "ms_edges (snd (log_batch e evs s)) = ms_edges (snd s)"
  "ms_revoked (snd (log_batch e evs s)) = ms_revoked (snd s)"
  "ms_subjects (snd (log_batch e evs s)) = ms_subjects (snd s)"
  "ms_subject_by_hash (snd (log_batch e evs s)) = ms_subject_by_hash (snd s)"
  "ms_approvals (snd (log_batch e evs s)) = ms_approvals (snd s)"
  "ms_actions (snd (log_batch e evs s)) = ms_actions (snd s)"
  "ms_actions_by_jti (snd (log_batch e evs s)) = ms_actions_by_jti (snd s)"
  "ms_reviews (snd (log_batch e evs s)) = ms_reviews (snd s)"
  "ms_closed (snd (log_batch e evs s)) = ms_closed (snd s)"
  by (simp_all add: log_batch_def append_audit_batch_def Let_def split: prod.splits)

lemma log_batch_appends: "prefix (ms_audit (snd s)) (ms_audit (snd (log_batch e evs s)))"
  by (simp add: log_batch_def append_audit_batch_def Let_def split: prod.splits)

section \<open>Examples\<close>

text \<open>A digest for the examples: the last 64 characters, padded. One row, and the row edited.\<close>

definition suffix_env :: env where
  "suffix_env = (demo_env (\<lambda>_. None))\<lparr>e_sha256 := (\<lambda>s. take 64 (rev s @ replicate 64 CHR ''x''))\<rparr>"

definition scopes_event :: "string \<Rightarrow> audit_event" where
  "scopes_event s = blank_event\<lparr>ev_scopes := Some [s]\<rparr>"

definition example_row :: audit_row where
  "example_row = row_of (scopes_event ''a'') GENESIS_HASH
     (compute_row_hash suffix_env GENESIS_HASH (scopes_event ''a''))"

definition edited_row :: audit_row where
  "edited_row = row_of (scopes_event ''b'') GENESIS_HASH (aw_row_hash example_row)"

lemma suffix_digests: "digests (e_sha256 suffix_env) 64"
  by (auto simp: digests_def suffix_env_def)

lemma canonical_examples:
  "rev (canonical_content (scopes_event ''a'')) = CHR ''}'' # CHR '']'' # dq # CHR ''a'' #
     drop 4 (rev (canonical_content (scopes_event ''a'')))"
  "rev (canonical_content (scopes_event ''b'')) = CHR ''}'' # CHR '']'' # dq # CHR ''b'' #
     drop 4 (rev (canonical_content (scopes_event ''b'')))"
  by code_simp+

lemma example_inputs:
  "agp_chain.input example_row = GENESIS_HASH @ canonical_content (scopes_event ''a'')"
  "agp_chain.input edited_row = GENESIS_HASH @ canonical_content (scopes_event ''b'')"
  by (simp_all add: agp_chain.input_def example_row_def edited_row_def)

lemma suffix_hashes:
  "\<exists>t. e_sha256 suffix_env (agp_chain.input example_row) = CHR ''}'' # CHR '']'' # dq # CHR ''a'' # t"
  "\<exists>t. e_sha256 suffix_env (agp_chain.input edited_row) = CHR ''}'' # CHR '']'' # dq # CHR ''b'' # t"
  unfolding example_inputs suffix_env_def
  by (simp_all, (subst canonical_examples, simp)+)

lemma example_intact: "ir_intact (verify_rows suffix_env 0 GENESIS_HASH [example_row])"
  by (simp add: example_row_def compute_row_hash_def)

section \<open>Properties\<close>

text \<open>C18: edits are caught and located. If the rows up to some row are an intact log and one row was
  edited in any hashed field without recomputing its hash, verification fails and names that row,
  unless the two texts hashed for it collide under SHA-256.\<close>

theorem edit_detected_and_located:
  assumes "digests (e_sha256 e) 64" and "inj_on (e_sha256 e) {agp_chain.input r, agp_chain.input r'}"
    and "ir_intact (verify_rows e 0 GENESIS_HASH (good @ r # rest))"
    and "row_content r' \<noteq> row_content r" and "aw_row_hash r' = aw_row_hash r" and "aw_id r' = aw_id r"
  shows "\<not> ir_intact (verify_rows e 0 GENESIS_HASH (good @ r' # rest'))
    \<and> ir_rows_checked (verify_rows e 0 GENESIS_HASH (good @ r' # rest')) = length good
    \<and> ir_first_broken_row_id (verify_rows e 0 GENESIS_HASH (good @ r' # rest')) = Some (aw_id r)"
proof -
  have l: "agp_chain.linked e GENESIS_HASH (good @ r # rest)" using assms(3) verify_rows_intact by blast
  then have good: "agp_chain.linked e GENESIS_HASH good" by (simp add: agp_chain.linked_append)
  have "\<not> agp_chain.linked e GENESIS_HASH (good @ r' # [])"
    using agp_chain.edit_detected [OF assms(1) _ assms(2) l assms(4,5)] by (simp add: GENESIS_HASH_def)
  then have "\<not> agp_chain.linked e (agp_chain.tail_hash GENESIS_HASH good) [r']"
    using good by (simp add: agp_chain.linked_append)
  from verify_rows_broken [OF good this, of 0 rest'] show ?thesis using assms(6) by simp
qed

theorem edit_detected_and_located_witness:
  "\<not> ir_intact (verify_rows suffix_env 0 GENESIS_HASH ([] @ edited_row # []))"
proof -
  have neq: "e_sha256 suffix_env (agp_chain.input example_row) \<noteq> e_sha256 suffix_env (agp_chain.input edited_row)"
    using suffix_hashes by auto
  then have inj: "inj_on (e_sha256 suffix_env) {agp_chain.input example_row, agp_chain.input edited_row}"
    by auto
  have "canonical_content edited_row \<noteq> canonical_content example_row"
    using neq by (auto simp: agp_chain.input_def example_row_def edited_row_def)
  then have "row_content edited_row \<noteq> row_content example_row" using agp_chain.canon_content by blast
  from edit_detected_and_located [OF suffix_digests inj _ this, of "[]" "[]"] example_intact
  show ?thesis by (simp add: edited_row_def example_row_def row_of_def)
qed

text \<open>The tail hash commits to the history. Two logs that both verify and end in the same row
  hash hold the same rows, field for field, unless SHA-256 collides on the texts hashed in them or
  maps one to the genesis value. So whoever remembers one hash can tell any rewritten history,
  deletions of the newest rows included.\<close>

theorem tail_hash_commits:
  assumes "digests (e_sha256 e) 64"
    and "inj_on (e_sha256 e) (agp_chain.input ` (set rows \<union> set rows'))"
    and "GENESIS_HASH \<notin> e_sha256 e ` agp_chain.input ` (set rows \<union> set rows')"
    and "ir_intact (verify_rows e 0 GENESIS_HASH rows)" and "ir_intact (verify_rows e 0 GENESIS_HASH rows')"
    and "agp_chain.tail_hash GENESIS_HASH rows = agp_chain.tail_hash GENESIS_HASH rows'"
  shows "map row_content rows = map row_content rows'"
  using agp_chain.tail_determines [OF assms(1) _ assms(2,3)] assms(4-6)
  by (simp add: verify_rows_intact GENESIS_HASH_def)

theorem tail_hash_commits_witness:
  "map row_content [example_row] = map row_content [example_row\<lparr>ev_latency_us := Some 7\<rparr>]"
proof (rule tail_hash_commits [OF suffix_digests])
  let ?slow = "example_row\<lparr>ev_latency_us := Some 7\<rparr>"
  have c: "canonical_content ?slow = canonical_content example_row"
    by (simp add: canonical_content_def event_payload_def)
  then have i: "agp_chain.input ?slow = agp_chain.input example_row" by (simp add: agp_chain.input_def)
  have "hd GENESIS_HASH = CHR ''0''" by (simp add: GENESIS_HASH_def)
  moreover have "hd (e_sha256 suffix_env (agp_chain.input example_row)) = CHR ''}''"
    using suffix_hashes(1) by auto
  ultimately have "GENESIS_HASH \<noteq> e_sha256 suffix_env (agp_chain.input example_row)" by auto
  then show "GENESIS_HASH \<notin> e_sha256 suffix_env ` agp_chain.input ` (set [example_row] \<union> set [?slow])"
    using i by simp
  show "inj_on (e_sha256 suffix_env) (agp_chain.input ` (set [example_row] \<union> set [?slow]))"
    using i by simp
  show "ir_intact (verify_rows suffix_env 0 GENESIS_HASH [?slow])"
    using c by (simp add: compute_row_hash_def example_row_def)
qed (simp_all add: example_intact del: verify_rows.simps)

text \<open>Without such a remembered hash the newest rows are not protected. Any beginning of a log
  that verifies also verifies, so deleting rows from the end leaves no trace.\<close>

theorem truncation_verifies:
  assumes "ir_intact (verify_rows e 0 GENESIS_HASH (rows @ newest))"
  shows "ir_intact (verify_rows e 0 GENESIS_HASH rows)"
  using assms agp_chain.truncation_unseen by (simp add: verify_rows_intact)

theorem truncation_verifies_witness:
  "ir_intact (verify_rows suffix_env 0 GENESIS_HASH [])"
  using truncation_verifies [of suffix_env "[]" "[example_row]"] example_intact by simp

end
