(* ===== verification/Agp_Tokens.thy ===== *)
theory Agp_Tokens
  imports Agp_Audit
begin

text \<open>
  \<open>agperms/_tokens.py\<close>: the token engine. It has no state of its own; the readings of the clock and of
  \<open>uuid4\<close> it makes are arguments. \<open>jwt\<close> (PyJWT) is the environment's \<open>e_jwt_encode\<close> and \<open>e_jwt_decode\<close>.
\<close>

definition encode_claims :: "env \<Rightarrow> config \<Rightarrow> claims \<Rightarrow> string" where
  "encode_claims e cfg c = e_jwt_encode e (to_payload c) (cf_jwt_secret cfg) (cf_jwt_algorithm cfg)"

definition capability_of :: "env \<Rightarrow> config \<Rightarrow> claims \<Rightarrow> capability" where
  "capability_of e cfg c = \<lparr>cap_token = encode_claims e cfg c, cap_claims = c\<rparr>"

definition tok_mint_root ::
  "env \<Rightarrow> config \<Rightarrow> string \<Rightarrow> instant \<Rightarrow> string \<Rightarrow> string list \<Rightarrow> int \<Rightarrow> int \<Rightarrow> capability" where
  "tok_mint_root e cfg jti now subject_id scopes ttl max_depth =
     capability_of e cfg \<lparr>c_jti = jti, c_sub = subject_id, c_iss = cf_issuer cfg,
       c_issued_for = subject_id, c_scopes = sorted_set scopes, c_depth = 0, c_max_depth = max_depth,
       c_iat = ts_of now, c_exp = ts_of now + ttl, c_root_jti = jti, c_delegation_chain = [],
       c_approval_required = False, c_approved_by = None\<rparr>"

definition chain_entry_for :: "instant \<Rightarrow> claims \<Rightarrow> chain_entry" where
  "chain_entry_for now c = \<lparr>ce_agent_id = c_sub c, ce_jti = c_jti c, ce_scopes = sorted_set (c_scopes c),
     ce_ts = iso now\<rparr>"

definition tok_mint_child ::
  "env \<Rightarrow> config \<Rightarrow> string \<Rightarrow> instant \<Rightarrow> instant \<Rightarrow> claims \<Rightarrow> string \<Rightarrow> string list \<Rightarrow> int \<Rightarrow> bool
    \<Rightarrow> string option \<Rightarrow> capability" where
  "tok_mint_child e cfg jti now now' parent child_subject_id scopes expiry approval_required approved_by =
     capability_of e cfg \<lparr>c_jti = jti, c_sub = child_subject_id, c_iss = cf_issuer cfg,
       c_issued_for = ''agent:'' @ c_jti parent, c_scopes = sorted_set scopes,
       c_depth = c_depth parent + 1, c_max_depth = c_max_depth parent, c_iat = ts_of now, c_exp = expiry,
       c_root_jti = c_root_jti parent,
       c_delegation_chain = c_delegation_chain parent @ [chain_entry_for now' parent],
       c_approval_required = approval_required, c_approved_by = approved_by\<rparr>"

fun jwt_reason :: "jwt_error \<Rightarrow> string" where
  "jwt_reason ExpiredSignatureError = REASON_EXPIRED"
| "jwt_reason InvalidSignatureError = REASON_INVALID_SIGNATURE"
| "jwt_reason DecodeError = REASON_INVALID_SIGNATURE"
| "jwt_reason OtherInvalidTokenError = REASON_MALFORMED"

definition tok_decode :: "env \<Rightarrow> config \<Rightarrow> instant \<Rightarrow> string \<Rightarrow> bool \<Rightarrow> agp_error + claims" where
  "tok_decode e cfg now token verify_exp =
     (if token = '''' then Inl (TokenError REASON_MALFORMED)
      else case e_jwt_decode e token (cf_jwt_secret cfg) (cf_jwt_algorithm cfg) (cf_issuer cfg) verify_exp
             [''jti'', ''sub'', ''exp'', ''iat''] now of
          Inl x \<Rightarrow> Inl (TokenError (jwt_reason x))
        | Inr payload \<Rightarrow> from_payload payload)"

lemma capability_of_claims [simp]: "cap_claims (capability_of e cfg c) = c"
  by (simp add: capability_of_def)

lemma tok_decode_error: "tok_decode e cfg now token v = Inl x \<Longrightarrow> \<exists>r. x = TokenError r"
  by (auto simp: tok_decode_def dest: from_payload_only_token_error split: if_splits sum.splits)

text \<open>A token the engine minted decodes to the claims it was minted with.\<close>

lemma tok_decode_encode:
  assumes "jwt_roundtrip e (cf_jwt_secret cfg) (cf_jwt_algorithm cfg) (to_payload c)"
    and "c_iss c = cf_issuer cfg" and "encode_claims e cfg c \<noteq> ''''" and "from_ts (c_iat c) \<le> now"
  shows "tok_decode e cfg now (encode_claims e cfg c) False = Inr c"
proof -
  have "json_get (to_payload c) ''iss'' = Some (JStr (c_iss c))" "json_get (to_payload c) ''iat'' = Some (JInt (c_iat c))"
    and "\<forall>r \<in> set [''jti'', ''sub'', ''exp'', ''iat'']. json_get (to_payload c) r \<noteq> None"
    by (simp_all add: to_payload_def json_get_def)
  moreover have "1000000 * c_iat c \<le> now" using assms(4) by (simp add: from_ts_def)
  ultimately have "e_jwt_decode e (encode_claims e cfg c) (cf_jwt_secret cfg) (cf_jwt_algorithm cfg)
      (cf_issuer cfg) False [''jti'', ''sub'', ''exp'', ''iat''] now = Inr (to_payload c)"
    using assms(1,2) unfolding jwt_roundtrip_def encode_claims_def by metis
  then show ?thesis using assms(3) by (simp add: tok_decode_def from_payload_to_payload)
qed

end
