(* ===== verification/Firewall.thy ===== *)
theory Firewall
  imports Agp_Tokens "HOL-Library.Product_Lexorder"
begin

text \<open>
  \<open>agperms/firewall.py\<close>: the public entry point. The state of a firewall is the record \<open>world\<close>; each
  method is a program on it that ends with a result or an exception. Readings of the clock, the
  performance counter and \<open>uuid4\<close> happen in program order and are numbered by \<open>w_tick\<close>; a reading
  the code makes only in one branch may be numbered in both, which no caller can observe.
\<close>

section \<open>The state and the readings\<close>

record world =
  w_config :: config
  w_store :: memory_store
  w_tail :: "string option"
  w_rate :: buckets
  w_breaker :: breaker
  w_anomaly :: baselines
  w_tick :: nat

type_synonym 'a fw = "(world, agp_error, 'a) prog"

definition new_firewall :: "config \<Rightarrow> world" where
  "new_firewall cfg = \<lparr>w_config = cfg, w_store = empty_store, w_tail = None, w_rate = [],
     w_breaker = new_breaker, w_anomaly = [], w_tick = 0\<rparr>"

definition tick :: "world \<Rightarrow> world" where
  "tick w = w\<lparr>w_tick := Suc (w_tick w)\<rparr>"

definition nowP :: "env \<Rightarrow> instant fw" where
  "nowP e w = (Inr (e_clock e (w_tick w)), tick w)"

definition now_tsP :: "env \<Rightarrow> int fw" where
  "now_tsP e w = (Inr (ts_of (e_clock e (w_tick w))), tick w)"

definition perfP :: "env \<Rightarrow> int fw" where
  "perfP e w = (Inr (e_perf e (w_tick w)), tick w)"

definition uuidP :: "env \<Rightarrow> string fw" where
  "uuidP e w = (Inr (e_uuid4 e (w_tick w)), tick w)"

text \<open>A storage call.\<close>

definition storeP :: "'a mem_prog \<Rightarrow> 'a fw" where
  "storeP m = zoomP w_store (\<lambda>s w. w\<lparr>w_store := s\<rparr>) m"

definition store_updP :: "(memory_store \<Rightarrow> memory_store) \<Rightarrow> unit fw" where
  "store_updP f = updP (\<lambda>w. w\<lparr>w_store := f (w_store w)\<rparr>)"

section \<open>Calls of the private engines\<close>

text \<open>\<open>self._audit.log(AuditEvent(...))\<close>; the event takes its time stamp when it is built.\<close>

definition log_event :: "env \<Rightarrow> audit_event \<Rightarrow> world \<Rightarrow> world" where
  "log_event e ev w = (let s = log_one e (ev\<lparr>ev_event_ts := iso (e_clock e (w_tick w))\<rparr>) (w_tail w, w_store w)
     in (tick w)\<lparr>w_tail := fst s, w_store := snd s\<rparr>)"

definition auditP :: "env \<Rightarrow> audit_event \<Rightarrow> unit fw" where
  "auditP e ev = updP (log_event e ev)"

text \<open>\<open>self._circuit.record(...)\<close>, with the callback that \<open>__init__\<close> installs.\<close>

definition circuit_record :: "env \<Rightarrow> bool \<Rightarrow> string option \<Rightarrow> bool \<Rightarrow> world \<Rightarrow> world" where
  "circuit_record e error subject_id policy_denial w = (let
     (tripped, br) = breaker_record (w_config w) error subject_id policy_denial (e_clock e (w_tick w)) (w_breaker w);
     w' = (tick w)\<lparr>w_breaker := br\<rparr>
   in case tripped of None \<Rightarrow> w'
      | Some why \<Rightarrow> log_event e (blank_event\<lparr>ev_action := ''circuit_opened'', ev_decision := Some ''deny'',
          ev_reason := Some (truncate_reason why)\<rparr>) w')"

definition circuitP :: "env \<Rightarrow> bool \<Rightarrow> string option \<Rightarrow> bool \<Rightarrow> unit fw" where
  "circuitP e error subject_id policy_denial = updP (circuit_record e error subject_id policy_denial)"

definition circuit_checkP :: "unit fw" where
  "circuit_checkP w = (breaker_check (w_breaker w), w)"

definition rateP :: "env \<Rightarrow> string \<Rightarrow> string \<Rightarrow> unit fw" where
  "rateP e subject_id act w = (case rate_check (w_config w) subject_id act (e_clock e (w_tick w)) (w_rate w) of
     (r, b) \<Rightarrow> (r, (tick w)\<lparr>w_rate := b\<rparr>))"

definition observeP :: "env \<Rightarrow> string \<Rightarrow> nat \<Rightarrow> string option fw" where
  "observeP e subject_id n w =
     (case observe_delegation (w_config w) subject_id n (e_clock e (w_tick w)) (w_anomaly w) of
       (finding, b) \<Rightarrow> (Inr finding, (tick w)\<lparr>w_anomaly := b\<rparr>))"

definition decodeP :: "env \<Rightarrow> string \<Rightarrow> claims fw" where
  "decodeP e token w = (tok_decode e (w_config w) (e_clock e (w_tick w)) token False, tick w)"

definition mint_childP :: "env \<Rightarrow> claims \<Rightarrow> string \<Rightarrow> string list \<Rightarrow> int \<Rightarrow> bool \<Rightarrow> string option \<Rightarrow> capability fw" where
  "mint_childP e parent child_subject_id scopes expiry approval_required approved_by =
     bindP (nowP e) (\<lambda>now. bindP (nowP e) (\<lambda>now'. bindP (uuidP e) (\<lambda>jti.
       getsP (\<lambda>w. tok_mint_child e (w_config w) jti now now' parent child_subject_id scopes expiry
         approval_required approved_by))))"

section \<open>Internals\<close>

text \<open>Python's \<open>x or y\<close> on an optional integer.\<close>

definition int_or :: "int option \<Rightarrow> int \<Rightarrow> int" where
  "int_or x y = (case x of None \<Rightarrow> y | Some i \<Rightarrow> if i = 0 then y else i)"

definition opt_reason :: "string option \<Rightarrow> string option" where
  "opt_reason r = (case r of Some (c # cs) \<Rightarrow> Some (truncate_reason (c # cs)) | _ \<Rightarrow> None)"

fun any_revoked :: "string list \<Rightarrow> bool fw" where
  "any_revoked [] = ret False"
| "any_revoked (j # js) = bindP (storeP (is_revoked j)) (\<lambda>b. if b then ret True else any_revoked js)"

definition decode_live :: "env \<Rightarrow> string \<Rightarrow> claims fw" where
  "decode_live e token =
     bindP (catchP (decodeP e token) (\<lambda>x. raise (ParentTokenInvalid (str_or (reason_of x) '''')))) (\<lambda>claims.
     bindP (now_tsP e) (\<lambda>now.
       if c_exp claims < now then raise (ParentTokenInvalid REASON_EXPIRED)
       else bindP (any_revoked (c_jti claims # ancestor_jtis claims)) (\<lambda>dead.
         if dead then raise (ParentTokenInvalid REASON_REVOKED) else ret claims)))"

definition assert_root_alive :: "env \<Rightarrow> claims \<Rightarrow> unit fw" where
  "assert_root_alive e claims = bindP (getsP (\<lambda>w. get_token (w_store w) (c_root_jti claims))) (\<lambda>found.
     case found of
       None \<Rightarrow> raise (RootChainBroken ''chain does not terminate at a known root'')
     | Some m \<Rightarrow>
         if tm_depth m \<noteq> 0 then raise (RootChainBroken ''chain root is not a depth-0 capability'')
         else bindP (nowP e) (\<lambda>now.
           if tm_expires_at m < now then raise (RootChainBroken ''root capability has expired'')
           else bindP (storeP (is_revoked (c_root_jti claims))) (\<lambda>b.
             if b then raise (RootChainBroken ''root capability has been revoked'') else ret ())))"

definition resolve_subject :: "env \<Rightarrow> string \<Rightarrow> string \<Rightarrow> subject fw" where
  "resolve_subject e identifier kind =
     bindP (getsP w_config) (\<lambda>cfg. bindP (uuidP e) (\<lambda>uuid. bindP (nowP e) (\<lambda>now.
     bindP (storeP (get_or_create_subject uuid now (hash_identifier e identifier (cf_pii_salt cfg)) kind identifier)) (\<lambda>s.
     bindP (updP (\<lambda>w. w\<lparr>w_config := register_exempt_subject identifier (sj_subject_id s) (w_config w)\<rparr>)) (\<lambda>_.
     ret s)))))"

definition meta_of :: "claims \<Rightarrow> string option \<Rightarrow> token_metadata" where
  "meta_of c parent_jti = \<lparr>tm_jti = c_jti c, tm_subject_id = c_sub c, tm_parent_jti = parent_jti,
     tm_root_jti = c_root_jti c, tm_depth = c_depth c, tm_max_depth = c_max_depth c, tm_scopes = c_scopes c,
     tm_delegation_chain = map entry_to_dict (c_delegation_chain c), tm_issued_at = from_ts (c_iat c),
     tm_expires_at = from_ts (c_exp c), tm_approval_required = c_approval_required c,
     tm_approved_by = c_approved_by c\<rparr>"

definition persist_token :: "capability \<Rightarrow> string option \<Rightarrow> unit fw" where
  "persist_token minted parent_jti = storeP (put_token (meta_of (cap_claims minted) parent_jti))"

definition claims_from_metadata :: "config \<Rightarrow> token_metadata \<Rightarrow> agp_error + claims" where
  "claims_from_metadata cfg m = (case those (map entry_from_dict (tm_delegation_chain m)) of
     None \<Rightarrow> Inl (TokenError REASON_MALFORMED)
   | Some chain \<Rightarrow> Inr \<lparr>c_jti = tm_jti m, c_sub = tm_subject_id m, c_iss = cf_issuer cfg,
       c_issued_for = (case tm_parent_jti m of None \<Rightarrow> tm_subject_id m | Some p \<Rightarrow> ''agent:'' @ p),
       c_scopes = tm_scopes m, c_depth = tm_depth m, c_max_depth = tm_max_depth m,
       c_iat = ts_of (tm_issued_at m), c_exp = ts_of (tm_expires_at m), c_root_jti = tm_root_jti m,
       c_delegation_chain = chain, c_approval_required = tm_approval_required m,
       c_approved_by = tm_approved_by m\<rparr>)"

definition decide_approval :: "env \<Rightarrow> pending_approval \<Rightarrow> string \<Rightarrow> string option \<Rightarrow> string option
    \<Rightarrow> string option \<Rightarrow> unit fw" where
  "decide_approval e record status approver child_jti child_token = bindP (nowP e) (\<lambda>now.
     storeP (update_approval (record\<lparr>pa_status := status, pa_decided_at := Some now,
       pa_approved_by := approver, pa_child_jti := child_jti, pa_child_token := child_token\<rparr>)))"

definition load_pending :: "env \<Rightarrow> string \<Rightarrow> pending_approval fw" where
  "load_pending e approval_id = bindP (getsP (\<lambda>w. get_approval (w_store w) approval_id)) (\<lambda>found.
     case found of None \<Rightarrow> raise KeyError
     | Some record \<Rightarrow>
         if pa_status record = ''pending'' then
           bindP (nowP e) (\<lambda>now.
             if pa_expires_at record < now then
               bindP (decide_approval e record ''expired'' None None None) (\<lambda>_. raise ValueError)
             else ret record)
         else raise ValueError)"

definition park_for_approval ::
  "env \<Rightarrow> claims \<Rightarrow> string \<Rightarrow> string list \<Rightarrow> int \<Rightarrow> string list \<Rightarrow> pending_approval fw" where
  "park_for_approval e parent child_agent_id requested_scopes ttl_seconds sensitive =
     bindP (resolve_subject e child_agent_id ''agent'') (\<lambda>child_subject.
     bindP (uuidP e) (\<lambda>approval_id.
     bindP (now_tsP e) (\<lambda>now_ts.
     bindP (getsP (\<lambda>w. min (now_ts + cf_approval_timeout_seconds (w_config w)) (c_exp parent))) (\<lambda>expires_ts.
     bindP (nowP e) (\<lambda>now.
       let record = \<lparr>pa_approval_id = approval_id, pa_parent_jti = c_jti parent,
         pa_parent_subject_id = c_sub parent, pa_child_agent_id = child_agent_id,
         pa_child_subject_id = sj_subject_id child_subject, pa_requested_scopes = requested_scopes,
         pa_sensitive_scopes = sensitive, pa_ttl_seconds = ttl_seconds, pa_parent_exp = c_exp parent,
         pa_status = ''pending'', pa_created_at = now, pa_expires_at = from_ts expires_ts,
         pa_decided_at = None, pa_approved_by = None, pa_child_jti = None, pa_child_token = None,
         pa_collected = False\<rparr> in
       bindP (store_updP (put_approval record)) (\<lambda>_.
       bindP (auditP e (blank_event\<lparr>ev_action := ''approval_pending'', ev_actor_id := Some (c_sub parent),
         ev_parent_jti := Some (c_jti parent), ev_root_jti := Some (c_root_jti parent),
         ev_scopes := Some requested_scopes, ev_decision := Some ''pending'',
         ev_reason := Some (''sensitive scopes require approval: '' @ py_repr (json_strs sensitive)),
         ev_depth := Some (c_depth parent + 1),
         ev_detail := Some (JObj [(''approval_id'', JStr approval_id), (''child_agent_id'', JStr child_agent_id)])\<rparr>)) (\<lambda>_.
       ret record)))))))"

section \<open>Minting\<close>

definition mint_root :: "env \<Rightarrow> string \<Rightarrow> string list \<Rightarrow> int option \<Rightarrow> int option \<Rightarrow> capability fw" where
  "mint_root e subject_name scopes ttl_seconds max_depth =
     (if scopes = [] then raise ValueError
      else bindP (getsP w_config) (\<lambda>cfg.
        let ttl = min (int_or ttl_seconds (cf_default_ttl_seconds cfg)) (cf_max_ttl_seconds cfg);
            depth_ceiling = int_or max_depth (cf_max_delegation_depth cfg) in
        if depth_ceiling < 1 then raise ValueError
        else bindP (resolve_subject e subject_name ''human'') (\<lambda>s.
        bindP (uuidP e) (\<lambda>jti. bindP (nowP e) (\<lambda>now.
        bindP (getsP (\<lambda>w. tok_mint_root e (w_config w) jti now (sj_subject_id s) scopes ttl depth_ceiling)) (\<lambda>minted.
        bindP (persist_token minted None) (\<lambda>_.
        bindP (auditP e (blank_event\<lparr>ev_action := ''root_minted'', ev_actor_id := Some (sj_subject_id s),
          ev_actor_hash := Some (sj_identifier_hash s), ev_jti := Some (cap_jti minted),
          ev_root_jti := Some (cap_jti minted), ev_scopes := Some (cap_scopes minted), ev_depth := Some 0,
          ev_decision := Some ''allow'',
          ev_detail := Some (JObj [(''ttl_seconds'', JInt ttl), (''max_depth'', JInt depth_ceiling)])\<rparr>)) (\<lambda>_.
        ret minted))))))))"

text \<open>
  \<open>delegate\<close> in three parts: the checks, what follows once they passed (anomaly flag, expiry, approval
  gate), and the minting itself.
\<close>

definition delegate_issue :: "env \<Rightarrow> claims \<Rightarrow> string \<Rightarrow> string list \<Rightarrow> int \<Rightarrow> capability fw" where
  "delegate_issue e parent to requested child_exp =
     bindP (resolve_subject e to ''agent'') (\<lambda>child_subject.
     bindP (mint_childP e parent (sj_subject_id child_subject) requested child_exp False None) (\<lambda>minted.
     bindP (persist_token minted (Some (c_jti parent))) (\<lambda>_.
     bindP (store_updP (add_edge (c_jti parent) (cap_jti minted))) (\<lambda>_.
     bindP (auditP e (blank_event\<lparr>ev_action := ''delegated'', ev_actor_id := Some (c_sub parent),
       ev_jti := Some (cap_jti minted), ev_parent_jti := Some (c_jti parent),
       ev_root_jti := Some (c_root_jti (cap_claims minted)), ev_scopes := Some (cap_scopes minted),
       ev_decision := Some ''allow'', ev_depth := Some (cap_depth minted),
       ev_detail := Some (JObj [(''child_agent_id'', JStr to),
         (''child_subject_id'', JStr (sj_subject_id child_subject)), (''exp'', JInt (c_exp (cap_claims minted)))])\<rparr>)) (\<lambda>_.
     bindP (circuitP e False (Some (c_sub parent)) False) (\<lambda>_.
     ret minted))))))"

definition delegate_granted :: "env \<Rightarrow> claims \<Rightarrow> string \<Rightarrow> string list \<Rightarrow> int option \<Rightarrow> capability fw" where
  "delegate_granted e parent to requested ttl_seconds =
     bindP (observeP e (c_sub parent) (length requested)) (\<lambda>finding.
     bindP (case finding of None \<Rightarrow> ret () | Some f \<Rightarrow>
       auditP e (blank_event\<lparr>ev_action := ''anomaly_flagged'', ev_actor_id := Some (c_sub parent),
         ev_parent_jti := Some (c_jti parent), ev_root_jti := Some (c_root_jti parent),
         ev_scopes := Some requested, ev_decision := Some ''flag'', ev_reason := Some (truncate_reason f),
         ev_detail := Some (JObj [(''child_agent_id'', JStr to), (''auto_blocked'', JBool False)])\<rparr>)) (\<lambda>_.
     bindP (getsP w_config) (\<lambda>cfg.
     let requested_ttl = int_or ttl_seconds (cf_default_ttl_seconds cfg) in
     bindP (now_tsP e) (\<lambda>now_ts.
     let child_exp = min (now_ts + requested_ttl) (c_exp parent);
         sensitive = sensitive_subset cfg requested in
     if sensitive \<noteq> [] then
       bindP (park_for_approval e parent to requested requested_ttl sensitive) (\<lambda>approval.
       bindP (circuitP e False (Some (c_sub parent)) False) (\<lambda>_.
       raise (ApprovalRequired (pa_approval_id approval) requested sensitive)))
     else delegate_issue e parent to requested child_exp))))"

definition delegate :: "env \<Rightarrow> string \<Rightarrow> string \<Rightarrow> string list \<Rightarrow> int option \<Rightarrow> capability fw" where
  "delegate e parent_token to scopes ttl_seconds =
     bindP circuit_checkP (\<lambda>_.
     if scopes = [] then raise ValueError
     else bindP (decode_live e parent_token) (\<lambda>parent.
     bindP (rateP e (c_sub parent) ''delegate'') (\<lambda>_.
     bindP (assert_root_alive e parent) (\<lambda>_.
     let requested = sorted_set scopes;
         denied = filter (\<lambda>s. s \<notin> scope_set parent) requested;
         child_depth = c_depth parent + 1 in
     if denied \<noteq> [] then
       bindP (auditP e (blank_event\<lparr>ev_action := ''escalation_denied'', ev_actor_id := Some (c_sub parent),
         ev_parent_jti := Some (c_jti parent), ev_root_jti := Some (c_root_jti parent),
         ev_scopes := Some requested, ev_denied_scopes := Some denied,
         ev_decision := Some ''deny'', ev_reason := Some ''requested scopes exceed the parent grant'',
         ev_depth := Some child_depth, ev_detail := Some (JObj [(''child_agent_id'', JStr to)])\<rparr>)) (\<lambda>_.
       bindP (circuitP e True (Some (c_sub parent)) True) (\<lambda>_.
       raise (ScopeEscalationDenied requested (sorted_set (c_scopes parent)) denied)))
     else if c_max_depth parent < child_depth then
       bindP (auditP e (blank_event\<lparr>ev_action := ''depth_limit_exceeded'', ev_actor_id := Some (c_sub parent),
         ev_parent_jti := Some (c_jti parent), ev_root_jti := Some (c_root_jti parent),
         ev_scopes := Some requested, ev_decision := Some ''deny'',
         ev_reason := Some (''depth '' @ str_int child_depth @ '' exceeds max_depth '' @ str_int (c_max_depth parent)),
         ev_depth := Some child_depth, ev_detail := Some (JObj [(''child_agent_id'', JStr to)])\<rparr>)) (\<lambda>_.
       bindP (circuitP e True (Some (c_sub parent)) True) (\<lambda>_.
       raise (DepthLimitExceeded child_depth (c_max_depth parent))))
     else delegate_granted e parent to requested ttl_seconds))))"

section \<open>Verification\<close>

definition verify_deny :: "env \<Rightarrow> int \<Rightarrow> claims \<Rightarrow> string \<Rightarrow> string \<Rightarrow> verify_result fw" where
  "verify_deny e started claims required_scope reason =
     bindP (circuitP e True (Some (c_sub claims)) True) (\<lambda>_.
     bindP (auditP e (blank_event\<lparr>ev_action := ''verify_denied'', ev_actor_id := Some (c_sub claims),
       ev_jti := Some (c_jti claims), ev_root_jti := Some (c_root_jti claims),
       ev_required_scope := Some required_scope, ev_scopes := Some (c_scopes claims),
       ev_decision := Some ''deny'', ev_reason := Some reason, ev_depth := Some (c_depth claims)\<rparr>)) (\<lambda>_.
     bindP (perfP e) (\<lambda>t.
     ret \<lparr>vr_valid = False, vr_reason = Some reason, vr_claims = Some claims, vr_latency_us = t - started\<rparr>)))"

text \<open>\<open>verify\<close>: what happens to the authenticated claims, then the whole.\<close>

definition verify_claims :: "env \<Rightarrow> int \<Rightarrow> claims \<Rightarrow> string \<Rightarrow> verify_result fw" where
  "verify_claims e started claims required_scope =
     bindP (rateP e (c_sub claims) ''verify'') (\<lambda>_.
     bindP (now_tsP e) (\<lambda>now.
     if c_exp claims < now then verify_deny e started claims required_scope REASON_EXPIRED
     else bindP (any_revoked (c_jti claims # ancestor_jtis claims)) (\<lambda>dead.
       if dead then verify_deny e started claims required_scope REASON_REVOKED
       else if required_scope \<notin> scope_set claims
         then verify_deny e started claims required_scope REASON_SCOPE_NOT_GRANTED
       else
         bindP (circuitP e False (Some (c_sub claims)) False) (\<lambda>_.
         bindP (perfP e) (\<lambda>t.
         bindP (auditP e (blank_event\<lparr>ev_action := ''verify_allowed'', ev_actor_id := Some (c_sub claims),
           ev_jti := Some (c_jti claims), ev_root_jti := Some (c_root_jti claims),
           ev_required_scope := Some required_scope, ev_scopes := Some (c_scopes claims),
           ev_decision := Some ''allow'', ev_depth := Some (c_depth claims),
           ev_latency_us := Some (t - started)\<rparr>)) (\<lambda>_.
         ret \<lparr>vr_valid = True, vr_reason = None, vr_claims = Some claims, vr_latency_us = t - started\<rparr>))))))"

definition verify :: "env \<Rightarrow> string option \<Rightarrow> string \<Rightarrow> verify_result fw" where
  "verify e token required_scope =
     bindP (perfP e) (\<lambda>started.
     bindP (getsP (\<lambda>w. br_open (w_breaker w))) (\<lambda>is_open.
     if is_open then bindP (perfP e) (\<lambda>t. ret \<lparr>vr_valid = False, vr_reason = Some ''circuit_open'',
       vr_claims = None, vr_latency_us = t - started\<rparr>)
     else if str_or token '''' = '''' then bindP (perfP e) (\<lambda>t. ret \<lparr>vr_valid = False,
       vr_reason = Some REASON_MISSING_TOKEN, vr_claims = None, vr_latency_us = t - started\<rparr>)
     else bindP (catchP (bindP (decodeP e (str_or token '''')) (\<lambda>c. ret (Inr c))) (\<lambda>x. ret (Inl x))) (\<lambda>decoded.
     case decoded of
       Inl x \<Rightarrow>
         bindP (circuitP e True None True) (\<lambda>_.
         bindP (auditP e (blank_event\<lparr>ev_action := ''verify_denied'', ev_required_scope := Some required_scope,
           ev_decision := Some ''deny'', ev_reason := reason_of x\<rparr>)) (\<lambda>_.
         bindP (perfP e) (\<lambda>t. ret \<lparr>vr_valid = False, vr_reason = reason_of x, vr_claims = None,
           vr_latency_us = t - started\<rparr>)))
     | Inr claims \<Rightarrow> verify_claims e started claims required_scope)))"

definition require :: "env \<Rightarrow> string option \<Rightarrow> string \<Rightarrow> claims fw" where
  "require e token required_scope = bindP (verify e token required_scope) (\<lambda>r.
     if \<not> vr_valid r then raise (Denied (str_or (vr_reason r) ''denied''))
     else case vr_claims r of None \<Rightarrow> raise AssertionError | Some c \<Rightarrow> ret c)"

end
