(* ===== verification/Firewall_Actions.thy ===== *)
theory Firewall_Actions
  imports Firewall
begin

text \<open>
  \<open>agperms/firewall.py\<close>, continued: in-flight actions, revocation and the review queue. The context
  manager \<open>action\<close> is its two halves, \<open>action_enter\<close> (up to the \<open>yield\<close>) and \<open>action_exit\<close> (what runs
  when the block is left), with any run of the firewall between them; \<open>with_action\<close> puts a block
  between the two.
\<close>

section \<open>Classification\<close>

definition classify_action :: "action_record \<Rightarrow> completion_state" where
  "classify_action a = (if ar_finished_at a = None \<or> ar_state a = None then UNKNOWN else the (ar_state a))"

fun COMPLETION_URGENCY :: "completion_state \<Rightarrow> nat" where
  "COMPLETION_URGENCY UNKNOWN = 2"
| "COMPLETION_URGENCY PARTIAL = 1"
| "COMPLETION_URGENCY CLEAN = 0"

definition review_priority :: "action_record \<Rightarrow> nat" where
  "review_priority a = COMPLETION_URGENCY (classify_action a) * 10 + rev_rank (ar_reversibility a)"

section \<open>Actions\<close>

record action_handle =
  ah_action_id :: string
  ah_jti :: string
  ah_name :: string
  ah_scope :: string
  ah_reversibility :: reversibility
  ah_notes :: "string list"

definition add_note :: "string \<Rightarrow> action_handle \<Rightarrow> action_handle" where
  "add_note txt h = h\<lparr>ah_notes := ah_notes h @ [truncate_reason txt]\<rparr>"

definition action_enter ::
  "env \<Rightarrow> string \<Rightarrow> string \<Rightarrow> string \<Rightarrow> reversibility option \<Rightarrow> (action_handle \<times> claims) fw" where
  "action_enter e token scope name reversibility =
     bindP (require e (Some token) scope) (\<lambda>claims.
     bindP (rateP e (c_sub claims) ''action'') (\<lambda>_.
     bindP (getsP (\<lambda>w. case reversibility of Some r \<Rightarrow> r | None \<Rightarrow> reversibility_of (w_config w) scope)) (\<lambda>rev.
     bindP (uuidP e) (\<lambda>action_id. bindP (nowP e) (\<lambda>started_at.
     bindP (storeP (put_action \<lparr>ar_action_id = action_id, ar_jti = c_jti claims, ar_subject_id = c_sub claims,
       ar_name = name, ar_scope = scope, ar_started_at = started_at, ar_finished_at = None, ar_state = None,
       ar_failure_reason = None, ar_reversibility = rev\<rparr>)) (\<lambda>_.
     bindP (auditP e (blank_event\<lparr>ev_action := ''action_started'', ev_actor_id := Some (c_sub claims),
       ev_jti := Some (c_jti claims), ev_root_jti := Some (c_root_jti claims), ev_required_scope := Some scope,
       ev_decision := Some ''allow'', ev_depth := Some (c_depth claims),
       ev_detail := Some (JObj [(''action_id'', JStr action_id), (''action_name'', JStr name),
         (''reversibility'', JStr (rev_value rev))])\<rparr>)) (\<lambda>_.
     ret (\<lparr>ah_action_id = action_id, ah_jti = c_jti claims, ah_name = name, ah_scope = scope,
       ah_reversibility = rev, ah_notes = []\<rparr>, claims))))))))"

definition close_handle ::
  "env \<Rightarrow> action_handle \<Rightarrow> claims \<Rightarrow> completion_state \<Rightarrow> string option \<Rightarrow> unit fw" where
  "close_handle e h claims state failure_reason =
     bindP (nowP e) (\<lambda>finished_at.
     bindP (store_updP (\<lambda>st. snd (close_action (ah_action_id h) state finished_at failure_reason st))) (\<lambda>_.
     auditP e (blank_event\<lparr>ev_action := (if state = CLEAN then ''action_completed'' else ''action_failed''),
       ev_actor_id := Some (c_sub claims), ev_jti := Some (c_jti claims), ev_root_jti := Some (c_root_jti claims),
       ev_required_scope := Some (ah_scope h),
       ev_decision := Some (if state = CLEAN then ''clean'' else ''partial''), ev_reason := failure_reason,
       ev_depth := Some (c_depth claims),
       ev_detail := Some (JObj ([(''action_id'', JStr (ah_action_id h)), (''action_name'', JStr (ah_name h)),
         (''completion_state'', JStr (completion_value state)),
         (''reversibility'', JStr (rev_value (ah_reversibility h)))]
         @ (if ah_notes h = [] then [] else [(''notes'', json_strs (ah_notes h))])))\<rparr>)))"

text \<open>Leaving the block: \<open>None\<close> normally, \<open>Some text\<close> by an exception that prints as \<open>text\<close>.\<close>

definition action_exit :: "env \<Rightarrow> action_handle \<Rightarrow> claims \<Rightarrow> string option \<Rightarrow> unit fw" where
  "action_exit e h claims exc = (case exc of
     Some txt \<Rightarrow> close_handle e h claims PARTIAL (Some (truncate_reason txt))
   | None \<Rightarrow> close_handle e h claims CLEAN None)"

text \<open>\<open>with fw.action(...) as handle: body\<close>. The body may use the handle and the firewall; \<open>show\<close> is how
  Python prints an exception, its type and message.\<close>

definition with_action ::
  "env \<Rightarrow> (agp_error \<Rightarrow> string) \<Rightarrow> string \<Rightarrow> string \<Rightarrow> string \<Rightarrow> reversibility option
    \<Rightarrow> (action_handle \<Rightarrow> world \<Rightarrow> ((agp_error + 'a) \<times> action_handle) \<times> world) \<Rightarrow> 'a fw" where
  "with_action e show_exc token scope name reversibility body =
     bindP (action_enter e token scope name reversibility) (\<lambda>(h, claims) w.
       case body h w of
         ((Inl x, h'), w') \<Rightarrow> bindP (action_exit e h' claims (Some (show_exc x))) (\<lambda>_. raise x) w'
       | ((Inr a, h'), w') \<Rightarrow> bindP (action_exit e h' claims None) (\<lambda>_. ret a) w')"

section \<open>Revocation\<close>

fun queue_loop :: "env \<Rightarrow> instant \<Rightarrow> string \<Rightarrow> string set \<Rightarrow> action_record list \<Rightarrow> action_review list fw" where
  "queue_loop e revoked_at root_jti already [] = ret []"
| "queue_loop e revoked_at root_jti already (a # as) =
     (if ar_action_id a \<in> already then queue_loop e revoked_at root_jti already as
      else let classification = classify_action a in
      if \<not> needs_human_review classification then queue_loop e revoked_at root_jti already as
      else bindP (uuidP e) (\<lambda>review_id.
        bindP (liftP (mk_review \<lparr>av_review_id = review_id, av_jti = ar_jti a, av_action_id = ar_action_id a,
          av_action_name = ar_name a, av_classification = classification, av_revoked_at = revoked_at,
          av_revocation_root_jti = root_jti, av_reviewed = False, av_reviewed_by = None,
          av_reviewed_at = None\<rparr>)) (\<lambda>review.
        bindP (store_updP (put_review review)) (\<lambda>_.
        bindP (auditP e (blank_event\<lparr>ev_action := ''review_queued'', ev_actor_id := Some (ar_subject_id a),
          ev_jti := Some (ar_jti a), ev_required_scope := Some (ar_scope a), ev_decision := Some ''flag'',
          ev_reason := Some (''action needs review at revocation: '' @ completion_value classification),
          ev_detail := Some (JObj [(''review_id'', JStr review_id), (''action_id'', JStr (ar_action_id a)),
            (''action_name'', JStr (ar_name a)), (''completion_state'', JStr (completion_value classification)),
            (''reversibility'', JStr (rev_value (ar_reversibility a))),
            (''review_priority'', JInt (int (review_priority a)))])\<rparr>)) (\<lambda>_.
        bindP (queue_loop e revoked_at root_jti already as) (\<lambda>queued.
        ret (review # queued)))))))"

definition queue_reviews :: "env \<Rightarrow> action_record list \<Rightarrow> instant \<Rightarrow> string \<Rightarrow> action_review list fw" where
  "queue_reviews e candidates revoked_at root_jti =
     bindP (getsP (\<lambda>w. av_action_id ` set (list_reviews (w_store w) None))) (\<lambda>already.
     queue_loop e revoked_at root_jti already candidates)"

definition revoke :: "env \<Rightarrow> string \<Rightarrow> string option \<Rightarrow> revocation_result fw" where
  "revoke e jti reason =
     bindP (perfP e) (\<lambda>started.
     bindP (getsP (\<lambda>w. descendants_breadth_first (w_store w) jti)) (\<lambda>walk.
     case walk of None \<Rightarrow> raise Diverges
     | Some targets \<Rightarrow>
       bindP (nowP e) (\<lambda>revoked_at.
       bindP (getsP (\<lambda>w. actions_for_review (w_store w) targets)) (\<lambda>candidates.
       bindP (store_updP (\<lambda>st. snd (revoke_many (jti, opt_reason reason, revoked_at) targets st))) (\<lambda>_.
       bindP (queue_reviews e candidates revoked_at jti) (\<lambda>reviews.
       bindP (perfP e) (\<lambda>t.
       bindP (auditP e (blank_event\<lparr>ev_action := ''revoked'', ev_jti := Some jti, ev_decision := Some ''revoke'',
         ev_reason := opt_reason reason, ev_latency_us := Some (t - started),
         ev_detail := Some (JObj [(''subtree_count'', JInt (int (length targets))),
           (''revoked_jtis'', json_strs targets), (''actions_reviewed'', JInt (int (length candidates))),
           (''reviews_queued'', json_strs (map av_review_id reviews))])\<rparr>)) (\<lambda>_.
       ret \<lparr>rr_revoked_jtis = targets, rr_latency_us = t - started, rr_reviews = reviews\<rparr>))))))))"

section \<open>Review queue\<close>

definition review_key :: "memory_store \<Rightarrow> action_review \<Rightarrow> nat \<times> nat" where
  "review_key st r = (COMPLETION_URGENCY (av_classification r),
     rev_rank (case get_action st (av_action_id r) of Some a \<Rightarrow> ar_reversibility a | None \<Rightarrow> IRREVERSIBLE))"

definition pending_reviews :: "bool \<Rightarrow> bool \<Rightarrow> action_review list fw" where
  "pending_reviews include_resolved order_by_priority = getsP (\<lambda>w.
     let reviews = (if include_resolved then list_reviews (w_store w) None
                    else list_reviews (w_store w) (Some False)) in
     if \<not> order_by_priority then reviews else sort_desc_by (review_key (w_store w)) reviews)"

definition resolve_review :: "env \<Rightarrow> string \<Rightarrow> string \<Rightarrow> string \<Rightarrow> action_review fw" where
  "resolve_review e review_id note_text reviewed_by =
     (if strip note_text = '''' then raise ValueError
      else bindP (getsP (\<lambda>w. get_review (w_store w) review_id)) (\<lambda>found.
        case found of None \<Rightarrow> raise KeyError
        | Some existing \<Rightarrow>
          if av_reviewed existing then raise ValueError
          else bindP (nowP e) (\<lambda>resolved_at.
            bindP (liftP (mk_review (existing\<lparr>av_reviewed := True, av_reviewed_by := Some reviewed_by,
              av_reviewed_at := Some resolved_at\<rparr>))) (\<lambda>updated.
            bindP (storeP (update_review updated)) (\<lambda>_.
            bindP (auditP e (blank_event\<lparr>ev_action := ''review_resolved'', ev_actor_id := Some reviewed_by,
              ev_jti := Some (av_jti existing), ev_decision := Some ''reviewed'',
              ev_reason := Some (truncate_reason note_text),
              ev_detail := Some (JObj [(''review_id'', JStr (av_review_id existing)),
                (''action_id'', JStr (av_action_id existing)), (''action_name'', JStr (av_action_name existing)),
                (''completion_state'', JStr (completion_value (av_classification existing))),
                (''note'', JStr (truncate_reason note_text)), (''reviewed_by'', JStr reviewed_by)])\<rparr>)) (\<lambda>_.
            ret updated))))))"

end
