(* ===== verification/Firewall_Approvals.thy ===== *)
theory Firewall_Approvals
  imports Firewall_Actions
begin

text \<open>
  \<open>agperms/firewall.py\<close>, continued: the approval gate, introspection and the remaining methods.
\<close>

section \<open>Approval gate\<close>

text \<open>\<open>approve\<close>, its minting part first.\<close>

definition approve_issue ::
  "env \<Rightarrow> string \<Rightarrow> pending_approval \<Rightarrow> claims \<Rightarrow> string \<Rightarrow> int \<Rightarrow> capability fw" where
  "approve_issue e approval_id record parent_claims approver child_exp =
     bindP (mint_childP e parent_claims (pa_child_subject_id record) (pa_requested_scopes record)
       child_exp True (Some approver)) (\<lambda>minted.
     bindP (persist_token minted (Some (pa_parent_jti record))) (\<lambda>_.
     bindP (store_updP (add_edge (pa_parent_jti record) (cap_jti minted))) (\<lambda>_.
     bindP (decide_approval e record ''approved'' (Some approver) (Some (cap_jti minted))
       (Some (cap_token minted))) (\<lambda>_.
     bindP (auditP e (blank_event\<lparr>ev_action := ''approval_granted'', ev_actor_id := Some approver,
       ev_jti := Some (cap_jti minted), ev_parent_jti := Some (pa_parent_jti record),
       ev_root_jti := Some (c_root_jti (cap_claims minted)), ev_scopes := Some (cap_scopes minted),
       ev_decision := Some ''allow'', ev_depth := Some (cap_depth minted),
       ev_detail := Some (JObj [(''approval_id'', JStr approval_id),
         (''child_agent_id'', JStr (pa_child_agent_id record)),
         (''sensitive_scopes'', json_strs (pa_sensitive_scopes record))])\<rparr>)) (\<lambda>_.
     ret minted)))))"

definition approve :: "env \<Rightarrow> string \<Rightarrow> string \<Rightarrow> capability fw" where
  "approve e approval_id approver =
     bindP (load_pending e approval_id) (\<lambda>record.
     bindP (getsP (\<lambda>w. get_token (w_store w) (pa_parent_jti record))) (\<lambda>found.
     case found of None \<Rightarrow> raise (RootChainBroken ''parent token record not found'')
     | Some parent_meta \<Rightarrow>
       bindP (storeP (is_revoked (pa_parent_jti record))) (\<lambda>dead.
       if dead then
         bindP (decide_approval e record ''denied'' (Some approver) None None) (\<lambda>_.
         bindP (auditP e (blank_event\<lparr>ev_action := ''approval_rejected'', ev_actor_id := Some approver,
           ev_parent_jti := Some (pa_parent_jti record), ev_decision := Some ''deny'',
           ev_reason := Some ''parent was revoked while approval was pending'',
           ev_detail := Some (JObj [(''approval_id'', JStr approval_id)])\<rparr>)) (\<lambda>_.
         raise (ParentTokenInvalid REASON_REVOKED)))
       else bindP (now_tsP e) (\<lambda>now1.
       if pa_parent_exp record < now1 then
         bindP (decide_approval e record ''expired'' (Some approver) None None) (\<lambda>_.
         raise (ParentTokenInvalid REASON_EXPIRED))
       else
         bindP (\<lambda>w. (claims_from_metadata (w_config w) parent_meta, w)) (\<lambda>parent_claims.
         bindP (now_tsP e) (\<lambda>now2.
         approve_issue e approval_id record parent_claims approver
           (min (now2 + pa_ttl_seconds record) (pa_parent_exp record))))))))"

definition deny :: "env \<Rightarrow> string \<Rightarrow> string \<Rightarrow> string option \<Rightarrow> unit fw" where
  "deny e approval_id approver reason =
     bindP (load_pending e approval_id) (\<lambda>record.
     bindP (decide_approval e record ''denied'' (Some approver) None None) (\<lambda>_.
     auditP e (blank_event\<lparr>ev_action := ''approval_denied'', ev_actor_id := Some approver,
       ev_parent_jti := Some (pa_parent_jti record), ev_scopes := Some (pa_requested_scopes record),
       ev_decision := Some ''deny'',
       ev_reason := Some (case opt_reason reason of None \<Rightarrow> ''denied by human'' | Some r \<Rightarrow> r),
       ev_detail := Some (JObj [(''approval_id'', JStr approval_id),
         (''child_agent_id'', JStr (pa_child_agent_id record))])\<rparr>)))"

text \<open>
  \<open>collect\<close>. A \<open>PendingApproval\<close> is a dataclass with slots, so it has no \<open>__dict__\<close> and the record
  written back is the one read.
\<close>

definition collect :: "env \<Rightarrow> string \<Rightarrow> capability option fw" where
  "collect e approval_id = bindP (getsP (\<lambda>w. get_approval (w_store w) approval_id)) (\<lambda>found.
     case found of None \<Rightarrow> raise KeyError
     | Some record \<Rightarrow>
       if pa_status record \<noteq> ''approved'' \<or> str_or (pa_child_token record) '''' = '''' then
         (if pa_status record \<in> {''denied'', ''expired''} then raise (Denied (''approval_'' @ pa_status record))
          else ret None)
       else bindP (decodeP e (str_or (pa_child_token record) '''')) (\<lambda>claims.
         bindP (whenP (\<not> pa_collected record) (storeP (update_approval record))) (\<lambda>_.
         ret (Some \<lparr>cap_token = str_or (pa_child_token record) '''', cap_claims = claims\<rparr>))))"

fun expire_loop :: "env \<Rightarrow> instant \<Rightarrow> pending_approval list \<Rightarrow> nat fw" where
  "expire_loop e now [] = ret 0"
| "expire_loop e now (record # records) =
     (if pa_expires_at record < now then
        bindP (decide_approval e record ''expired'' None None None) (\<lambda>_.
        bindP (auditP e (blank_event\<lparr>ev_action := ''approval_expired'',
          ev_parent_jti := Some (pa_parent_jti record), ev_scopes := Some (pa_requested_scopes record),
          ev_decision := Some ''deny'',
          ev_reason := Some ''approval request timed out without human action'',
          ev_detail := Some (JObj [(''approval_id'', JStr (pa_approval_id record))])\<rparr>)) (\<lambda>_.
        bindP (expire_loop e now records) (\<lambda>n. ret (Suc n))))
      else expire_loop e now records)"

definition expire_stale_approvals :: "env \<Rightarrow> nat fw" where
  "expire_stale_approvals e = bindP (nowP e) (\<lambda>now.
     bindP (getsP (\<lambda>w. list_approvals (w_store w) (Some ''pending''))) (\<lambda>records.
     expire_loop e now records))"

definition pending_approvals :: "env \<Rightarrow> pending_approval list fw" where
  "pending_approvals e = bindP (expire_stale_approvals e) (\<lambda>_.
     getsP (\<lambda>w. list_approvals (w_store w) (Some ''pending'')))"

section \<open>Introspection\<close>

text \<open>The walk from a token to its root over stored records, stopped by a repeated jti.\<close>

function lineage :: "(string, token_metadata) dict \<Rightarrow> string list \<Rightarrow> token_metadata \<Rightarrow> token_metadata list" where
  "lineage toks seen cursor =
     (if tm_jti cursor \<in> set seen then []
      else cursor # (case tm_parent_jti cursor of
          None \<Rightarrow> []
        | Some p \<Rightarrow> if p = '''' then [] else
            (case dget toks p of None \<Rightarrow> [] | Some m \<Rightarrow> lineage toks (tm_jti cursor # seen) m)))"
  by pat_completeness auto
termination
proof (relation "measure (\<lambda>(toks, seen, cursor).
    2 * card {m \<in> set (map snd toks). tm_jti m \<notin> set seen} + (if cursor \<in> set (map snd toks) then 0 else 1))",
    simp, goal_cases)
  case (1 toks seen cursor p m)
  let ?left = "\<lambda>seen. {m \<in> set (map snd toks). tm_jti m \<notin> set seen}"
  have m: "m \<in> set (map snd toks)" using 1(4) by (force dest: map_of_SomeD)
  have sub: "?left (tm_jti cursor # seen) \<subseteq> ?left seen" by auto
  show ?case
  proof (cases "cursor \<in> set (map snd toks)")
    case True
    then have "cursor \<in> ?left seen" "cursor \<notin> ?left (tm_jti cursor # seen)" using 1(1) by auto
    then have "card (?left (tm_jti cursor # seen)) < card (?left seen)"
      using sub by (intro psubset_card_mono) auto
    then show ?thesis using m True by simp
  next
    case False
    have "card (?left (tm_jti cursor # seen)) \<le> card (?left seen)" using sub by (intro card_mono) auto
    then show ?thesis using m False by simp
  qed
qed

declare lineage.simps [simp del]

definition hop_of :: "memory_store \<Rightarrow> instant \<Rightarrow> token_metadata list \<Rightarrow> token_metadata \<Rightarrow> chain_hop" where
  "hop_of st now line m = \<lparr>ch_jti = tm_jti m, ch_subject_id = tm_subject_id m,
     ch_display_label = map_option sj_display_label (dget (get_subjects st (map tm_subject_id line)) (tm_subject_id m)),
     ch_scopes = tm_scopes m, ch_depth = tm_depth m, ch_issued_at = tm_issued_at m,
     ch_expires_at = tm_expires_at m, ch_revoked = (tm_jti m \<in> revoked_among st (map tm_jti line)),
     ch_expired = (tm_expires_at m < now)\<rparr>"

definition chain :: "env \<Rightarrow> string \<Rightarrow> chain_hop list fw" where
  "chain e jti = bindP (getsP (\<lambda>w. get_token (w_store w) jti)) (\<lambda>found.
     case found of None \<Rightarrow> raise KeyError
     | Some leaf \<Rightarrow>
       bindP (getsP w_store) (\<lambda>st. bindP (nowP e) (\<lambda>now.
         let line = rev (lineage (ms_tokens st) [] leaf) in ret (map (hop_of st now line) line))))"

definition verify_audit_integrity :: "env \<Rightarrow> integrity_report fw" where
  "verify_audit_integrity e = getsP (\<lambda>w. verify_integrity e (w_store w))"

definition audit_events :: "string option \<Rightarrow> string option \<Rightarrow> int option \<Rightarrow> audit_row list fw" where
  "audit_events act jti limit = getsP (\<lambda>w. find_audit_rows (w_store w) act jti limit)"

definition circuit_state_of :: "env \<Rightarrow> circuit_state fw" where
  "circuit_state_of e = bindP (nowP e) (\<lambda>now. getsP (\<lambda>w. breaker_state (w_config w) now (w_breaker w)))"

definition reset_circuit :: "env \<Rightarrow> unit fw" where
  "reset_circuit e = bindP (circuit_state_of e) (\<lambda>previous.
     bindP (updP (\<lambda>w. w\<lparr>w_breaker := breaker_reset (w_breaker w)\<rparr>)) (\<lambda>_.
     auditP e (blank_event\<lparr>ev_action := ''circuit_reset'', ev_decision := Some ''allow'',
       ev_reason := Some ''break glass: manual circuit reset'',
       ev_detail := Some (JObj [(''was_open'', JBool (cs_open previous)),
         (''previous_reason'', json_of_opt (cs_reason previous))])\<rparr>)))"

definition rate_limit_snapshot :: "env \<Rightarrow> (string, nat) dict fw" where
  "rate_limit_snapshot e = bindP (nowP e) (\<lambda>now. getsP (\<lambda>w. rate_snapshot now (w_rate w)))"

definition close_firewall :: "unit fw" where
  "close_firewall = store_updP close_store"

end
