(* ===== verification/Firewall_Frames.thy ===== *)
theory Firewall_Frames
  imports Firewall_Approvals
begin

text \<open>
  Weakest preconditions of the firewall's calls to its engines, what each of them leaves alone, and
  a small calculus for invariants: \<open>keeps I m\<close> says that program \<open>m\<close> preserves \<open>I\<close> whether it returns
  or raises. The rules of the collection \<open>keep_intro\<close> follow the structure of a program, so a
  preservation proof of a whole method is one call of \<open>auto intro!: keep_intro\<close>.
\<close>

named_theorems keep_intro \<open>structural rules for preserved invariants\<close>

section \<open>Weakest preconditions of the calls\<close>

lemma wp_calls [wp_simps]:
  "wp (nowP e) Q E w = Q (e_clock e (w_tick w)) (tick w)"
  "wp (now_tsP e) Q E w = Q (ts_of (e_clock e (w_tick w))) (tick w)"
  "wp (perfP e) Q E w = Q (e_perf e (w_tick w)) (tick w)"
  "wp (uuidP e) Qs E w = Qs (e_uuid4 e (w_tick w)) (tick w)"
  "wp (auditP e ev) Qu E w = Qu () (log_event e ev w)"
  "wp (circuitP e err sid pol) Qu E w = Qu () (circuit_record e err sid pol w)"
  "wp circuit_checkP Qu E w = (if br_open (w_breaker w) then E (CircuitOpen (br_reason (w_breaker w))) w else Qu () w)"
  "wp (store_updP f) Qu E w = Qu () (w\<lparr>w_store := f (w_store w)\<rparr>)"
  "wp (decodeP e tok) Qc E w = (case tok_decode e (w_config w) (e_clock e (w_tick w)) tok False of
     Inl x \<Rightarrow> E x (tick w) | Inr c \<Rightarrow> Qc c (tick w))"
  by (simp_all add: wp_def nowP_def now_tsP_def perfP_def uuidP_def auditP_def circuitP_def updP_def
      circuit_checkP_def breaker_check_def store_updP_def decodeP_def)

lemma wp_storeP [wp_simps]:
  "wp (storeP m) Q E w = wp m (\<lambda>a s. Q a (w\<lparr>w_store := s\<rparr>)) (\<lambda>x s. E x (w\<lparr>w_store := s\<rparr>)) (w_store w)"
  by (simp add: storeP_def wp_zoomP)

lemma wp_store_ops [wp_simps]:
  "wp (is_revoked j) Qb E st = (if ms_closed st then E StorageError st else Qb (j \<in> mem_revoked st) st)"
  "wp (put_token m) Q E st = (if dget (ms_tokens st) (tm_jti m) \<noteq> None then E StorageError st
     else Q () (st\<lparr>ms_tokens := dset (tm_jti m) m (ms_tokens st)\<rparr>))"
  "wp (update_approval a) Q E st = (if dget (ms_approvals st) (pa_approval_id a) = None then E StorageError st
     else Q () (st\<lparr>ms_approvals := dset (pa_approval_id a) a (ms_approvals st)\<rparr>))"
  "wp (update_review r) Q E st = (if dget (ms_reviews st) (av_review_id r) = None then E StorageError st
     else Q () (st\<lparr>ms_reviews := dset (av_review_id r) r (ms_reviews st)\<rparr>))"
  by (auto simp: wp_def is_revoked_def mem_revoked_def put_token_def update_approval_def update_review_def)

section \<open>Preserved invariants\<close>

definition keeps :: "('s \<Rightarrow> bool) \<Rightarrow> ('s, 'e, 'a) prog \<Rightarrow> bool" where
  "keeps I m \<longleftrightarrow> (\<forall>s. I s \<longrightarrow> I (final m s))"

lemma keeps_wp: "keeps I m \<longleftrightarrow> (\<forall>s. I s \<longrightarrow> wp m (\<lambda>_. I) (\<lambda>_. I) s)"
  by (simp add: keeps_def wp_final)

lemma keepsD: "keeps I m \<Longrightarrow> I s \<Longrightarrow> I (final m s)"
  by (simp add: keeps_def)

lemma keeps_run: "keeps I m \<Longrightarrow> I s \<Longrightarrow> m s = (r, t) \<Longrightarrow> I t"
  by (auto dest: keepsD simp: final_def)

lemma wp_keeps:
  "keeps I m \<Longrightarrow> I s \<Longrightarrow> (\<And>a t. I t \<Longrightarrow> Q a t) \<Longrightarrow> (\<And>x t. I t \<Longrightarrow> E x t) \<Longrightarrow> wp m Q E s"
  by (simp add: keeps_wp, rule wp_mono [where Q = "\<lambda>_. I" and E = "\<lambda>_. I"]) simp_all

lemma keeps_ret [keep_intro]: "keeps I (ret a)"
  by (simp add: keeps_wp wp_simps)

lemma keeps_raise [keep_intro]: "keeps I (raise x)"
  by (simp add: keeps_wp wp_simps)

lemma keeps_getsP [keep_intro]: "keeps I (getsP f)"
  by (simp add: keeps_wp wp_simps)

lemma keeps_liftP [keep_intro]: "keeps I (liftP r)"
  by (simp add: keeps_wp wp_simps split: sum.splits)

lemma keeps_bindP [keep_intro]: "keeps I m \<Longrightarrow> (\<And>a. keeps I (k a)) \<Longrightarrow> keeps I (bindP m k)"
  by (auto simp: keeps_wp wp_simps elim!: wp_mono)

lemma keeps_catchP [keep_intro]: "keeps I m \<Longrightarrow> (\<And>x. keeps I (h x)) \<Longrightarrow> keeps I (catchP m h)"
  by (auto simp: keeps_wp wp_simps elim!: wp_mono)

lemma keeps_whenP [keep_intro]: "(b \<Longrightarrow> keeps I m) \<Longrightarrow> keeps I (whenP b m)"
  by (auto simp: keeps_wp wp_simps)

lemma keeps_if [keep_intro]:
  "(b \<Longrightarrow> keeps I m) \<Longrightarrow> (\<not> b \<Longrightarrow> keeps I n) \<Longrightarrow> keeps I (if b then m else n)"
  by simp

lemma keeps_updP [keep_intro]: "(\<And>s. I s \<Longrightarrow> I (f s)) \<Longrightarrow> keeps I (updP f)"
  by (simp add: keeps_wp wp_simps)

lemma keeps_Let [keep_intro]: "(\<And>x. keeps I (f x)) \<Longrightarrow> keeps I (Let y f)"
  by simp

lemma keeps_case_option [keep_intro]:
  "keeps I m \<Longrightarrow> (\<And>a. keeps I (n a)) \<Longrightarrow> keeps I (case x of None \<Rightarrow> m | Some a \<Rightarrow> n a)"
  by (simp split: option.splits)

lemma keeps_case_sum [keep_intro]:
  "(\<And>x. keeps I (m x)) \<Longrightarrow> (\<And>a. keeps I (n a)) \<Longrightarrow> keeps I (case r of Inl x \<Rightarrow> m x | Inr a \<Rightarrow> n a)"
  by (simp split: sum.splits)

lemma keeps_case_prod [keep_intro]: "(\<And>a b. keeps I (m a b)) \<Longrightarrow> keeps I (case p of (a, b) \<Rightarrow> m a b)"
  by (simp split: prod.splits)

text \<open>What recording an outcome leaves of the breaker: once open it stays open, with the same reason.\<close>

definition stays_open :: "breaker \<Rightarrow> breaker \<Rightarrow> bool" where
  "stays_open br br' \<longleftrightarrow> (br_open br \<longrightarrow> br_open br' \<and> br_reason br' = br_reason br)"

text \<open>An invariant that does not read the tick, the rate buckets or the baselines, and that holds on when
  outcomes are recorded in the breaker and events are logged.\<close>

definition stable :: "env \<Rightarrow> (world \<Rightarrow> bool) \<Rightarrow> bool" where
  "stable e I \<longleftrightarrow> (\<forall>w n. I (w\<lparr>w_tick := n\<rparr>) = I w) \<and> (\<forall>w b. I (w\<lparr>w_rate := b\<rparr>) = I w)
     \<and> (\<forall>w b. I w \<longrightarrow> stays_open (w_breaker w) b \<longrightarrow> I (w\<lparr>w_breaker := b\<rparr>)) \<and> (\<forall>w b. I (w\<lparr>w_anomaly := b\<rparr>) = I w)
     \<and> (\<forall>w ev. I w \<longrightarrow> I (log_event e ev w))"

lemma stable_tick: "stable e I \<Longrightarrow> I (tick w) = I w"
  by (simp add: stable_def tick_def)

lemma keeps_calls [keep_intro]:
  "stable e I \<Longrightarrow> keeps I (nowP e)" "stable e I \<Longrightarrow> keeps I (now_tsP e)"
  "stable e I \<Longrightarrow> keeps I (perfP e)" "stable e I \<Longrightarrow> keeps I (uuidP e)"
  "stable e I \<Longrightarrow> keeps I (auditP e ev)" "keeps I circuit_checkP"
  "stable e I \<Longrightarrow> keeps I (decodeP e tok)"
  by (auto simp: keeps_wp wp_calls stable_tick split: sum.splits) (simp add: stable_def)

lemma keeps_store_updP:
  "(\<And>w. I w \<Longrightarrow> I (w\<lparr>w_store := f (w_store w)\<rparr>)) \<Longrightarrow> keeps I (store_updP f)"
  by (simp add: keeps_wp wp_calls)

lemma breaker_record_stays_open: "stays_open br (snd (breaker_record c err s pol now br))"
  by (auto simp: stays_open_def breaker_record_def Let_def split: option.splits)

lemma keeps_circuitP [keep_intro]: "stable e I \<Longrightarrow> keeps I (circuitP e err sid pol)"
proof -
  assume I: "stable e I"
  have "I (circuit_record e err sid pol w)" if w: "I w" for w
  proof -
    obtain tripped br where r: "breaker_record (w_config w) err sid pol (e_clock e (w_tick w)) (w_breaker w) = (tripped, br)"
      by fastforce
    then have "stays_open (w_breaker w) br" by (metis breaker_record_stays_open snd_conv)
    moreover have "w_breaker (tick w) = w_breaker w" by (simp add: tick_def)
    ultimately have "I ((tick w)\<lparr>w_breaker := br\<rparr>)" using I w stable_tick [OF I] unfolding stable_def by metis
    then show ?thesis using I by (simp add: circuit_record_def Let_def r stable_def split: option.splits)
  qed
  then show ?thesis by (simp add: keeps_wp wp_calls)
qed

lemma keeps_rateP [keep_intro]: "stable e I \<Longrightarrow> keeps I (rateP e sid act)"
  by (auto simp: keeps_def final_def rateP_def stable_def tick_def split: prod.splits)

lemma keeps_observeP [keep_intro]: "stable e I \<Longrightarrow> keeps I (observeP e sid n)"
  by (auto simp: keeps_def final_def observeP_def stable_def tick_def split: prod.splits)

lemma keeps_storeP [keep_intro]:
  "(\<And>w r st. I w \<Longrightarrow> m (w_store w) = (r, st) \<Longrightarrow> I (w\<lparr>w_store := st\<rparr>)) \<Longrightarrow> keeps I (storeP m)"
  by (auto simp: keeps_def final_def storeP_def zoomP_def split: prod.splits)

lemma keeps_is_revoked [keep_intro]: "keeps I (storeP (is_revoked j))"
  by (rule keeps_storeP) (auto simp: is_revoked_def split: if_splits)

lemma keeps_any_revoked [keep_intro]: "keeps I (any_revoked js)"
  by (induction js) (auto intro!: keep_intro)

text \<open>The methods that write no record of their own.\<close>

lemma keeps_readers [keep_intro]:
  assumes "stable e I"
  shows "keeps I (decode_live e tok)" "keeps I (assert_root_alive e c)"
    "keeps I (verify_deny e t c s r)" "keeps I (verify e tk s)" "keeps I (require e tk s)"
    "keeps I (mint_childP e p s sc x a b)"
proof -
  show d: "keeps I (verify_deny e t c s r)" for t c s r
    unfolding verify_deny_def using assms by (intro keep_intro)
  show v: "keeps I (verify e tk s)"
    unfolding verify_def verify_claims_def using assms by (intro keep_intro d)
  show "keeps I (require e tk s)" unfolding require_def using assms by (intro keep_intro v)
qed (unfold decode_live_def assert_root_alive_def mint_childP_def, (intro keep_intro assms)+)

section \<open>Which exceptions a program raises\<close>

named_theorems throw_intro \<open>structural rules for the exceptions a program may raise\<close>

definition throws :: "('e \<Rightarrow> bool) \<Rightarrow> ('s, 'e, 'a) prog \<Rightarrow> bool" where
  "throws P m \<longleftrightarrow> (\<forall>s. wp m (\<lambda>_ _. True) (\<lambda>x _. P x) s)"

lemma throws_ret [throw_intro]: "throws P (ret a)"
  by (simp add: throws_def wp_simps)

lemma throws_raise [throw_intro]: "P x \<Longrightarrow> throws P (raise x)"
  by (simp add: throws_def wp_simps)

lemma throws_getsP [throw_intro]: "throws P (getsP f)"
  by (simp add: throws_def wp_simps)

lemma throws_updP [throw_intro]: "throws P (updP f)"
  by (simp add: throws_def wp_simps)

lemma throws_bindP [throw_intro]: "throws P m \<Longrightarrow> (\<And>a. throws P (k a)) \<Longrightarrow> throws P (bindP m k)"
  by (auto simp: throws_def wp_simps elim!: wp_mono)

lemma throws_catchP [throw_intro]: "(\<And>x. throws P (h x)) \<Longrightarrow> throws P (catchP m h)"
  by (auto simp: throws_def wp_catchP intro: wp_mono [OF wp_trivial])

lemma throws_if [throw_intro]: "(b \<Longrightarrow> throws P m) \<Longrightarrow> (\<not> b \<Longrightarrow> throws P n) \<Longrightarrow> throws P (if b then m else n)"
  by simp

lemma throws_Let [throw_intro]: "(\<And>x. throws P (f x)) \<Longrightarrow> throws P (Let y f)"
  by simp

lemma throws_case_option [throw_intro]:
  "throws P m \<Longrightarrow> (\<And>a. throws P (n a)) \<Longrightarrow> throws P (case x of None \<Rightarrow> m | Some a \<Rightarrow> n a)"
  by (simp split: option.splits)

lemma throws_calls [throw_intro]:
  "throws P (nowP e)" "throws P (now_tsP e)" "throws P (perfP e)" "throws P (uuidP e)"
  "throws P (auditP e ev)" "throws P (circuitP e err sid pol)" "throws P (store_updP f)" "throws P (observeP e who n)"
  by (auto simp: throws_def wp_calls) (auto simp: wp_def observeP_def split: prod.splits)

lemma throws_storeP [throw_intro]: "throws P m \<Longrightarrow> throws P (storeP m)"
  by (auto simp: throws_def wp_storeP elim: wp_mono)

lemma throws_store_ops [throw_intro]:
  "P StorageError \<Longrightarrow> throws P (is_revoked j)" "P StorageError \<Longrightarrow> throws P (put_token m)"
  "P StorageError \<Longrightarrow> throws P (update_approval a)" "P KeyError \<Longrightarrow> throws P (get_or_create_subject u n h k l)"
  by (auto simp: throws_def wp_store_ops) (auto simp: wp_def get_or_create_subject_def Let_def split: option.splits)

lemma throws_any_revoked [throw_intro]: "P StorageError \<Longrightarrow> throws P (any_revoked js)"
  by (induction js) (auto intro!: throw_intro)

lemma throws_checks [throw_intro]:
  "(\<And>r. P (CircuitOpen r)) \<Longrightarrow> throws P circuit_checkP"
  "(\<And>l. P (RateLimitExceeded s l WINDOW_SECONDS)) \<Longrightarrow> throws P (rateP e s act)"
  by (auto simp: throws_def wp_calls) (auto simp: wp_def rateP_def rate_check_def Let_def split: prod.splits if_splits)

lemma wp_keeps_throws:
  assumes "keeps I m" and "throws P m" and "I s" and "\<And>a t. I t \<Longrightarrow> Q a t" and "\<And>x t. I t \<Longrightarrow> P x \<Longrightarrow> E x t"
  shows "wp m Q E s"
proof -
  have "wp m (\<lambda>_ t. I t \<and> True) (\<lambda>x t. I t \<and> P x) s"
    using assms(1,2,3) by (intro wp_conj) (simp_all add: keeps_wp throws_def)
  then show ?thesis by (rule wp_mono) (use assms in auto)
qed

lemma wp_bind_keeps:
  "keeps I m \<Longrightarrow> throws P m \<Longrightarrow> I s \<Longrightarrow> (\<And>a t. I t \<Longrightarrow> wp (k a) Q E t) \<Longrightarrow>
   (\<And>x t. I t \<Longrightarrow> P x \<Longrightarrow> E x t) \<Longrightarrow> wp (bindP m k) Q E s"
  unfolding wp_bindP by (rule wp_keeps_throws)

lemma wp_bind: "wp m (\<lambda>a t. wp (k a) Q E t) E s \<Longrightarrow> wp (bindP m k) Q E s"
  unfolding wp_bindP .

end
