(* ===== verification/Firewall_Runs.thy ===== *)
theory Firewall_Runs
  imports Firewall_Frames
begin

text \<open>
  Runs of a firewall: any sequence of calls of its public methods, with any arguments (tokens an
  adversary made up included), whatever each call returned or raised. The section on invariants
  shows once, for every method, that a predicate kept by each single write is respected by the
  method; the properties at the end are instances of it.
\<close>

section \<open>Calls and runs\<close>

datatype op =
    OpMintRoot string "string list" "int option" "int option"
  | OpDelegate string string "string list" "int option"
  | OpVerify "string option" string
  | OpRequire "string option" string
  | OpEnter string string string "reversibility option"
  | OpExit action_handle claims "string option"
  | OpRevoke string "string option"
  | OpPendingReviews bool bool
  | OpResolve string string string
  | OpApprove string string
  | OpDeny string string "string option"
  | OpCollect string
  | OpPendingApprovals
  | OpExpire
  | OpChain string
  | OpIntegrity
  | OpAuditEvents "string option" "string option" "int option"
  | OpCircuitState
  | OpResetCircuit
  | OpSnapshot
  | OpClose

definition discard :: "'a fw \<Rightarrow> unit fw" where
  "discard m = bindP m (\<lambda>_. ret ())"

fun run_op :: "env \<Rightarrow> op \<Rightarrow> unit fw" where
  "run_op e (OpMintRoot s sc ttl d) = discard (mint_root e s sc ttl d)"
| "run_op e (OpDelegate tok to sc ttl) = discard (delegate e tok to sc ttl)"
| "run_op e (OpVerify tok s) = discard (verify e tok s)"
| "run_op e (OpRequire tok s) = discard (require e tok s)"
| "run_op e (OpEnter tok s n r) = discard (action_enter e tok s n r)"
| "run_op e (OpExit h c x) = action_exit e h c x"
| "run_op e (OpRevoke j r) = discard (revoke e j r)"
| "run_op e (OpPendingReviews a b) = discard (pending_reviews a b)"
| "run_op e (OpResolve i n b) = discard (resolve_review e i n b)"
| "run_op e (OpApprove i a) = discard (approve e i a)"
| "run_op e (OpDeny i a r) = deny e i a r"
| "run_op e (OpCollect i) = discard (collect e i)"
| "run_op e OpPendingApprovals = discard (pending_approvals e)"
| "run_op e OpExpire = discard (expire_stale_approvals e)"
| "run_op e (OpChain j) = discard (chain e j)"
| "run_op e OpIntegrity = discard (verify_audit_integrity e)"
| "run_op e (OpAuditEvents a j l) = discard (audit_events a j l)"
| "run_op e OpCircuitState = discard (circuit_state_of e)"
| "run_op e OpResetCircuit = reset_circuit e"
| "run_op e OpSnapshot = discard (rate_limit_snapshot e)"
| "run_op e OpClose = close_firewall"

definition run_ops :: "env \<Rightarrow> op list \<Rightarrow> world \<Rightarrow> world" where
  "run_ops e ops w = fold (\<lambda>p. final (run_op e p)) ops w"

lemma run_ops_append: "run_ops e (ps @ qs) w = run_ops e qs (run_ops e ps w)"
  by (simp add: run_ops_def)

lemma run_ops_Nil [simp]: "run_ops e [] w = w"
  by (simp add: run_ops_def)

lemma run_ops_Cons: "run_ops e (p # ps) w = run_ops e ps (final (run_op e p) w)"
  by (simp add: run_ops_def)

section \<open>Invariants of every method\<close>

text \<open>A predicate that each single write of a method leaves true, the closing of the breaker by
  \<open>reset_circuit\<close> apart; \<open>safe_inv\<close> includes that one.\<close>

definition safe_calls :: "env \<Rightarrow> (world \<Rightarrow> bool) \<Rightarrow> bool" where
  "safe_calls e I \<longleftrightarrow> stable e I \<and> (\<forall>w c. I (w\<lparr>w_config := c\<rparr>) = I w)
     \<and> (\<forall>m. keeps I (storeP (put_token m))) \<and> (\<forall>p c. keeps I (store_updP (add_edge p c)))
     \<and> (\<forall>x js. keeps I (store_updP (\<lambda>st. snd (revoke_many x js st))))
     \<and> (\<forall>u n h k l. keeps I (storeP (get_or_create_subject u n h k l)))
     \<and> (\<forall>a. keeps I (store_updP (put_approval a))) \<and> (\<forall>a. keeps I (storeP (update_approval a)))
     \<and> (\<forall>a. keeps I (storeP (put_action a)))
     \<and> (\<forall>i s t f. keeps I (store_updP (\<lambda>st. snd (close_action i s t f st))))
     \<and> (\<forall>v. keeps I (store_updP (put_review v))) \<and> (\<forall>v. keeps I (storeP (update_review v)))
     \<and> keeps I (store_updP close_store)"

lemma safe_stable [simp]: "safe_calls e I \<Longrightarrow> stable e I"
  by (simp add: safe_calls_def)

lemma safe_writes [keep_intro]:
  assumes "safe_calls e I"
  shows "keeps I (storeP (put_token m))" "keeps I (store_updP (add_edge p c))"
    "keeps I (store_updP (\<lambda>st. snd (revoke_many x js st)))"
    "keeps I (storeP (update_approval a))" "keeps I (store_updP (put_approval a))"
    "keeps I (store_updP (\<lambda>st. snd (close_action i s t f st)))"
    "keeps I (store_updP (put_review v))" "keeps I (storeP (update_review v))"
    "keeps I (store_updP close_store)" "keeps I (storeP (put_action b))"
  using assms unfolding safe_calls_def by blast+

lemma safe_get_subject [keep_intro]:
  "safe_calls e I \<Longrightarrow> keeps I (storeP (get_or_create_subject u n h k l))"
  by (simp add: safe_calls_def)

lemma safe_config [keep_intro]: "safe_calls e I \<Longrightarrow> keeps I (updP (\<lambda>w. w\<lparr>w_config := f w\<rparr>))"
  by (auto simp: safe_calls_def intro!: keeps_updP)

lemma keeps_discard [keep_intro]: "keeps I m \<Longrightarrow> keeps I (discard m)"
  by (simp add: discard_def keep_intro)

lemma safe_helpers [keep_intro]:
  assumes I: "safe_calls e I"
  shows "keeps I (resolve_subject e i k)" "keeps I (persist_token c p)"
    "keeps I (decide_approval e a s b cj ct)" "keeps I (close_handle e h cl cs f)"
  unfolding resolve_subject_def persist_token_def decide_approval_def close_handle_def
  using I by (auto intro!: keep_intro)

lemma safe_pending [keep_intro]:
  assumes I: "safe_calls e I"
  shows "keeps I (load_pending e i)" "keeps I (park_for_approval e pc to sc ttl sens)"
  unfolding load_pending_def park_for_approval_def
  using I by (auto intro!: keep_intro)

lemma safe_queue_loop [keep_intro]: "safe_calls e I \<Longrightarrow> keeps I (queue_loop e t j already as)"
  by (induction as) (auto intro!: keep_intro)

lemma safe_expire_loop [keep_intro]: "safe_calls e I \<Longrightarrow> keeps I (expire_loop e t rs)"
  by (induction rs) (auto intro!: keep_intro)

lemma safe_methods:
  assumes I: "safe_calls e I"
  shows "keeps I (mint_root e s sc ttl d)" "keeps I (delegate e tok to sc ttl)"
    "keeps I (action_enter e tk s n r)" "keeps I (action_exit e h c x)" "keeps I (revoke e j rr)"
    "keeps I (pending_reviews b1 b2)" "keeps I (resolve_review e i nt by)"
proof -
  show "keeps I (mint_root e s sc ttl d)" unfolding mint_root_def using I by (auto intro!: keep_intro)
  show "keeps I (delegate e tok to sc ttl)" unfolding delegate_def delegate_granted_def delegate_issue_def using I by (auto intro!: keep_intro)
  show "keeps I (action_enter e tk s n r)" unfolding action_enter_def using I by (auto intro!: keep_intro)
  show "keeps I (action_exit e h c x)" unfolding action_exit_def using I by (auto intro!: keep_intro)
  show "keeps I (revoke e j rr)" unfolding revoke_def queue_reviews_def using I by (auto intro!: keep_intro)
  show "keeps I (pending_reviews b1 b2)" unfolding pending_reviews_def by (auto intro!: keep_intro)
  show "keeps I (resolve_review e i nt by)" unfolding resolve_review_def using I by (auto intro!: keep_intro)
qed

lemma safe_approvals:
  assumes I: "safe_calls e I"
  shows "keeps I (approve e i a)" "keeps I (deny e i a r)" "keeps I (collect e i)"
    "keeps I (expire_stale_approvals e)" "keeps I (pending_approvals e)" "keeps I (chain e j)"
    "keeps I (circuit_state_of e)" "keeps I (rate_limit_snapshot e)"
    "keeps I close_firewall" "keeps I (verify_audit_integrity e)" "keeps I (audit_events ea ej el)"
proof -
  have meta: "keeps I (\<lambda>w. (claims_from_metadata (w_config w) m, w))" for m
    by (simp add: keeps_def final_def)
  show "keeps I (approve e i a)" unfolding approve_def approve_issue_def using I by (auto intro!: keep_intro meta)
  show "keeps I (deny e i a r)" unfolding deny_def using I by (auto intro!: keep_intro)
  show "keeps I (collect e i)" unfolding collect_def using I by (auto intro!: keep_intro)
  show x: "keeps I (expire_stale_approvals e)" unfolding expire_stale_approvals_def using I by (auto intro!: keep_intro)
  show "keeps I (pending_approvals e)" unfolding pending_approvals_def using I by (auto intro!: keep_intro x)
  show "keeps I (chain e j)" unfolding chain_def using I by (auto intro!: keep_intro)
  show "keeps I (circuit_state_of e)" unfolding circuit_state_of_def using I by (auto intro!: keep_intro)
  show "keeps I (rate_limit_snapshot e)" unfolding rate_limit_snapshot_def using I by (auto intro!: keep_intro)
  show "keeps I close_firewall" unfolding close_firewall_def using I by (auto intro!: keep_intro)
qed (unfold verify_audit_integrity_def audit_events_def, (rule keep_intro)+)

lemma safe_op: "safe_calls e I \<Longrightarrow> p \<noteq> OpResetCircuit \<Longrightarrow> keeps I (run_op e p)"
  by (cases p) (auto intro!: keeps_discard safe_methods safe_approvals keeps_readers(4,5))

definition safe_inv :: "env \<Rightarrow> (world \<Rightarrow> bool) \<Rightarrow> bool" where
  "safe_inv e I \<longleftrightarrow> safe_calls e I \<and> (\<forall>w b. I (w\<lparr>w_breaker := b\<rparr>) = I w)"

lemma safe_inv_op:
  assumes "safe_inv e I"
  shows "keeps I (run_op e p)"
proof (cases "p = OpResetCircuit")
  case True
  have I: "safe_calls e I" using assms by (simp add: safe_inv_def)
  have b: "keeps I (updP (\<lambda>w. w\<lparr>w_breaker := f w\<rparr>))" for f
    using assms by (auto simp: safe_inv_def intro!: keeps_updP)
  show ?thesis unfolding True run_op.simps reset_circuit_def using I
    by (auto intro!: keep_intro b safe_approvals(7))
qed (use assms safe_op in \<open>simp add: safe_inv_def\<close>)

text \<open>The rules for runs: what every write keeps, every run keeps.\<close>

lemma run_ops_invariant: "safe_inv e I \<Longrightarrow> I w \<Longrightarrow> I (run_ops e ops w)"
  by (induction ops arbitrary: w) (auto simp: run_ops_Cons dest: safe_inv_op keepsD)

lemma run_ops_without_reset: "safe_calls e I \<Longrightarrow> OpResetCircuit \<notin> set ops \<Longrightarrow> I w \<Longrightarrow> I (run_ops e ops w)"
proof (induction ops arbitrary: w)
  case (Cons p ops)
  then have "keeps I (run_op e p)" by (intro safe_op) auto
  then have "I (final (run_op e p) w)" using Cons.prems(3) by (rule keepsD)
  with Cons show ?case by (simp add: run_ops_Cons)
qed simp

section \<open>The writes\<close>

lemma log_event_frame [frame_simps]:
  "w_config (log_event e ev w) = w_config w" "w_rate (log_event e ev w) = w_rate w"
  "w_breaker (log_event e ev w) = w_breaker w" "w_anomaly (log_event e ev w) = w_anomaly w"
  "w_tick (log_event e ev w) = Suc (w_tick w)"
  "ms_tokens (w_store (log_event e ev w)) = ms_tokens (w_store w)"
  "ms_edges (w_store (log_event e ev w)) = ms_edges (w_store w)"
  "ms_revoked (w_store (log_event e ev w)) = ms_revoked (w_store w)"
  "ms_subjects (w_store (log_event e ev w)) = ms_subjects (w_store w)"
  "ms_subject_by_hash (w_store (log_event e ev w)) = ms_subject_by_hash (w_store w)"
  "ms_approvals (w_store (log_event e ev w)) = ms_approvals (w_store w)"
  "ms_actions (w_store (log_event e ev w)) = ms_actions (w_store w)"
  "ms_actions_by_jti (w_store (log_event e ev w)) = ms_actions_by_jti (w_store w)"
  "ms_reviews (w_store (log_event e ev w)) = ms_reviews (w_store w)"
  "ms_closed (w_store (log_event e ev w)) = ms_closed (w_store w)"
  by (simp_all add: log_event_def Let_def log_one_def frame_simps tick_def)

text \<open>A write leaves the audit rows alone and forgets no token and no revocation.\<close>

definition grows :: "memory_store \<Rightarrow> memory_store \<Rightarrow> bool" where
  "grows st st' \<longleftrightarrow> ms_audit st' = ms_audit st \<and> map_of (ms_tokens st) \<subseteq>\<^sub>m map_of (ms_tokens st')
     \<and> map_of (ms_revoked st) \<subseteq>\<^sub>m map_of (ms_revoked st')"

lemma grows_writes:
  "put_token m st = (r, st') \<Longrightarrow> grows st st'"
  "grows st (add_edge p c st)"
  "get_or_create_subject u n h k l st = (r2, st') \<Longrightarrow> grows st st'"
  "grows st (put_approval a st)"
  "update_approval a st = (r, st') \<Longrightarrow> grows st st'"
  "put_action b st = (r, st') \<Longrightarrow> grows st st'"
  "grows st (snd (close_action i s t f st))"
  "grows st (put_review v st)"
  "update_review v st = (r, st') \<Longrightarrow> grows st st'"
  "grows st (close_store st)"
  by (auto simp: grows_def put_token_def add_edge_def get_or_create_subject_def put_approval_def
      update_approval_def put_action_def close_action_def put_review_def update_review_def close_store_def
      Let_def map_le_def split: if_splits option.splits)

lemma revoke_many_le: "map_of (ms_revoked st) \<subseteq>\<^sub>m map_of (ms_revoked (snd (revoke_many x js st)))"
proof (induction x js st rule: revoke_many.induct)
  case (2 rj reason now j js st)
  show ?case
  proof (cases "dget (ms_revoked st) j \<noteq> None")
    case False
    let ?st = "st\<lparr>ms_revoked := dset j \<lparr>rv_jti = j, rv_revoked_at = now, rv_root = rj, rv_reason = reason\<rparr>
        (ms_revoked st)\<rparr>"
    have le1: "map_of (ms_revoked st) \<subseteq>\<^sub>m map_of (ms_revoked ?st)"
      using False by (auto simp: map_le_def)
    have le2: "map_of (ms_revoked ?st) \<subseteq>\<^sub>m map_of (ms_revoked (snd (revoke_many (rj, reason, now) js ?st)))"
      using 2(2) [OF False refl] .
    have step: "snd (revoke_many (rj, reason, now) (j # js) st) = snd (revoke_many (rj, reason, now) js ?st)"
      using False by (simp add: Let_def split: prod.splits)
    show ?thesis unfolding step by (rule map_le_trans [OF le1 le2])
  qed (use 2 in simp)
qed simp

lemma grows_revoke_many: "grows st (snd (revoke_many x js st))"
proof -
  have "ms_audit (snd (revoke_many x js st)) = ms_audit st" "ms_tokens (snd (revoke_many x js st)) = ms_tokens st"
    using revoke_many_spec [of x js st] by auto
  then show ?thesis using revoke_many_le by (simp add: grows_def)
qed

lemma safe_inv_history:
  assumes I: "I = (\<lambda>w. P (w_tail w) (ms_audit (w_store w)) (map_of (ms_tokens (w_store w))) (map_of (ms_revoked (w_store w))))"
    and mono: "\<And>t a T T' R R'. P t a T R \<Longrightarrow> T \<subseteq>\<^sub>m T' \<Longrightarrow> R \<subseteq>\<^sub>m R' \<Longrightarrow> P t a T' R'"
    and logs: "\<And>evs t st T R. P t (ms_audit st) T R \<Longrightarrow>
      P (fst (log_batch e evs (t, st))) (ms_audit (snd (log_batch e evs (t, st)))) T R"
  shows "safe_inv e I"
proof -
  have upd: "I w \<Longrightarrow> grows (w_store w) st \<Longrightarrow> I (w\<lparr>w_store := st\<rparr>)" for w st
    using mono by (auto simp: I grows_def)
  have "I w \<Longrightarrow> I (log_event e ev w)" for w ev
    using logs [of "w_tail w" "w_store w"] by (simp add: I log_event_def Let_def log_one_def frame_simps)
  then have "stable e I" by (simp add: stable_def I)
  moreover have "I (w\<lparr>w_config := c\<rparr>) = I w" for w c by (simp add: I)
  moreover have "keeps I (storeP (put_token m))" for m by (rule keeps_storeP) (erule upd, erule grows_writes)
  moreover have "keeps I (store_updP (add_edge p c))" for p c by (rule keeps_store_updP) (erule upd, rule grows_writes)
  moreover have "keeps I (store_updP (\<lambda>st. snd (revoke_many x js st)))" for x js by (rule keeps_store_updP) (erule upd, rule grows_revoke_many)
  moreover have "keeps I (storeP (get_or_create_subject u n h k l))" for u n h k l by (rule keeps_storeP) (erule upd, erule grows_writes)
  moreover have "keeps I (store_updP (put_approval a))" for a by (rule keeps_store_updP) (erule upd, rule grows_writes)
  moreover have "keeps I (storeP (update_approval a))" for a by (rule keeps_storeP) (erule upd, erule grows_writes)
  moreover have "keeps I (storeP (put_action a))" for a by (rule keeps_storeP) (erule upd, erule grows_writes)
  moreover have "keeps I (store_updP (\<lambda>st. snd (close_action i s t f st)))" for i s t f by (rule keeps_store_updP) (erule upd, rule grows_writes)
  moreover have "keeps I (store_updP (put_review v))" for v by (rule keeps_store_updP) (erule upd, rule grows_writes)
  moreover have "keeps I (storeP (update_review v))" for v by (rule keeps_storeP) (erule upd, erule grows_writes)
  moreover have "keeps I (store_updP (close_store))" by (rule keeps_store_updP) (erule upd, rule grows_writes)
  ultimately show ?thesis unfolding safe_inv_def safe_calls_def by (intro conjI allI) (simp_all add: I)
qed

lemma safe_audit: "safe_inv e (\<lambda>w. audit_ok e (w_tail w, w_store w))"
proof (rule safe_inv_history [where P = "\<lambda>t a T R. audit_ok e (t, empty_store\<lparr>ms_audit := a\<rparr>)"])
  fix evs t and st :: memory_store
  assume "audit_ok e (t, empty_store\<lparr>ms_audit := ms_audit st\<rparr>)"
  then have "audit_ok e (t, st)" by (simp add: audit_ok_def)
  from audit_ok_log [OF this, of evs]
  show "audit_ok e (fst (log_batch e evs (t, st)), empty_store\<lparr>ms_audit := ms_audit (snd (log_batch e evs (t, st)))\<rparr>)"
    by (simp add: audit_ok_def)
qed (simp_all add: audit_ok_def)

lemma safe_history:
  "safe_inv e (\<lambda>w. prefix a (ms_audit (w_store w)) \<and> T \<subseteq>\<^sub>m map_of (ms_tokens (w_store w))
     \<and> R \<subseteq>\<^sub>m map_of (ms_revoked (w_store w)))"
proof (rule safe_inv_history [where P = "\<lambda>t a' T' R'. prefix a a' \<and> T \<subseteq>\<^sub>m T' \<and> R \<subseteq>\<^sub>m R'"])
  fix evs t T' R' and st :: memory_store assume "prefix a (ms_audit st) \<and> T \<subseteq>\<^sub>m T' \<and> R \<subseteq>\<^sub>m R'"
  then show "prefix a (ms_audit (snd (log_batch e evs (t, st)))) \<and> T \<subseteq>\<^sub>m T' \<and> R \<subseteq>\<^sub>m R'"
    using log_batch_appends [of "(t, st)" e evs] by (auto intro: prefix_order.trans)
qed (auto intro: map_le_trans)

text \<open>An invariant of the store alone that every write keeps.\<close>

lemma safe_inv_store:
  assumes "\<And>m st r st'. J st \<Longrightarrow> put_token m st = (r, st') \<Longrightarrow> J st'"
    and "\<And>p c st. J st \<Longrightarrow> J (add_edge p c st)" "\<And>x js st. J st \<Longrightarrow> J (snd (revoke_many x js st))"
    and "\<And>u n h k l st r st'. J st \<Longrightarrow> get_or_create_subject u n h k l st = (r, st') \<Longrightarrow> J st'"
    and "\<And>a st. J st \<Longrightarrow> J (put_approval a st)" "\<And>a st r st'. J st \<Longrightarrow> update_approval a st = (r, st') \<Longrightarrow> J st'"
    and "\<And>a st r st'. J st \<Longrightarrow> put_action a st = (r, st') \<Longrightarrow> J st'" "\<And>i s t f st. J st \<Longrightarrow> J (snd (close_action i s t f st))"
    and "\<And>v st. J st \<Longrightarrow> J (put_review v st)" "\<And>v st r st'. J st \<Longrightarrow> update_review v st = (r, st') \<Longrightarrow> J st'"
    and "\<And>st. J st \<Longrightarrow> J (close_store st)" "\<And>evs t st. J st \<Longrightarrow> J (snd (log_batch e evs (t, st)))"
  shows "safe_inv e (\<lambda>w. J (w_store w))"
proof -
  have "J (w_store (log_event e ev w))" if "J (w_store w)" for ev w
    using assms(12) [OF that] by (simp add: log_event_def Let_def log_one_def)
  then have st: "stable e (\<lambda>w. J (w_store w))" by (simp add: stable_def)
  have q: "keeps (\<lambda>w. J (w_store w)) (storeP m)"
    if "\<And>st r st'. J st \<Longrightarrow> m st = (r, st') \<Longrightarrow> J st'" for m :: "(memory_store, agp_error, 'x) prog"
    by (rule keeps_storeP) (simp, erule (1) that)
  have u: "keeps (\<lambda>w. J (w_store w)) (store_updP f)" if "\<And>st. J st \<Longrightarrow> J (f st)" for f
    by (rule keeps_store_updP) (simp add: that)
  show ?thesis unfolding safe_inv_def safe_calls_def
    using st by (auto intro!: q u assms(2,3,5,8,9,11) intro: assms(1,4,6,7,10))
qed

text \<open>The store of a firewall stays consistent.\<close>

lemma mem_ok_run: "mem_ok (w_store w) \<Longrightarrow> mem_ok (w_store (run_ops e ops w))"
proof (rule run_ops_invariant [where I = "\<lambda>w. mem_ok (w_store w)"], rule safe_inv_store)
  show "mem_ok (snd (log_batch e evs (t, st)))" if "mem_ok st" for evs t st
    using that by (simp add: log_batch_def Let_def split: prod.splits)
qed (auto intro: mem_ok_put_token mem_ok_put_approval mem_ok_update_approval mem_ok_put_action mem_ok_close_action
    mem_ok_put_review mem_ok_update_review simp: mem_ok_revoke_many dest: mem_ok_subject)

section \<open>Properties\<close>

text \<open>C17: the audit log of a firewall is intact after any sequence of calls, whatever their arguments
  and outcomes, exceptions in the middle of a method included: integrity verification succeeds.\<close>

theorem audit_log_always_intact:
  "ir_intact (verify_integrity e (w_store (run_ops e ops (new_firewall cfg))))"
proof -
  have "audit_ok e (w_tail (new_firewall cfg), w_store (new_firewall cfg))"
    using audit_ok_empty by (simp add: new_firewall_def)
  from run_ops_invariant [OF safe_audit this, of ops]
  show ?thesis by (simp add: audit_ok_def verify_integrity_def iter_audit_rows_def verify_rows_intact)
qed

text \<open>C23: history is permanent. No sequence of calls removes or rewrites an audit row, alters or drops
  the record of a token, or un-revokes a token or rewrites the time, root or reason of its revocation.\<close>

theorem history_is_permanent:
  "prefix (ms_audit (w_store w)) (ms_audit (w_store (run_ops e ops w)))
   \<and> map_of (ms_tokens (w_store w)) \<subseteq>\<^sub>m map_of (ms_tokens (w_store (run_ops e ops w)))
   \<and> map_of (ms_revoked (w_store w)) \<subseteq>\<^sub>m map_of (ms_revoked (w_store (run_ops e ops w)))"
  by (rule run_ops_invariant [OF safe_history]) simp

end
