(* ===== verification/Ledger.thy ===== *)
theory Ledger
  imports Firewall_Runs
begin

text \<open>
  The abstract specification of what a firewall promises about capabilities: a ledger of tokens,
  delegation edges, revocations and approval requests, and the five steps by which it may change.
  The invariant \<open>lg_inv\<close> of reachable ledgers gives the guarantees about whole delegation chains. That
  the methods of the firewall only ever make these steps is shown in \<open>Firewall_Refines\<close>.
\<close>

section \<open>Ledgers and their steps\<close>

record ledger =
  lg_tokens :: "string \<rightharpoonup> token_metadata"
  lg_edges :: "(string \<times> string) set"
  lg_revoked :: "string set"
  lg_approvals :: "string \<rightharpoonup> pending_approval"

definition chain_jtis :: "token_metadata \<Rightarrow> string list" where
  "chain_jtis m = map (\<lambda>j. case entry_from_dict j of Some en \<Rightarrow> ce_jti en | None \<Rightarrow> '''') (tm_delegation_chain m)"

text \<open>The child is a narrowing of the parent it names.\<close>

definition narrower :: "token_metadata \<Rightarrow> token_metadata \<Rightarrow> bool" where
  "narrower cm pm \<longleftrightarrow> set (tm_scopes cm) \<subseteq> set (tm_scopes pm) \<and> tm_expires_at cm \<le> tm_expires_at pm
     \<and> tm_depth cm = tm_depth pm + 1 \<and> tm_depth cm \<le> tm_max_depth cm \<and> tm_max_depth cm = tm_max_depth pm
     \<and> tm_root_jti cm = tm_root_jti pm \<and> chain_jtis cm = chain_jtis pm @ [tm_jti pm]
     \<and> tm_parent_jti cm = Some (tm_jti pm)"

definition is_root_meta :: "token_metadata \<Rightarrow> bool" where
  "is_root_meta m \<longleftrightarrow> tm_parent_jti m = None \<and> tm_depth m = 0 \<and> tm_root_jti m = tm_jti m
     \<and> chain_jtis m = [] \<and> 1 \<le> tm_max_depth m"

text \<open>A pending request asks for no more than its parent holds.\<close>

definition covered :: "pending_approval \<Rightarrow> token_metadata \<Rightarrow> bool" where
  "covered a pm \<longleftrightarrow> set (pa_requested_scopes a) \<subseteq> set (tm_scopes pm) \<and> from_ts (pa_parent_exp a) = tm_expires_at pm
     \<and> tm_depth pm + 1 \<le> tm_max_depth pm"

inductive ledger_step :: "ledger \<Rightarrow> ledger \<Rightarrow> bool" where
  Mint: "is_root_meta m \<Longrightarrow> lg_tokens l (tm_jti m) = None \<Longrightarrow>
    ledger_step l (l\<lparr>lg_tokens := (lg_tokens l)(tm_jti m \<mapsto> m)\<rparr>)"
| Delegate: "lg_tokens l p = Some pm \<Longrightarrow> p \<notin> lg_revoked l \<Longrightarrow> narrower cm pm \<Longrightarrow>
    lg_tokens l (tm_jti cm) = None \<Longrightarrow>
    ledger_step l (l\<lparr>lg_tokens := (lg_tokens l)(tm_jti cm \<mapsto> cm), lg_edges := insert (p, tm_jti cm) (lg_edges l)\<rparr>)"
| Park: "lg_tokens l (pa_parent_jti a) = Some pm \<Longrightarrow> covered a pm \<Longrightarrow> is_pending a \<Longrightarrow>
    ledger_step l (l\<lparr>lg_approvals := (lg_approvals l)(pa_approval_id a \<mapsto> a)\<rparr>)"
| Decide: "lg_approvals l (pa_approval_id a) = Some a' \<Longrightarrow> \<not> is_pending a \<Longrightarrow>
    ledger_step l (l\<lparr>lg_approvals := (lg_approvals l)(pa_approval_id a \<mapsto> a)\<rparr>)"
| Revoke: "ledger_step l (l\<lparr>lg_revoked := lg_revoked l \<union> (lg_edges l)\<^sup>* `` {j}\<rparr>)"

inductive_cases ledger_stepE: "ledger_step l l'"

definition empty_ledger :: ledger where
  "empty_ledger = \<lparr>lg_tokens = Map.empty, lg_edges = {}, lg_revoked = {}, lg_approvals = Map.empty\<rparr>"

section \<open>The invariant\<close>

definition lg_inv :: "ledger \<Rightarrow> bool" where
  "lg_inv l \<longleftrightarrow>
     (\<forall>j m. lg_tokens l j = Some m \<longrightarrow> tm_jti m = j \<and> 0 \<le> tm_depth m \<and>
        (is_root_meta m \<or> (\<exists>p. tm_parent_jti m = Some p \<and> (p, j) \<in> lg_edges l)))
     \<and> (\<forall>p c. (p, c) \<in> lg_edges l \<longrightarrow>
          (\<exists>pm cm. lg_tokens l p = Some pm \<and> lg_tokens l c = Some cm \<and> narrower cm pm))
     \<and> lg_edges l `` lg_revoked l \<subseteq> lg_revoked l
     \<and> (\<forall>i a. lg_approvals l i = Some a \<longrightarrow> pa_approval_id a = i \<and>
          (is_pending a \<longrightarrow> (\<exists>pm. lg_tokens l (pa_parent_jti a) = Some pm \<and> covered a pm)))"

lemma lg_inv_empty: "lg_inv empty_ledger"
  by (simp add: lg_inv_def empty_ledger_def)

lemma lg_tokenD:
  "lg_inv l \<Longrightarrow> lg_tokens l j = Some m \<Longrightarrow> tm_jti m = j \<and> 0 \<le> tm_depth m \<and>
     (is_root_meta m \<or> (\<exists>p. tm_parent_jti m = Some p \<and> (p, j) \<in> lg_edges l))"
  unfolding lg_inv_def by blast

lemma lg_edgeD:
  "lg_inv l \<Longrightarrow> (p, c) \<in> lg_edges l \<Longrightarrow>
     \<exists>pm cm. lg_tokens l p = Some pm \<and> lg_tokens l c = Some cm \<and> narrower cm pm"
  unfolding lg_inv_def by blast

lemma lg_closedD: "lg_inv l \<Longrightarrow> p \<in> lg_revoked l \<Longrightarrow> (p, c) \<in> lg_edges l \<Longrightarrow> c \<in> lg_revoked l"
  unfolding lg_inv_def by blast

lemma lg_approvalD:
  "lg_inv l \<Longrightarrow> lg_approvals l i = Some a \<Longrightarrow> pa_approval_id a = i \<and>
     (is_pending a \<longrightarrow> (\<exists>pm. lg_tokens l (pa_parent_jti a) = Some pm \<and> covered a pm))"
  unfolding lg_inv_def by blast

text \<open>Adding a token nobody has an edge to keeps what was known of the others.\<close>

lemma lg_fresh_no_edge: "lg_inv l \<Longrightarrow> lg_tokens l j = None \<Longrightarrow> (p, j) \<notin> lg_edges l \<and> (j, c) \<notin> lg_edges l"
  using lg_edgeD by fastforce

lemma lg_invI:
  assumes "\<And>j m. lg_tokens l j = Some m \<Longrightarrow> tm_jti m = j \<and> 0 \<le> tm_depth m \<and>
        (is_root_meta m \<or> (\<exists>p. tm_parent_jti m = Some p \<and> (p, j) \<in> lg_edges l))"
    and "\<And>p c. (p, c) \<in> lg_edges l \<Longrightarrow>
        \<exists>pm cm. lg_tokens l p = Some pm \<and> lg_tokens l c = Some cm \<and> narrower cm pm"
    and "\<And>p c. p \<in> lg_revoked l \<Longrightarrow> (p, c) \<in> lg_edges l \<Longrightarrow> c \<in> lg_revoked l"
    and "\<And>i a. lg_approvals l i = Some a \<Longrightarrow> pa_approval_id a = i \<and>
        (is_pending a \<longrightarrow> (\<exists>pm. lg_tokens l (pa_parent_jti a) = Some pm \<and> covered a pm))"
  shows "lg_inv l"
  unfolding lg_inv_def using assms by blast

lemma lg_inv_mint:
  assumes inv: "lg_inv l" and new: "is_root_meta m" "lg_tokens l (tm_jti m) = None"
  shows "lg_inv (l\<lparr>lg_tokens := (lg_tokens l)(tm_jti m \<mapsto> m)\<rparr>)"
proof (rule lg_invI, goal_cases)
  case (1 j m')
  then show ?case using lg_tokenD [OF inv, of j m'] new(1) by (auto simp: is_root_meta_def split: if_splits)
next
  case (2 p c)
  then obtain pm cm where "lg_tokens l p = Some pm" "lg_tokens l c = Some cm" "narrower cm pm"
    using lg_edgeD [OF inv, of p c] by auto
  moreover from this have "p \<noteq> tm_jti m" "c \<noteq> tm_jti m" using new(2) by auto
  ultimately show ?case by simp
next
  case (3 p c)
  then show ?case using lg_closedD [OF inv, of p c] by simp
next
  case (4 i a)
  then have i: "lg_approvals l i = Some a" by simp
  have "pa_parent_jti a \<noteq> tm_jti m" if "lg_tokens l (pa_parent_jti a) = Some pm" for pm
    using that new(2) by auto
  then show ?case using lg_approvalD [OF inv i] by auto
qed

lemma lg_inv_delegate:
  assumes inv: "lg_inv l" and p: "lg_tokens l p = Some pm" "p \<notin> lg_revoked l" and nw: "narrower cm pm"
    and new: "lg_tokens l (tm_jti cm) = None"
  shows "lg_inv (l\<lparr>lg_tokens := (lg_tokens l)(tm_jti cm \<mapsto> cm), lg_edges := insert (p, tm_jti cm) (lg_edges l)\<rparr>)"
proof (rule lg_invI, goal_cases)
  case (1 j m)
  have "tm_jti pm = p" "0 \<le> tm_depth pm" using lg_tokenD [OF inv p(1)] by auto
  then show ?case using 1 lg_tokenD [OF inv, of j m] nw by (auto simp: narrower_def split: if_splits)
next
  case (2 p' c)
  have pne: "p \<noteq> tm_jti cm" using p(1) new by auto
  show ?case
  proof (cases "(p', c) = (p, tm_jti cm)")
    case True
    then show ?thesis using p(1) nw pne by simp
  next
    case False
    then have "(p', c) \<in> lg_edges l" using 2 by auto
    then obtain pm' cm' where *: "lg_tokens l p' = Some pm'" "lg_tokens l c = Some cm'" "narrower cm' pm'"
      using lg_edgeD [OF inv] by blast
    moreover from this have "p' \<noteq> tm_jti cm" "c \<noteq> tm_jti cm" using new by auto
    ultimately show ?thesis by simp
  qed
next
  case (3 p' c)
  then show ?case using lg_closedD [OF inv, of p' c] p(2) by auto
next
  case (4 i a)
  then have i: "lg_approvals l i = Some a" by simp
  have "pa_parent_jti a \<noteq> tm_jti cm" if "lg_tokens l (pa_parent_jti a) = Some pm" for pm
    using that new by auto
  then show ?case using lg_approvalD [OF inv i] by auto
qed

lemma lg_inv_approval:
  assumes inv: "lg_inv l"
    and a: "is_pending a \<Longrightarrow> \<exists>pm. lg_tokens l (pa_parent_jti a) = Some pm \<and> covered a pm"
  shows "lg_inv (l\<lparr>lg_approvals := (lg_approvals l)(pa_approval_id a \<mapsto> a)\<rparr>)"
proof (rule lg_invI, goal_cases)
  case (4 i b)
  then show ?case using lg_approvalD [OF inv, of i b] a by (auto split: if_splits)
qed (use lg_tokenD [OF inv] lg_edgeD [OF inv] lg_closedD [OF inv] in auto)

lemma lg_inv_step:
  assumes inv: "lg_inv l" and step: "ledger_step l l'"
  shows "lg_inv l'"
  using step
proof cases
  case (Mint m)
  then show ?thesis using lg_inv_mint inv by simp
next
  case (Delegate p pm cm)
  then show ?thesis using lg_inv_delegate inv by simp
next
  case (Park a pm)
  then show ?thesis using lg_inv_approval [OF inv, of a] by auto
next
  case (Decide a a')
  then show ?thesis using lg_inv_approval [OF inv, of a] by auto
next
  case (Revoke j)
  have "(p, c) \<in> lg_edges l \<Longrightarrow> p \<in> lg_revoked l \<union> (lg_edges l)\<^sup>* `` {j} \<Longrightarrow>
      c \<in> lg_revoked l \<union> (lg_edges l)\<^sup>* `` {j}" for p c
    using lg_closedD [OF inv, of p c] by (auto intro: rtrancl_into_rtrancl)
  then show ?thesis unfolding Revoke
    by (intro lg_invI) (use lg_tokenD [OF inv] lg_edgeD [OF inv] lg_approvalD [OF inv] in auto)
qed

lemma lg_inv_steps: "ledger_step\<^sup>*\<^sup>* l l' \<Longrightarrow> lg_inv l \<Longrightarrow> lg_inv l'"
  by (induction rule: rtranclp_induct) (auto intro: lg_inv_step)

section \<open>What the invariant says about whole chains\<close>

definition tighter :: "token_metadata \<Rightarrow> token_metadata \<Rightarrow> bool" where
  "tighter d a \<longleftrightarrow> set (tm_scopes d) \<subseteq> set (tm_scopes a) \<and> tm_expires_at d \<le> tm_expires_at a
     \<and> tm_depth a < tm_depth d \<and> tm_depth d \<le> tm_max_depth d \<and> tm_max_depth d = tm_max_depth a
     \<and> tm_root_jti d = tm_root_jti a"

lemma lg_path_tighter:
  assumes inv: "lg_inv l" and path: "(a, d) \<in> (lg_edges l)\<^sup>+"
  shows "\<exists>am dm. lg_tokens l a = Some am \<and> lg_tokens l d = Some dm \<and> tighter dm am"
  using path
proof (induction rule: trancl_induct)
  case (base d)
  obtain pm cm where "lg_tokens l a = Some pm" "lg_tokens l d = Some cm" "narrower cm pm"
    using lg_edgeD [OF inv base] by blast
  then show ?case by (simp add: narrower_def tighter_def)
next
  case (step c d)
  obtain cm dm where 1: "lg_tokens l c = Some cm" "lg_tokens l d = Some dm" "narrower dm cm"
    using lg_edgeD [OF inv step(2)] by blast
  obtain am where 2: "lg_tokens l a = Some am" "tighter cm am"
    using step(3) 1(1) by auto
  have "tighter dm am"
    using 1(3) 2(2) unfolding narrower_def tighter_def by (intro conjI) (blast | linarith | simp)+
  then show ?case using 1(2) 2(1) by blast
qed

lemma lg_one_parent: "lg_inv l \<Longrightarrow> (p, c) \<in> lg_edges l \<Longrightarrow> (p', c) \<in> lg_edges l \<Longrightarrow> p = p'"
proof -
  assume inv: "lg_inv l" and e: "(p, c) \<in> lg_edges l" "(p', c) \<in> lg_edges l"
  obtain pm cm where 1: "lg_tokens l p = Some pm" "lg_tokens l c = Some cm" "narrower cm pm"
    using lg_edgeD [OF inv e(1)] by blast
  obtain pm' cm' where 2: "lg_tokens l p' = Some pm'" "lg_tokens l c = Some cm'" "narrower cm' pm'"
    using lg_edgeD [OF inv e(2)] by blast
  have "tm_jti pm = p" "tm_jti pm' = p'" using lg_tokenD [OF inv] 1(1) 2(1) by blast+
  moreover have "tm_parent_jti cm = Some (tm_jti pm)" "tm_parent_jti cm = Some (tm_jti pm')"
    using 1(2,3) 2(2,3) by (simp_all add: narrower_def)
  ultimately show "p = p'" by simp
qed

lemma lg_no_parent_root: "lg_inv l \<Longrightarrow> lg_tokens l c = Some m \<Longrightarrow> is_root_meta m \<Longrightarrow> (p, c) \<notin> lg_edges l"
proof
  assume "lg_inv l" and m: "lg_tokens l c = Some m" "is_root_meta m" and "(p, c) \<in> lg_edges l"
  then obtain cm pm where "lg_tokens l c = Some cm" "narrower cm pm" using lg_edgeD by blast
  then show False using m by (simp add: narrower_def is_root_meta_def)
qed

text \<open>The chain a token carries is exactly the set of tokens it descends from.\<close>

lemma lg_chain_ancestors:
  "lg_inv l \<Longrightarrow> lg_tokens l j = Some m \<Longrightarrow> set (chain_jtis m) = {a. (a, j) \<in> (lg_edges l)\<^sup>+}"
proof (induction "nat (tm_depth m)" arbitrary: j m rule: less_induct)
  case less
  note inv = less.prems(1)
  show ?case
  proof (cases "is_root_meta m")
    case True
    then have "(p, j) \<notin> lg_edges l" for p using lg_no_parent_root less.prems by blast
    then have "(a, j) \<notin> (lg_edges l)\<^sup>+" for a by (auto elim: tranclE)
    then show ?thesis using True by (simp add: is_root_meta_def)
  next
    case False
    then obtain p where pj: "(p, j) \<in> lg_edges l" using lg_tokenD less.prems by blast
    obtain pm where pm: "lg_tokens l p = Some pm" "narrower m pm"
      using lg_edgeD [OF inv pj] less.prems(2) by auto
    have pmj: "tm_jti pm = p" "0 \<le> tm_depth pm" using lg_tokenD [OF inv pm(1)] by auto
    then have "nat (tm_depth pm) < nat (tm_depth m)" using pm(2) by (simp add: narrower_def)
    from less.hyps [OF this inv pm(1)]
    have "set (chain_jtis m) = insert p {a. (a, p) \<in> (lg_edges l)\<^sup>+}"
      using pm(2) pmj by (simp add: narrower_def)
    also have "\<dots> = {a. (a, j) \<in> (lg_edges l)\<^sup>+}"
    proof -
      have "(a, j) \<in> (lg_edges l)\<^sup>+ \<Longrightarrow> a = p \<or> (a, p) \<in> (lg_edges l)\<^sup>+" for a
        by (erule tranclE) (use lg_one_parent [OF inv _ pj] in blast)+
      moreover have "(a, p) \<in> (lg_edges l)\<^sup>+ \<Longrightarrow> (a, j) \<in> (lg_edges l)\<^sup>+" for a
        by (erule trancl_into_trancl) (rule pj)
      ultimately show ?thesis using pj by blast
    qed
    finally show ?thesis .
  qed
qed

lemma lg_acyclic: "lg_inv l \<Longrightarrow> (a, a) \<notin> (lg_edges l)\<^sup>+"
proof
  assume "lg_inv l" and "(a, a) \<in> (lg_edges l)\<^sup>+"
  then obtain am where "tighter am am" using lg_path_tighter by fastforce
  then show False by (simp add: tighter_def)
qed

lemma lg_chain_distinct: "lg_inv l \<Longrightarrow> lg_tokens l j = Some m \<Longrightarrow> distinct (chain_jtis m)"
proof (induction "nat (tm_depth m)" arbitrary: j m rule: less_induct)
  case less
  note inv = less.prems(1)
  show ?case
  proof (cases "is_root_meta m")
    case False
    then obtain p where pj: "(p, j) \<in> lg_edges l" using lg_tokenD less.prems by blast
    obtain pm where pm: "lg_tokens l p = Some pm" "narrower m pm"
      using lg_edgeD [OF inv pj] less.prems(2) by auto
    have pmj: "tm_jti pm = p" "0 \<le> tm_depth pm" using lg_tokenD [OF inv pm(1)] by auto
    then have "nat (tm_depth pm) < nat (tm_depth m)" using pm(2) by (simp add: narrower_def)
    from less.hyps [OF this inv pm(1)] show ?thesis
      using pm(2) pmj lg_chain_ancestors [OF inv pm(1)] lg_acyclic [OF inv, of p] by (simp add: narrower_def)
  qed (simp add: is_root_meta_def)
qed

lemma lg_revoked_descendants:
  "lg_inv l \<Longrightarrow> a \<in> lg_revoked l \<Longrightarrow> (a, d) \<in> (lg_edges l)\<^sup>* \<Longrightarrow> d \<in> lg_revoked l"
  by (rotate_tac 2, erule rtrancl_induct) (auto dest: lg_closedD)

end
