(* ===== verification/Firewall_Refines.thy ===== *)
theory Firewall_Refines
  imports Ledger
begin

text \<open>
  The firewall implements the ledger. The view \<open>ledger_of\<close> reads the ledger off a firewall's store;
  every method's specification says how the view changes (for minting methods, by exactly which
  step), and \<open>run_refines\<close> puts them together: a run of a firewall is a run of the ledger, so the
  ledger's invariant holds of every reachable firewall. The only assumption is on PyJWT: a token
  that decodes is one this firewall's key signed, so its record is in the store (\<open>honest\<close>).
\<close>

section \<open>The view\<close>

definition store_ledger :: "memory_store \<Rightarrow> ledger" where
  "store_ledger st = \<lparr>lg_tokens = map_of (ms_tokens st), lg_edges = mem_edges st,
     lg_revoked = mem_revoked st, lg_approvals = map_of (ms_approvals st)\<rparr>"

definition ledger_of :: "world \<Rightarrow> ledger" where
  "ledger_of w = store_ledger (w_store w)"

lemma store_ledger_writes [simp]:
  "store_ledger (st\<lparr>ms_tokens := dset j m (ms_tokens st)\<rparr>)
     = (store_ledger st)\<lparr>lg_tokens := (lg_tokens (store_ledger st))(j \<mapsto> m)\<rparr>"
  "store_ledger (st\<lparr>ms_approvals := dset i a (ms_approvals st)\<rparr>)
     = (store_ledger st)\<lparr>lg_approvals := (lg_approvals (store_ledger st))(i \<mapsto> a)\<rparr>"
  by (simp_all add: store_ledger_def mem_edges_def mem_revoked_def update_conv')

lemma store_ledger_add_edge [simp]:
  "store_ledger (add_edge p c st) = (store_ledger st)\<lparr>lg_edges := insert (p, c) (lg_edges (store_ledger st))\<rparr>"
  unfolding store_ledger_def mem_edges_add by (simp add: mem_revoked_def add_edge_def Let_def)

lemma store_ledger_revoke [simp]:
  "store_ledger (snd (revoke_many x js st)) = (store_ledger st)\<lparr>lg_revoked := lg_revoked (store_ledger st) \<union> set js\<rparr>"
proof -
  obtain rv where "snd (revoke_many x js st) = st\<lparr>ms_revoked := rv\<rparr>" using revoke_many_spec by blast
  then show ?thesis using revoke_many_spec [of x js st]
    by (simp add: store_ledger_def mem_edges_def)
qed

lemma store_ledger_put_approval [simp]:
  "store_ledger (put_approval a st)
     = (store_ledger st)\<lparr>lg_approvals := (lg_approvals (store_ledger st))(pa_approval_id a \<mapsto> a)\<rparr>"
  unfolding put_approval_def by (rule store_ledger_writes(2))

text \<open>The ledger is \<open>l\<close> and the configuration is \<open>c\<close>, up to the exempt subjects learnt since.\<close>

definition same :: "ledger \<Rightarrow> config \<Rightarrow> world \<Rightarrow> bool" where
  "same l c w \<longleftrightarrow> ledger_of w = l \<and> (\<exists>X. w_config w = c\<lparr>cf_exempt_subject_ids := X\<rparr>)"

lemma same_refl: "same (ledger_of w) (w_config w) w"
  unfolding same_def by (auto intro: exI [of _ "cf_exempt_subject_ids (w_config w)"])

lemma same_ledger: "same l c w \<Longrightarrow> ledger_of w = l"
  by (simp add: same_def)

lemma ledger_of_frame:
  "ms_tokens st = ms_tokens (w_store w) \<Longrightarrow> ms_edges st = ms_edges (w_store w) \<Longrightarrow>
   ms_revoked st = ms_revoked (w_store w) \<Longrightarrow> ms_approvals st = ms_approvals (w_store w) \<Longrightarrow>
   ledger_of (w\<lparr>w_store := st\<rparr>) = ledger_of w"
  by (simp add: ledger_of_def store_ledger_def mem_edges_def mem_revoked_def)

lemma ledger_of_log [simp]: "ledger_of (log_event e ev w) = ledger_of w"
  by (simp add: ledger_of_def store_ledger_def mem_edges_def mem_revoked_def log_event_frame)

lemma ledger_of_fields [simp]:
  "ledger_of (w\<lparr>w_config := c\<rparr>) = ledger_of w" "ledger_of (w\<lparr>w_tick := n\<rparr>) = ledger_of w"
  "ledger_of (w\<lparr>w_rate := b\<rparr>) = ledger_of w" "ledger_of (w\<lparr>w_breaker := br\<rparr>) = ledger_of w"
  "ledger_of (w\<lparr>w_anomaly := a\<rparr>) = ledger_of w" "ledger_of (tick w) = ledger_of w"
  by (simp_all add: ledger_of_def tick_def)

lemma stable_same [simp, intro]: "stable e (same l c)"
  by (simp add: stable_def same_def log_event_frame)

lemma same_tick [simp]: "same l c (tick w) = same l c w"
  by (simp add: same_def tick_def)

lemma same_store:
  "same l c w \<Longrightarrow> ms_tokens st = ms_tokens (w_store w) \<Longrightarrow> ms_edges st = ms_edges (w_store w) \<Longrightarrow>
   ms_revoked st = ms_revoked (w_store w) \<Longrightarrow> ms_approvals st = ms_approvals (w_store w) \<Longrightarrow>
   same l c (w\<lparr>w_store := st\<rparr>)"
  by (simp add: same_def ledger_of_frame)

lemma same_resolve [keep_intro]: "keeps (same l c) (resolve_subject e i k)"
proof -
  have "keeps (same l c) (storeP (get_or_create_subject u n h k i))" for u n h
    by (rule keeps_storeP, rule same_store)
      (auto simp: get_or_create_subject_def Let_def split: option.splits)
  moreover have "keeps (same l c) (updP (\<lambda>w. w\<lparr>w_config := register_exempt_subject i s (w_config w)\<rparr>))" for s
    by (rule keeps_updP) (auto simp: same_def register_exempt_subject_def)
  ultimately show ?thesis unfolding resolve_subject_def
    by (intro keeps_bindP keeps_ret keeps_getsP keeps_calls(1,4) stable_same) blast+
qed

lemma throws_resolve [throw_intro]: "P KeyError \<Longrightarrow> throws P (resolve_subject e i k)"
  unfolding resolve_subject_def by (auto intro!: throw_intro)

lemma same_view:
  "same l c w \<Longrightarrow> dget (ms_tokens (w_store w)) j = lg_tokens l j"
  "same l c w \<Longrightarrow> mem_revoked (w_store w) = lg_revoked l"
  "same l c w \<Longrightarrow> dget (ms_approvals (w_store w)) i = lg_approvals l i"
  "same l c w \<Longrightarrow> mem_edges (w_store w) = lg_edges l"
  by (auto simp: same_def ledger_of_def store_ledger_def)

lemma tok_decode_exempt [simp]: "tok_decode e (c\<lparr>cf_exempt_subject_ids := X\<rparr>) = tok_decode e c"
  by (intro ext) (simp add: tok_decode_def)

lemma sensitive_exempt [simp]: "sensitive_subset (c\<lparr>cf_exempt_subject_ids := X\<rparr>) = sensitive_subset c"
  by (intro ext) (simp add: sensitive_subset_def)

lemma same_decode: "same l c w \<Longrightarrow> tok_decode e (w_config w) = tok_decode e c"
  by (auto simp: same_def)

section \<open>Reading a parent\<close>

lemma wp_any_revoked:
  assumes "same l c w"
    and "set js \<inter> lg_revoked l = {} \<Longrightarrow> Q False w" and "set js \<inter> lg_revoked l \<noteq> {} \<Longrightarrow> Q True w"
    and "ms_closed (w_store w) \<Longrightarrow> E StorageError w"
  shows "wp (any_revoked js) Q E w"
  using assms(2-4)
proof (induction js)
  case (Cons j js)
  have "w\<lparr>w_store := w_store w\<rparr> = w" by simp
  then show ?case
    using Cons by (auto simp: wp_simps same_view [OF assms(1)])
qed (simp add: wp_simps)

text \<open>No exception of \<open>P\<close> is the approval gate's.\<close>

fun unparked :: "agp_error \<Rightarrow> bool" where
  "unparked (ApprovalRequired _ _ _) = False"
| "unparked _ = True"

definition live :: "env \<Rightarrow> config \<Rightarrow> ledger \<Rightarrow> string \<Rightarrow> claims \<Rightarrow> bool" where
  "live e c l tok cl \<longleftrightarrow> (\<exists>now. tok_decode e c now tok False = Inr cl) \<and> c_jti cl \<notin> lg_revoked l
     \<and> set (ancestor_jtis cl) \<inter> lg_revoked l = {}"

lemma wp_decode_live:
  assumes "same l c w" and Q: "\<And>cl t. same l c t \<Longrightarrow> live e c l tok cl \<Longrightarrow> Q cl t"
    and E: "\<And>x t. same l c t \<Longrightarrow> unparked x \<Longrightarrow> E x t"
  shows "wp (decode_live e tok) Q E w"
proof (cases "tok_decode e c (e_clock e (w_tick w)) tok False")
  case (Inl x)
  then show ?thesis using assms(1) E same_decode [OF assms(1)]
    by (simp add: decode_live_def wp_simps)
next
  case (Inr cl)
  have t: "same l c (tick (tick w))" using assms(1) by simp
  have "wp (any_revoked (c_jti cl # ancestor_jtis cl)) (\<lambda>dead t.
      wp (if dead then raise (ParentTokenInvalid REASON_REVOKED) else ret cl) Q E t) E (tick (tick w))"
    by (rule wp_any_revoked [OF t]) (use t Inr in \<open>auto simp: wp_simps live_def intro!: Q E\<close>)
  then show ?thesis using E t Inr same_decode [OF assms(1)]
    by (simp add: decode_live_def wp_simps del: any_revoked.simps)
qed

lemma throws_root_alive [throw_intro]: "throws unparked (assert_root_alive e cl)"
  unfolding assert_root_alive_def by (auto intro!: throw_intro)

lemma ledger_of_circuit [simp]: "ledger_of (circuit_record e err sid pol w) = ledger_of w"
  by (simp add: circuit_record_def Let_def split: prod.splits option.splits)

section \<open>Issuing a child\<close>

lemma tok_mint_child_exempt [simp]:
  "tok_mint_child e (c\<lparr>cf_exempt_subject_ids := X\<rparr>) = tok_mint_child e c"
  by (intro ext) (simp add: tok_mint_child_def capability_of_def encode_claims_def)

text \<open>The ledger after token \<open>cap\<close> was issued under parent \<open>p\<close>.\<close>

definition issue :: "string \<Rightarrow> capability \<Rightarrow> ledger \<Rightarrow> ledger" where
  "issue p cap l = l\<lparr>lg_tokens := (lg_tokens l)(cap_jti cap \<mapsto> meta_of (cap_claims cap) (Some p)),
     lg_edges := insert (p, cap_jti cap) (lg_edges l)\<rparr>"

lemma cap_jti_mint_child [simp]:
  "cap_jti (tok_mint_child e c jti now now' parent sid sc x a b) = jti"
  by (simp add: cap_jti_def tok_mint_child_def)

lemma wp_mint_childP:
  assumes "same l c w"
    and "\<And>jti now now' t. same l c t \<Longrightarrow> Q (tok_mint_child e c jti now now' parent sid sc x a b) t"
  shows "wp (mint_childP e parent sid sc x a b) Q E w"
proof -
  have "same l c (tick (tick (tick w)))" using assms(1) by simp
  moreover from this obtain X where "w_config (tick (tick (tick w))) = c\<lparr>cf_exempt_subject_ids := X\<rparr>"
    by (auto simp: same_def)
  ultimately show ?thesis using assms(2) by (simp add: mint_childP_def wp_simps)
qed

lemma wp_persist_edge:
  assumes "same l c w" and "c_jti (cap_claims cap) = cap_jti cap"
    and "\<And>t. lg_tokens l (cap_jti cap) = None \<Longrightarrow> same (issue p cap l) c t \<Longrightarrow> Q () t"
    and "\<And>t. same l c t \<Longrightarrow> E StorageError t"
  shows "wp (bindP (persist_token cap (Some p)) (\<lambda>_. store_updP (add_edge p (cap_jti cap)))) Q E w"
proof -
  let ?m = "meta_of (cap_claims cap) (Some p)"
  have m: "tm_jti ?m = cap_jti cap" using assms(2) by (simp add: meta_of_def)
  have "same (issue p cap l) c
      (w\<lparr>w_store := add_edge p (cap_jti cap) ((w_store w)\<lparr>ms_tokens := dset (cap_jti cap) ?m (ms_tokens (w_store w))\<rparr>)\<rparr>)"
    using assms(1) by (auto simp: same_def ledger_of_def issue_def)
  then show ?thesis
    using assms(3,4) same_view(1) [OF assms(1)] assms(1)
    by (simp add: persist_token_def wp_simps m)
qed

definition issues ::
  "env \<Rightarrow> config \<Rightarrow> claims \<Rightarrow> string list \<Rightarrow> int \<Rightarrow> bool \<Rightarrow> string option \<Rightarrow> ledger \<Rightarrow> capability \<Rightarrow> ledger \<Rightarrow> bool" where
  "issues e c parent sc expiry a b l cap l' \<longleftrightarrow>
     (\<exists>jti now now' sid. cap = tok_mint_child e c jti now now' parent sid sc expiry a b)
     \<and> lg_tokens l (cap_jti cap) = None \<and> l' = issue (c_jti parent) cap l"

lemma wp_delegate_issue:
  assumes "same l c w" and Q: "\<And>cap t. issues e c parent req x False None l cap (ledger_of t) \<Longrightarrow> Q cap t"
    and E: "\<And>y t. same l c t \<Longrightarrow> unparked y \<Longrightarrow> E y t"
  shows "wp (delegate_issue e parent to req x) Q E w"
  unfolding delegate_issue_def wp_bindP [of "resolve_subject e to ''agent''"]
proof (rule wp_keeps_throws [OF same_resolve [of l c] throws_resolve [where P = unparked] assms(1)])
  fix s t assume t: "same l c t"
  show "wp (bindP (mint_childP e parent (sj_subject_id s) req x False None) (\<lambda>minted.
     bindP (persist_token minted (Some (c_jti parent))) (\<lambda>_.
     bindP (store_updP (add_edge (c_jti parent) (cap_jti minted))) (\<lambda>_.
     bindP (auditP e (blank_event\<lparr>ev_action := ''delegated'', ev_actor_id := Some (c_sub parent),
       ev_jti := Some (cap_jti minted), ev_parent_jti := Some (c_jti parent),
       ev_root_jti := Some (c_root_jti (cap_claims minted)), ev_scopes := Some (cap_scopes minted),
       ev_decision := Some ''allow'', ev_depth := Some (cap_depth minted),
       ev_detail := Some (JObj [(''child_agent_id'', JStr to),
         (''child_subject_id'', JStr (sj_subject_id s)), (''exp'', JInt (c_exp (cap_claims minted)))])\<rparr>)) (\<lambda>_.
     bindP (circuitP e False (Some (c_sub parent)) False) (\<lambda>_. ret minted)))))) Q E t"
    unfolding wp_bindP [of "mint_childP e parent (sj_subject_id s) req x False None"]
  proof (rule wp_mint_childP [OF t])
    fix jti now now' t assume t: "same l c t"
    let ?cap = "tok_mint_child e c jti now now' parent (sj_subject_id s) req x False None"
    have "wp (bindP (persist_token ?cap (Some (c_jti parent))) (\<lambda>_. store_updP (add_edge (c_jti parent) (cap_jti ?cap))))
        (\<lambda>_ t. \<forall>t'. ledger_of t' = ledger_of t \<longrightarrow> Q ?cap t') E t"
      by (rule wp_persist_edge [OF t]) (auto simp: cap_jti_def issues_def same_ledger intro!: E Q, blast)
    then show "wp (bindP (persist_token ?cap (Some (c_jti parent))) (\<lambda>_.
       bindP (store_updP (add_edge (c_jti parent) (cap_jti ?cap))) (\<lambda>_.
       bindP (auditP e (blank_event\<lparr>ev_action := ''delegated'', ev_actor_id := Some (c_sub parent),
         ev_jti := Some (cap_jti ?cap), ev_parent_jti := Some (c_jti parent),
         ev_root_jti := Some (c_root_jti (cap_claims ?cap)), ev_scopes := Some (cap_scopes ?cap),
         ev_decision := Some ''allow'', ev_depth := Some (cap_depth ?cap),
         ev_detail := Some (JObj [(''child_agent_id'', JStr to),
           (''child_subject_id'', JStr (sj_subject_id s)), (''exp'', JInt (c_exp (cap_claims ?cap)))])\<rparr>)) (\<lambda>_.
       bindP (circuitP e False (Some (c_sub parent)) False) (\<lambda>_. ret ?cap))))) Q E t"
      unfolding wp_bindP by (rule wp_mono) (simp_all add: wp_simps)
  qed
qed (use E in auto)

section \<open>Parking a sensitive delegation\<close>

definition parks :: "claims \<Rightarrow> string list \<Rightarrow> string list \<Rightarrow> int \<Rightarrow> ledger \<Rightarrow> pending_approval \<Rightarrow> ledger \<Rightarrow> bool" where
  "parks parent req sens ttl l a l' \<longleftrightarrow> pa_parent_jti a = c_jti parent \<and> pa_requested_scopes a = req
     \<and> pa_sensitive_scopes a = sens \<and> pa_ttl_seconds a = ttl \<and> pa_parent_exp a = c_exp parent
     \<and> pa_status a = ''pending'' \<and> pa_expires_at a \<le> from_ts (c_exp parent) \<and> pa_child_token a = None
     \<and> l' = l\<lparr>lg_approvals := (lg_approvals l)(pa_approval_id a \<mapsto> a)\<rparr>"

lemma wp_park:
  assumes "same l c w" and Q: "\<And>a t. parks parent req sens ttl l a (ledger_of t) \<Longrightarrow> Q a t"
    and E: "\<And>y t. same l c t \<Longrightarrow> unparked y \<Longrightarrow> E y t"
  shows "wp (park_for_approval e parent to req ttl sens) Q E w"
  unfolding park_for_approval_def wp_bindP [of "resolve_subject e to ''agent''"]
proof (rule wp_keeps_throws [OF same_resolve [of l c] throws_resolve [where P = unparked] assms(1)], goal_cases)
  case (2 s t)
  then have l: "store_ledger (w_store t) = l" using same_ledger by (simp add: ledger_of_def)
  show ?case
    by (simp add: wp_simps tick_def)
      (auto intro!: Q simp: parks_def from_ts_def ledger_of_log, simp add: ledger_of_def l)
qed (use E in auto)

section \<open>The methods that delegate\<close>

text \<open>What a successful delegation proves of its parent and its request.\<close>

definition grantable :: "env \<Rightarrow> config \<Rightarrow> ledger \<Rightarrow> string \<Rightarrow> string list \<Rightarrow> claims \<Rightarrow> bool" where
  "grantable e c l tok sc parent \<longleftrightarrow> live e c l tok parent \<and> set sc \<subseteq> scope_set parent
     \<and> c_depth parent + 1 \<le> c_max_depth parent"

lemma wp_delegate_granted:
  assumes "same l c w"
    and Q: "\<And>x cap t. x \<le> c_exp parent \<Longrightarrow> sensitive_subset c req = [] \<Longrightarrow>
      issues e c parent req x False None l cap (ledger_of t) \<Longrightarrow> Q cap t"
    and P: "\<And>a t ttl. sensitive_subset c req \<noteq> [] \<Longrightarrow>
      parks parent req (sensitive_subset c req) ttl l a (ledger_of t) \<Longrightarrow>
      E (ApprovalRequired (pa_approval_id a) req (sensitive_subset c req)) t"
    and E: "\<And>y t. same l c t \<Longrightarrow> unparked y \<Longrightarrow> E y t"
  shows "wp (delegate_granted e parent to req ttl0) Q E w"
  unfolding delegate_granted_def wp_bindP [of "observeP e (c_sub parent) (length req)"]
proof (rule wp_keeps_throws [OF keeps_observeP [OF stable_same [of e l c]] throws_calls(8) [where P = unparked] assms(1)], goal_cases)
  case (1 finding t)
  have "wp (case finding of None \<Rightarrow> ret () | Some f \<Rightarrow> auditP e (ev f)) Q' E' t = Q' () (case finding of
      None \<Rightarrow> t | Some f \<Rightarrow> log_event e (ev f) t)" for ev Q' and E' :: "agp_error \<Rightarrow> world \<Rightarrow> bool"
    by (simp add: wp_simps split: option.splits)
  moreover have "same l c (case finding of None \<Rightarrow> t | Some f \<Rightarrow> log_event e (ev f) t)" for ev
    using 1 stable_same [of e l c] by (simp add: stable_def split: option.splits)
  moreover have "wp (bindP (getsP w_config) (\<lambda>cfg.
     let requested_ttl = int_or ttl0 (cf_default_ttl_seconds cfg) in
     bindP (now_tsP e) (\<lambda>now_ts.
     let child_exp = min (now_ts + requested_ttl) (c_exp parent);
         sensitive = sensitive_subset cfg req in
     if sensitive \<noteq> [] then
       bindP (park_for_approval e parent to req requested_ttl sensitive) (\<lambda>approval.
       bindP (circuitP e False (Some (c_sub parent)) False) (\<lambda>_.
       raise (ApprovalRequired (pa_approval_id approval) req sensitive)))
     else delegate_issue e parent to req child_exp))) Q E t'" if t': "same l c t'" for t'
  proof -
    obtain X where X: "w_config t' = c\<lparr>cf_exempt_subject_ids := X\<rparr>" using t' by (auto simp: same_def)
    have t'': "same l c (tick t')" using t' by simp
    show ?thesis
    proof (cases "sensitive_subset c req = []")
      case True
      then show ?thesis
        by (simp add: wp_simps X Let_def) (rule wp_delegate_issue [OF t''], rule Q, rule min.cobounded2, auto intro: E)
    next
      case False
      then show ?thesis
        by (simp add: wp_simps X Let_def) (rule wp_park [OF t''], auto intro: P E)
    qed
  qed
  ultimately show ?case unfolding wp_bindP by simp
qed (use E in auto)

lemma wp_delegate:
  assumes s: "same l c w"
    and Q: "\<And>parent x cap t. sc \<noteq> [] \<Longrightarrow> \<not> br_open (w_breaker w) \<Longrightarrow> grantable e c l tok sc parent \<Longrightarrow>
      x \<le> c_exp parent \<Longrightarrow> sensitive_subset c (sorted_set sc) = [] \<Longrightarrow>
      issues e c parent (sorted_set sc) x False None l cap (ledger_of t) \<Longrightarrow> Q cap t"
    and P: "\<And>parent a t ttl. grantable e c l tok sc parent \<Longrightarrow> sensitive_subset c (sorted_set sc) \<noteq> [] \<Longrightarrow>
      parks parent (sorted_set sc) (sensitive_subset c (sorted_set sc)) ttl l a (ledger_of t) \<Longrightarrow>
      E (ApprovalRequired (pa_approval_id a) (sorted_set sc) (sensitive_subset c (sorted_set sc))) t"
    and E: "\<And>y t. same l c t \<Longrightarrow> unparked y \<Longrightarrow> E y t"
  shows "wp (delegate e tok to sc ttl) Q E w"
proof (cases "br_open (w_breaker w) \<or> sc = []")
  case True
  then show ?thesis using s E by (auto simp: delegate_def wp_simps)
next
  case False
  have log: "same l c (log_event e ev t)" if "same l c t" for ev t
    using that stable_same [of e l c] by (simp add: stable_def)
  have circ: "same l c (circuit_record e err sid pol t)" if "same l c t" for err sid pol t
    using keeps_circuitP [OF stable_same [of e l c]] that by (simp add: keeps_wp wp_calls)
  have granted: "wp (delegate_granted e parent to (sorted_set sc) ttl) Q E t"
    if "same l c t" "grantable e c l tok sc parent" for t parent
    using False by (intro wp_delegate_granted [OF that(1)]) (auto intro: Q P E that(2))
  show ?thesis
    unfolding delegate_def
    apply (rule wp_bind, use False in \<open>simp add: wp_calls\<close>)
    apply (rule wp_bind, rule wp_decode_live [OF s])
     apply (rule wp_bind_keeps [OF keeps_rateP [OF stable_same] throws_checks(2) [where P = unparked]], simp, assumption)
      apply (rule wp_bind_keeps [OF keeps_readers(2) [OF stable_same] throws_root_alive], assumption)
       apply (auto simp: Let_def wp_simps filter_empty_conv grantable_def intro!: granted log circ E)
    done
qed

section \<open>The approval gate\<close>

definition with_approval :: "pending_approval \<Rightarrow> ledger \<Rightarrow> ledger" where
  "with_approval a l = l\<lparr>lg_approvals := (lg_approvals l)(pa_approval_id a \<mapsto> a)\<rparr>"

definition decision :: "pending_approval \<Rightarrow> string \<Rightarrow> string option \<Rightarrow> string option \<Rightarrow> string option
    \<Rightarrow> instant \<Rightarrow> pending_approval" where
  "decision r status by_whom cj ct now = r\<lparr>pa_status := status, pa_decided_at := Some now,
     pa_approved_by := by_whom, pa_child_jti := cj, pa_child_token := ct\<rparr>"

lemma wp_decide:
  assumes "same l c w" and "lg_approvals l (pa_approval_id r) \<noteq> None"
    and "\<And>now t. same (with_approval (decision r status by_whom cj ct now) l) c t \<Longrightarrow> Q () t"
  shows "wp (decide_approval e r status by_whom cj ct) Q E w"
proof -
  have "same (with_approval (decision r status by_whom cj ct now) l) c
      ((tick w)\<lparr>w_store := (w_store w)\<lparr>ms_approvals := dset (pa_approval_id r)
        (decision r status by_whom cj ct now) (ms_approvals (w_store w))\<rparr>\<rparr>)" for now
    using assms(1) by (auto simp: same_def ledger_of_def with_approval_def decision_def tick_def)
  from assms(3) [OF this] show ?thesis
    using assms(2) same_view(3) [OF assms(1)] by (auto simp: decide_approval_def wp_simps decision_def tick_def)
qed

text \<open>Request \<open>i\<close> was pending and is now decided against, with no child.\<close>

definition dropped :: "string \<Rightarrow> ledger \<Rightarrow> ledger \<Rightarrow> bool" where
  "dropped i l l' \<longleftrightarrow> (\<exists>r a. lg_approvals l i = Some r \<and> is_pending r \<and> pa_approval_id a = i \<and> \<not> is_pending a
     \<and> pa_child_token a = None \<and> l' = with_approval a l)"

lemma droppedI:
  "lg_approvals l i = Some r \<Longrightarrow> is_pending r \<Longrightarrow> pa_approval_id r = i \<Longrightarrow> s \<noteq> ''pending'' \<Longrightarrow>
   dropped i l (with_approval (decision r s b cj None now) l)"
  unfolding dropped_def
  by (intro exI [of _ r] exI [of _ "decision r s b cj None now"]) (simp add: decision_def is_pending_def)

lemma wp_load_pending:
  assumes s: "same l c w" and inv: "lg_inv l"
    and Q: "\<And>r t. same l c t \<Longrightarrow> lg_approvals l i = Some r \<Longrightarrow> is_pending r \<Longrightarrow> pa_approval_id r = i \<Longrightarrow> Q r t"
    and E: "\<And>y t. ledger_of t = l \<or> dropped i l (ledger_of t) \<Longrightarrow> E y t"
  shows "wp (load_pending e i) Q E w"
proof (cases "lg_approvals l i")
  case None
  then show ?thesis using s E same_view(3) [OF s] same_ledger [OF s]
    by (simp add: load_pending_def wp_simps get_approval_def)
next
  case (Some r)
  then have i: "pa_approval_id r = i" using lg_approvalD [OF inv] by blast
  have t: "same l c (tick w)" using s by simp
  show ?thesis
  proof (cases "pa_status r = ''pending''")
    case True
    have "wp (decide_approval e r ''expired'' None None None) (\<lambda>_ t. E ValueError t) E (tick w)"
      by (rule wp_decide [OF t])
        (use Some i True in \<open>auto simp: is_pending_def same_ledger intro!: E droppedI\<close>)
    then show ?thesis using True Some Q [OF t Some _ i] same_view(3) [OF s]
      by (simp add: load_pending_def wp_simps get_approval_def is_pending_def)
  next
    case False
    then show ?thesis using Some E s same_view(3) [OF s] same_ledger [OF s]
      by (simp add: load_pending_def wp_simps get_approval_def)
  qed
qed

lemma wp_deny:
  assumes s: "same l c w" and inv: "lg_inv l"
    and Q: "\<And>t. dropped i l (ledger_of t) \<Longrightarrow> Q () t"
    and E: "\<And>y t. ledger_of t = l \<or> dropped i l (ledger_of t) \<Longrightarrow> E y t"
  shows "wp (deny e i approver reason) Q E w"
  unfolding deny_def
  apply (rule wp_bind, rule wp_load_pending [OF s inv])
   apply (rule wp_bind, rule wp_decide, assumption, simp)
   apply (auto simp: wp_simps same_ledger intro!: Q E droppedI)
  done

lemma dropped_step: "dropped i l l' \<Longrightarrow> ledger_step l l'"
  unfolding dropped_def with_approval_def using Decide by auto

definition approved :: "env \<Rightarrow> config \<Rightarrow> string \<Rightarrow> string \<Rightarrow> ledger \<Rightarrow> capability \<Rightarrow> ledger \<Rightarrow> bool" where
  "approved e c i approver l cap l' \<longleftrightarrow> (\<exists>r pm pc jti now now' x later.
     lg_approvals l i = Some r \<and> is_pending r \<and> lg_tokens l (pa_parent_jti r) = Some pm
     \<and> pa_parent_jti r \<notin> lg_revoked l \<and> claims_from_metadata c pm = Inr pc \<and> x \<le> pa_parent_exp r
     \<and> cap = tok_mint_child e c jti now now' pc (pa_child_subject_id r) (pa_requested_scopes r) x True (Some approver)
     \<and> lg_tokens l jti = None
     \<and> l' = with_approval (decision r ''approved'' (Some approver) (Some jti) (Some (cap_token cap)) later)
             (issue (pa_parent_jti r) cap l))"

lemma claims_from_metadata_exempt [simp]:
  "claims_from_metadata (c\<lparr>cf_exempt_subject_ids := X\<rparr>) = claims_from_metadata c"
  by (intro ext) (simp add: claims_from_metadata_def split: option.split)

lemma same_log [simp, intro]: "same l c t \<Longrightarrow> same l c (log_event e ev t)"
  using stable_same [of e l c] by (simp add: stable_def)

lemma wp_approve_issue:
  assumes t: "same l c t" and r: "lg_approvals l i = Some r" "is_pending r" "pa_approval_id r = i"
    and pm: "lg_tokens l (pa_parent_jti r) = Some pm" "claims_from_metadata c pm = Inr pc"
    and live: "pa_parent_jti r \<notin> lg_revoked l" and x: "x \<le> pa_parent_exp r"
    and Q: "\<And>cap t. approved e c i approver l cap (ledger_of t) \<Longrightarrow> Q cap t"
    and E: "\<And>y t. same l c t \<Longrightarrow> E y t"
  shows "wp (approve_issue e i r pc approver x) Q E t"
  unfolding approve_issue_def
proof (rule wp_bind, rule wp_mint_childP [OF t], goal_cases)
  case (1 jti now now' t2)
  let ?cap = "tok_mint_child e c jti now now' pc (pa_child_subject_id r) (pa_requested_scopes r) x True (Some approver)"
  let ?l = "\<lambda>later. with_approval (decision r ''approved'' (Some approver) (Some jti) (Some (cap_token ?cap)) later)
      (issue (pa_parent_jti r) ?cap l)"
  have ok: "Q ?cap (log_event e ev t3)" if "same (?l later) c t3" "lg_tokens l jti = None" for t3 later ev
    by (rule Q) (use that r pm live x in \<open>auto simp: approved_def same_ledger intro!: exI\<close>)
  have fin: "wp (decide_approval e r ''approved'' (Some approver) (Some (cap_jti ?cap)) (Some (cap_token ?cap)))
      (\<lambda>_ t3. Q ?cap (log_event e ev t3)) E t4"
    if "same (issue (pa_parent_jti r) ?cap l) c t4" "lg_tokens l jti = None" for t4 ev
    by (rule wp_decide [OF that(1)]) (use r that(2) in \<open>auto simp: issue_def intro!: ok [unfolded issue_def]\<close>)
  have "wp (bindP (persist_token ?cap (Some (pa_parent_jti r))) (\<lambda>_. store_updP (add_edge (pa_parent_jti r) (cap_jti ?cap))))
      (\<lambda>_. wp (decide_approval e r ''approved'' (Some approver) (Some (cap_jti ?cap)) (Some (cap_token ?cap)))
        (\<lambda>_ t3. Q ?cap (log_event e ev t3)) E) E t2" for ev
    by (rule wp_persist_edge [OF 1]) (auto simp: cap_jti_def [symmetric] intro!: fin [unfolded cap_jti_mint_child] E)
  then show ?case by (simp add: wp_simps)
qed

lemma wp_approve:
  assumes s: "same l c w" and inv: "lg_inv l"
    and Q: "\<And>cap t. approved e c i approver l cap (ledger_of t) \<Longrightarrow> Q cap t"
    and E: "\<And>y t. ledger_of t = l \<or> dropped i l (ledger_of t) \<Longrightarrow> E y t"
  shows "wp (approve e i approver) Q E w"
  unfolding approve_def
proof (rule wp_bind, rule wp_load_pending [OF s inv], goal_cases)
  case (1 r t)
  note t = 1(1) and r = 1(2-4)
  have E': "E y t'" if "same l c t'" for y t' using E same_ledger that by blast
  show ?case
  proof (cases "lg_tokens l (pa_parent_jti r)")
    case None
    then show ?thesis using t E' by (simp add: wp_simps get_token_def same_view(1) [OF t])
  next
    case (Some pm)
    have drop: "wp (decide_approval e r st (Some approver) None None)
        (\<lambda>_ t'. ledger_of t' = l \<or> dropped i l (ledger_of t')) E t'" if "same l c t'" "st \<noteq> ''pending''" for st t'
      by (rule wp_decide [OF that(1)]) (use r that(2) in \<open>auto intro!: droppedI simp: same_ledger\<close>)
    have denied: "wp (decide_approval e r ''denied'' (Some approver) None None) (\<lambda>_ t'. E y (log_event e ev t')) E t"
      for y ev by (rule wp_mono [OF drop [OF t]]) (auto intro: E)
    have expired: "wp (decide_approval e r ''expired'' (Some approver) None None) (\<lambda>_ t'. E y t') E (tick t)"
      for y by (rule wp_mono [OF drop]) (use t in \<open>auto intro: E\<close>)
    obtain X where X: "w_config t = c\<lparr>cf_exempt_subject_ids := X\<rparr>" using t by (auto simp: same_def)
    have X': "w_config (tick t) = c\<lparr>cf_exempt_subject_ids := X\<rparr>" by (simp add: X tick_def)
    have tt: "same l c (tick t)" "same l c (tick (tick t))" using t by simp_all
    have minted: "wp (approve_issue e i r pc approver x) Q E (tick (tick t))"
      if "claims_from_metadata c pm = Inr pc" "pa_parent_jti r \<notin> lg_revoked l" "x \<le> pa_parent_exp r" for pc x
      by (rule wp_approve_issue [OF tt(2) r Some that(1,2,3) Q E'])
    have rest: "wp (bindP (\<lambda>w. (claims_from_metadata (w_config w) pm, w)) (\<lambda>pc. bindP (now_tsP e) (\<lambda>now2.
        approve_issue e i r pc approver (min (now2 + pa_ttl_seconds r) (pa_parent_exp r))))) Q E (tick t)"
      if "pa_parent_jti r \<notin> lg_revoked l"
    proof (cases "claims_from_metadata c pm")
      case (Inl y)
      then show ?thesis using E' [OF tt(1)] by (simp add: wp_def bindP_def X')
    next
      case (Inr pc)
      have "wp (\<lambda>w. (claims_from_metadata (w_config w) pm, w)) Q' E (tick t) = Q' pc (tick t)" for Q'
        by (simp add: wp_def X' Inr)
      then show ?thesis using minted [OF Inr that] by (simp add: wp_simps)
    qed
    show ?thesis
      using denied expired rest E' [OF t] tt Some same_view [OF t]
      by (auto simp: wp_simps get_token_def same_view [OF t])
  qed
qed (rule E)

section \<open>The other methods\<close>

lemma wp_persist_token:
  assumes "same l c w"
    and "\<And>t. lg_tokens l (cap_jti cap) = None \<Longrightarrow>
      same (l\<lparr>lg_tokens := (lg_tokens l)(cap_jti cap \<mapsto> meta_of (cap_claims cap) p)\<rparr>) c t \<Longrightarrow> Q () t"
    and "\<And>t. same l c t \<Longrightarrow> E StorageError t"
  shows "wp (persist_token cap p) Q E w"
proof -
  let ?m = "meta_of (cap_claims cap) p"
  have m: "tm_jti ?m = cap_jti cap" by (simp add: meta_of_def cap_jti_def)
  have "same (l\<lparr>lg_tokens := (lg_tokens l)(cap_jti cap \<mapsto> ?m)\<rparr>) c
      (w\<lparr>w_store := (w_store w)\<lparr>ms_tokens := dset (cap_jti cap) ?m (ms_tokens (w_store w))\<rparr>\<rparr>)"
    using assms(1) by (auto simp: same_def ledger_of_def)
  then show ?thesis
    using assms same_view(1) [OF assms(1)] by (simp add: persist_token_def wp_simps m)
qed

lemma wp_mint_root:
  assumes s: "same l c w"
    and Q: "\<And>cap t m. lg_tokens l (tm_jti m) = None \<Longrightarrow> is_root_meta m \<Longrightarrow> m = meta_of (cap_claims cap) None \<Longrightarrow>
      set (c_scopes (cap_claims cap)) = set sc \<Longrightarrow>
      ledger_of t = l\<lparr>lg_tokens := (lg_tokens l)(tm_jti m \<mapsto> m)\<rparr> \<Longrightarrow> Q cap t"
    and E: "\<And>y t. same l c t \<Longrightarrow> E y t"
  shows "wp (mint_root e name sc ttl d) Q E w"
proof (cases "sc = [] \<or> int_or d (cf_max_delegation_depth (w_config w)) < 1")
  case True
  then show ?thesis using s E by (auto simp: mint_root_def wp_simps Let_def)
next
  case False
  let ?d = "int_or d (cf_max_delegation_depth (w_config w))"
  let ?ttl = "min (int_or ttl (cf_default_ttl_seconds (w_config w))) (cf_max_ttl_seconds (w_config w))"
  have fin: "Q cap t2"
    if "cap = tok_mint_root e c' jti now sid sc ttl' ?d" "lg_tokens l (cap_jti cap) = None"
      "ledger_of t2 = l\<lparr>lg_tokens := (lg_tokens l)(cap_jti cap \<mapsto> meta_of (cap_claims cap) None)\<rparr>"
    for cap c' jti now sid ttl' t2
    by (rule Q [of "meta_of (cap_claims cap) None"])
      (use that False in \<open>auto simp: meta_of_def is_root_meta_def chain_jtis_def tok_mint_root_def cap_jti_def\<close>)
  show ?thesis
    unfolding mint_root_def using False
    apply (simp add: wp_getsP wp_bindP Let_def)
    apply (rule wp_keeps_throws [OF same_resolve [of l c] throws_resolve [where P = "\<lambda>_. True"] s], simp)
     apply (simp add: wp_simps)
     apply (rule wp_persist_token [where l = l and c = c], simp)
      apply (simp add: wp_simps)
      apply (rule fin, rule refl, assumption, simp add: same_ledger)
    apply (auto intro: E)
    done
qed

lemma wp_revoke:
  assumes s: "same l c w"
    and Q: "\<And>r t. ledger_of t = l\<lparr>lg_revoked := lg_revoked l \<union> (lg_edges l)\<^sup>* `` {j}\<rparr> \<Longrightarrow>
      set (rr_revoked_jtis r) = (lg_edges l)\<^sup>* `` {j} \<Longrightarrow> Q r t"
    and E: "\<And>y t. ledger_of t = l\<lparr>lg_revoked := lg_revoked l \<union> (lg_edges l)\<^sup>* `` {j}\<rparr> \<Longrightarrow> E y t"
  shows "wp (revoke e j reason) Q E w"
proof -
  obtain order where walk: "bfs (children_of (w_store w)) j = Some order" and
    set: "set order = (lg_edges l)\<^sup>* `` {j}"
    using mem_store.walk.bfs_Some [of "w_store w" j] mem_store.walk.bfs_set [of "w_store w" j]
      same_view(4) [OF s] by auto
  define l' where "l' = l\<lparr>lg_revoked := lg_revoked l \<union> (lg_edges l)\<^sup>* `` {j}\<rparr>"
  have queue: "keeps (same l' c) (queue_loop e ra rj al as)" for ra rj al as
  proof (induction as)
    case (Cons a as)
    have "keeps (same l' c) (store_updP (put_review v))" for v
      by (rule keeps_store_updP, rule same_store) (simp_all add: put_review_def)
    then show ?case using Cons
      by (simp add: Let_def) (intro impI conjI keeps_bindP keeps_liftP keeps_ret keeps_calls(4,5) stable_same | blast)+
  qed (simp add: keeps_ret)
  have q: "wp (queue_reviews e cands ra j) Q' E t"
    if "same l' c t" "\<And>a t'. same l' c t' \<Longrightarrow> Q' a t'" for cands ra Q' t
    unfolding queue_reviews_def
    by (rule wp_keeps [where I = "same l' c"])
      (use that queue E in \<open>auto intro!: keeps_bindP keeps_getsP simp: same_ledger l'_def\<close>)
  have rev: "same l' c (w\<lparr>w_tick := n, w_store := snd (revoke_many x order (w_store w))\<rparr>)" for x n
    using s by (auto simp: same_def ledger_of_def set l'_def)
  show ?thesis
    unfolding revoke_def descendants_breadth_first_def
    apply (simp add: wp_simps tick_def walk)
    apply (rule q [OF rev])
    apply (auto simp: same_ledger set l'_def intro!: Q)
    done
qed

text \<open>Methods that leave the ledger alone.\<close>

lemma keeps_same_writes [keep_intro]:
  "keeps (same l c) (storeP (put_action a))" "keeps (same l c) (store_updP (put_review v))"
  "keeps (same l c) (store_updP (\<lambda>st. snd (close_action i s t f st)))"
  "keeps (same l c) (store_updP close_store)"
  by ((rule keeps_storeP keeps_store_updP, rule same_store,
      auto simp: put_action_def put_review_def close_action_def close_store_def Let_def
        split: if_splits option.splits)+)

lemma keeps_same_update_review: "keeps (same l c) (storeP (update_review v))"
  by (rule keeps_storeP, rule same_store) (auto simp: update_review_def split: if_splits)

lemma keeps_same_methods:
  "keeps (same l c) (verify e tk s)" "keeps (same l c) (require e tk s)"
  "keeps (same l c) (action_enter e tok s n r)" "keeps (same l c) (action_exit e h cl x)"
  "keeps (same l c) (pending_reviews b1 b2)" "keeps (same l c) (resolve_review e i nt who)"
  "keeps (same l c) (chain e j)" "keeps (same l c) (verify_audit_integrity e)"
  "keeps (same l c) (audit_events ea ej el)" "keeps (same l c) (circuit_state_of e)"
  "keeps (same l c) (reset_circuit e)" "keeps (same l c) (rate_limit_snapshot e)" "keeps (same l c) close_firewall"
proof -
  note rules = keeps_ret keeps_raise keeps_getsP keeps_liftP keeps_bindP keeps_catchP keeps_if keeps_Let
    keeps_case_option keeps_case_sum keeps_calls keeps_rateP keeps_same_writes keeps_same_update_review
    keeps_readers stable_same
  show "keeps (same l c) (verify e tk s)" "keeps (same l c) (require e tk s)" by (intro rules)+
  show "keeps (same l c) (action_enter e tok s n r)" unfolding action_enter_def by (intro rules)
  show "keeps (same l c) (action_exit e h cl x)" unfolding action_exit_def close_handle_def by (intro rules)
  show "keeps (same l c) (pending_reviews b1 b2)" unfolding pending_reviews_def by (intro rules)
  show "keeps (same l c) (resolve_review e i nt who)" unfolding resolve_review_def by (intro rules)
  show "keeps (same l c) (chain e j)" unfolding chain_def by (intro rules)
  show "keeps (same l c) (verify_audit_integrity e)" unfolding verify_audit_integrity_def by (intro rules)
  show "keeps (same l c) (audit_events ea ej el)" unfolding audit_events_def by (intro rules)
  show s: "keeps (same l c) (circuit_state_of e)" unfolding circuit_state_of_def by (intro rules)
  have "keeps (same l c) (updP (\<lambda>w. w\<lparr>w_breaker := breaker_reset (w_breaker w)\<rparr>))"
    by (rule keeps_updP) (simp add: same_def)
  then show "keeps (same l c) (reset_circuit e)" unfolding reset_circuit_def by (intro rules s)
  show "keeps (same l c) (rate_limit_snapshot e)" unfolding rate_limit_snapshot_def by (intro rules)
  show "keeps (same l c) close_firewall" unfolding close_firewall_def by (intro rules)
qed

lemma wp_collect:
  assumes s: "same l c w" and inv: "lg_inv l"
  shows "wp (collect e i) (\<lambda>_. same l c) (\<lambda>_. same l c) w"
proof (cases "lg_approvals l i")
  case None
  then show ?thesis using s same_view(3) [OF s] by (simp add: collect_def wp_simps get_approval_def)
next
  case (Some r)
  then have "pa_approval_id r = i" using lg_approvalD [OF inv] by blast
  then have "same l c ((tick w)\<lparr>w_store := (w_store w)\<lparr>ms_approvals := dset (pa_approval_id r) r (ms_approvals (w_store w))\<rparr>\<rparr>)"
    using s Some by (auto simp: same_def ledger_of_def tick_def fun_upd_idem store_ledger_def [of "w_store w"])
  then show ?thesis using s Some same_view(3) [OF s]
    by (auto simp: collect_def wp_simps get_approval_def tick_def same_def ledger_of_def split: sum.splits)
qed

section \<open>Runs refine ledger steps\<close>

definition reaches :: "ledger \<Rightarrow> world \<Rightarrow> bool" where
  "reaches l w \<longleftrightarrow> ledger_step\<^sup>*\<^sup>* l (ledger_of w)"

lemma stable_reaches [simp]: "stable e (reaches l)"
  by (simp add: stable_def reaches_def)

lemma keeps_reaches_decide:
  assumes "status \<noteq> ''pending''"
  shows "keeps (reaches l) (decide_approval e r status b cj ct)"
proof -
  have "wp (decide_approval e r status b cj ct) (\<lambda>_. reaches l) (\<lambda>_. reaches l) w" if "reaches l w" for w
  proof (cases "dget (ms_approvals (w_store w)) (pa_approval_id r)")
    case None
    then show ?thesis using that by (simp add: decide_approval_def wp_simps tick_def reaches_def ledger_of_def)
  next
    case (Some a')
    let ?l = "ledger_of w"
    have a': "lg_approvals ?l (pa_approval_id r) = Some a'" using Some by (simp add: ledger_of_def store_ledger_def)
    have "wp (decide_approval e r status b cj ct)
        (\<lambda>_ t. \<exists>now. same (with_approval (decision r status b cj ct now) ?l) (w_config w) t) (\<lambda>_. reaches l) w"
      by (rule wp_decide [OF same_refl]) (use a' in auto)
    moreover have "ledger_step ?l (with_approval (decision r status b cj ct now) ?l)" for now
      using Decide [of ?l "decision r status b cj ct now" a'] a' assms
      by (simp add: with_approval_def decision_def is_pending_def)
    ultimately show ?thesis using that
      by (auto elim!: wp_mono simp: reaches_def same_def) (metis rtranclp.rtrancl_into_rtrancl)
  qed
  then show ?thesis by (simp add: keeps_wp)
qed

lemma keeps_reaches_expire: "keeps (reaches l) (expire_loop e now rs)"
  by (induction rs) (auto intro!: keeps_bindP keeps_ret keeps_calls keeps_if keeps_reaches_decide)

lemma keeps_reaches_pending: "keeps (reaches l) (expire_stale_approvals e)" "keeps (reaches l) (pending_approvals e)"
proof -
  show x: "keeps (reaches l) (expire_stale_approvals e)" for l
    unfolding expire_stale_approvals_def by (intro keeps_bindP keeps_getsP keeps_calls stable_reaches keeps_reaches_expire)
  show "keeps (reaches l) (pending_approvals e)"
    unfolding pending_approvals_def by (intro keeps_bindP keeps_getsP x)
qed

text \<open>
  \<open>honest\<close>: whatever claims a presented token decodes to, they are those of a token on record. This
  is unforgeability, stated over the store: only tokens signed with this firewall's key decode, and
  every token signed with it was recorded when it was minted.
\<close>

definition honest :: "env \<Rightarrow> world \<Rightarrow> string \<Rightarrow> bool" where
  "honest e w tok \<longleftrightarrow> (\<forall>now cl. tok_decode e (w_config w) now tok False = Inr cl \<longrightarrow>
     (\<exists>p. lg_tokens (ledger_of w) (c_jti cl) = Some (meta_of cl p)))"

fun delegated_from :: "op \<Rightarrow> string set" where
  "delegated_from (OpDelegate tok to sc ttl) = {tok}"
| "delegated_from _ = {}"

fun honest_run :: "env \<Rightarrow> op list \<Rightarrow> world \<Rightarrow> bool" where
  "honest_run e [] w = True"
| "honest_run e (p # ps) w =
     ((\<forall>tok \<in> delegated_from p. honest e w tok) \<and> honest_run e ps (final (run_op e p) w))"

lemma chain_jtis_meta_of [simp]: "chain_jtis (meta_of c p) = ancestor_jtis c"
  by (simp add: chain_jtis_def meta_of_def ancestor_jtis_def comp_def)

lemma meta_of_fields [simp]:
  "tm_jti (meta_of c p) = c_jti c" "tm_scopes (meta_of c p) = c_scopes c" "tm_depth (meta_of c p) = c_depth c"
  "tm_max_depth (meta_of c p) = c_max_depth c" "tm_root_jti (meta_of c p) = c_root_jti c"
  "tm_expires_at (meta_of c p) = from_ts (c_exp c)" "tm_parent_jti (meta_of c p) = p"
  by (simp_all add: meta_of_def)

lemma issues_step:
  assumes "issues e c parent (sorted_set sc) x False None l cap l'" and "grantable e c l tok sc parent"
    and "x \<le> c_exp parent" and "lg_tokens l (c_jti parent) = Some (meta_of parent p)"
  shows "ledger_step l l'"
proof -
  obtain jti now now' sid where cap: "cap = tok_mint_child e c jti now now' parent sid (sorted_set sc) x False None"
    "lg_tokens l jti = None" "l' = issue (c_jti parent) cap l"
    using assms(1) by (auto simp: issues_def)
  have nw: "narrower (meta_of (cap_claims cap) (Some (c_jti parent))) (meta_of parent p)"
    using assms(2,3) cap(1)
    by (auto simp: narrower_def tok_mint_child_def grantable_def scope_set_def ancestor_jtis_def chain_entry_for_def)
  have "cap_jti cap = jti" using cap(1) by simp
  then have "cap_jti cap = jti" "c_jti (cap_claims cap) = jti" by (simp_all add: cap_jti_def)
  then show ?thesis
    using Delegate [OF assms(4) _ nw] assms(2) cap(2,3) by (simp add: issue_def grantable_def live_def)
qed

lemma parks_step:
  assumes "parks parent (sorted_set sc) sens ttl l a l'" and "grantable e c l tok sc parent"
    and "lg_tokens l (c_jti parent) = Some (meta_of parent p)"
  shows "ledger_step l l'"
proof -
  have "covered a (meta_of parent p)" "is_pending a" "lg_tokens l (pa_parent_jti a) = Some (meta_of parent p)"
    using assms by (auto simp: parks_def covered_def grantable_def scope_set_def is_pending_def)
  from Park [OF this(3,1,2)] show ?thesis using assms(1) by (simp add: parks_def)
qed

lemma those_map_case:
  "those (map f js) = Some cs \<Longrightarrow> map g cs = map (\<lambda>j. case f j of Some x \<Rightarrow> g x | None \<Rightarrow> d) js"
  by (induction js arbitrary: cs) (auto split: option.splits)

lemma approved_steps:
  assumes inv: "lg_inv l" and ap: "approved e c i approver l cap l'"
  shows "ledger_step\<^sup>*\<^sup>* l l'"
proof -
  obtain r pm pc jti now now' x later where r: "lg_approvals l i = Some r" "is_pending r"
      "lg_tokens l (pa_parent_jti r) = Some pm" "pa_parent_jti r \<notin> lg_revoked l"
      "claims_from_metadata c pm = Inr pc" "x \<le> pa_parent_exp r" "lg_tokens l jti = None"
    and cap: "cap = tok_mint_child e c jti now now' pc (pa_child_subject_id r) (pa_requested_scopes r) x True (Some approver)"
    and l': "l' = with_approval (decision r ''approved'' (Some approver) (Some jti) (Some (cap_token cap)) later)
             (issue (pa_parent_jti r) cap l)"
    using ap unfolding approved_def by blast
  have cov: "covered r pm" "pa_approval_id r = i" using lg_approvalD [OF inv r(1)] r(2,3) by auto
  have pj: "tm_jti pm = pa_parent_jti r" using lg_tokenD [OF inv r(3)] by blast
  obtain chain where chain: "those (map entry_from_dict (tm_delegation_chain pm)) = Some chain"
    and pc: "c_delegation_chain pc = chain" "c_depth pc = tm_depth pm" "c_max_depth pc = tm_max_depth pm"
      "c_root_jti pc = tm_root_jti pm" "c_jti pc = tm_jti pm"
    using r(5) by (auto simp: claims_from_metadata_def split: option.splits)
  have "map ce_jti chain = chain_jtis pm"
    using those_map_case [OF chain] by (simp add: chain_jtis_def)
  then have nw: "narrower (meta_of (cap_claims cap) (Some (pa_parent_jti r))) pm"
    using cov r(6) pc pj
    by (auto simp: cap narrower_def tok_mint_child_def covered_def ancestor_jtis_def chain_entry_for_def)
      (metis from_ts_mono)
  have "cap_jti cap = jti" using cap by simp
  then have cj: "cap_jti cap = jti" "c_jti (cap_claims cap) = jti" by (simp_all add: cap_jti_def)
  then have one: "ledger_step l (issue (pa_parent_jti r) cap l)"
    using Delegate [OF r(3,4) nw] r(7) by (simp add: issue_def)
  have "lg_approvals (issue (pa_parent_jti r) cap l) i = Some r" using r(1) by (simp add: issue_def)
  then have two: "ledger_step (issue (pa_parent_jti r) cap l) l'"
    using Decide [of "issue (pa_parent_jti r) cap l" "decision r ''approved'' (Some approver) (Some jti) (Some (cap_token cap)) later" r]
      cov(2) by (simp add: l' with_approval_def decision_def is_pending_def)
  show ?thesis using one two by auto
qed

lemma keeps_imp_reaches: "(\<And>l c. keeps (same l c) m) \<Longrightarrow> wp m (\<lambda>_. reaches (ledger_of w)) (\<lambda>_. reaches (ledger_of w)) w"
  by (rule wp_keeps [where I = "same (ledger_of w) (w_config w)"])
    (auto simp: reaches_def same_refl same_ledger)

lemma wp_discard: "wp (discard m) Q E w = wp m (\<lambda>_. Q ()) E w"
  by (simp add: discard_def wp_simps)

lemma delegate_reaches:
  assumes "honest e w tok"
  shows "wp (delegate e tok to sc ttl) (\<lambda>_. reaches (ledger_of w)) (\<lambda>_. reaches (ledger_of w)) w"
proof -
  have rec: "\<exists>p. lg_tokens (ledger_of w) (c_jti parent) = Some (meta_of parent p)"
    if "grantable e (w_config w) (ledger_of w) tok sc parent" for parent
    using that assms by (auto simp: grantable_def live_def honest_def)
  show ?thesis
    by (rule wp_delegate [OF same_refl])
      (use rec issues_step parks_step in \<open>fastforce simp: reaches_def same_ledger\<close>)+
qed

lemma op_reaches:
  assumes inv: "lg_inv (ledger_of w)" and hon: "\<forall>tok \<in> delegated_from p. honest e w tok"
  shows "wp (run_op e p) (\<lambda>_. reaches (ledger_of w)) (\<lambda>_. reaches (ledger_of w)) w"
proof (cases p)
  case (OpMintRoot s sc ttl d)
  have "wp (mint_root e s sc ttl d) (\<lambda>_. reaches (ledger_of w)) (\<lambda>_. reaches (ledger_of w)) w"
  proof (rule wp_mint_root [OF same_refl], goal_cases)
    case (1 cap t m)
    then have "ledger_step (ledger_of w) (ledger_of t)" using Mint [OF 1(2,1)] by metis
    then show ?case by (auto simp: reaches_def)
  qed (auto simp: reaches_def same_ledger)
  then show ?thesis by (simp add: OpMintRoot wp_discard)
next
  case (OpDelegate tok to sc ttl)
  then show ?thesis using delegate_reaches hon by (simp add: wp_discard)
next
  case (OpRevoke j r)
  have "wp (revoke e j r) (\<lambda>_. reaches (ledger_of w)) (\<lambda>_. reaches (ledger_of w)) w"
    by (rule wp_revoke [OF same_refl]) (auto simp: reaches_def intro!: r_into_rtranclp Revoke)
  then show ?thesis by (simp add: OpRevoke wp_discard)
next
  case (OpApprove i a)
  have "wp (approve e i a) (\<lambda>_. reaches (ledger_of w)) (\<lambda>_. reaches (ledger_of w)) w"
    by (rule wp_approve [OF same_refl inv])
      (auto simp: reaches_def dest: dropped_step approved_steps [OF inv])
  then show ?thesis by (simp add: OpApprove wp_discard)
next
  case (OpDeny i a r)
  have "wp (deny e i a r) (\<lambda>_. reaches (ledger_of w)) (\<lambda>_. reaches (ledger_of w)) w"
    by (rule wp_deny [OF same_refl inv]) (auto simp: reaches_def dest: dropped_step)
  then show ?thesis by (simp add: OpDeny)
next
  case (OpCollect i)
  have "wp (collect e i) (\<lambda>_. reaches (ledger_of w)) (\<lambda>_. reaches (ledger_of w)) w"
    by (rule wp_mono [OF wp_collect [OF same_refl inv]]) (auto simp: reaches_def same_ledger)
  then show ?thesis by (simp add: OpCollect wp_discard)
next
  case OpPendingApprovals
  then show ?thesis using keeps_reaches_pending(2) by (auto simp: wp_discard keeps_wp reaches_def)
next
  case OpExpire
  then show ?thesis using keeps_reaches_pending(1) by (auto simp: wp_discard keeps_wp reaches_def)
qed (simp_all add: wp_discard keeps_imp_reaches keeps_same_methods)

lemma run_refines:
  "lg_inv (ledger_of w) \<Longrightarrow> honest_run e ops w \<Longrightarrow> ledger_step\<^sup>*\<^sup>* (ledger_of w) (ledger_of (run_ops e ops w))"
proof (induction ops arbitrary: w)
  case (Cons p ps)
  have "reaches (ledger_of w) (final (run_op e p) w)"
    using op_reaches [of w p e] Cons.prems by (auto simp: wp_final)
  then have step: "ledger_step\<^sup>*\<^sup>* (ledger_of w) (ledger_of (final (run_op e p) w))" by (simp add: reaches_def)
  with Cons show ?case by (auto simp: run_ops_Cons dest: lg_inv_steps intro: rtranclp_trans)
qed simp

lemma ledger_of_new [simp]: "ledger_of (new_firewall cfg) = empty_ledger"
  by (simp add: ledger_of_def new_firewall_def store_ledger_def empty_store_def empty_ledger_def
      mem_edges_def mem_revoked_def dget_list_def)

lemma run_inv: "honest_run e ops (new_firewall cfg) \<Longrightarrow> lg_inv (ledger_of (run_ops e ops (new_firewall cfg)))"
  using run_refines [of "new_firewall cfg" e ops] lg_inv_steps lg_inv_empty by simp

end
