(* ===== verification/Firewall_Properties.thy ===== *)
theory Firewall_Properties
  imports Firewall_Refines
begin

text \<open>
  What the firewall guarantees, method by method and over whole runs.
\<close>

section \<open>Verification\<close>

text \<open>The conditions under which \<open>verify\<close> answers yes; the n-th and following readings are its own.\<close>

definition verifiable :: "env \<Rightarrow> world \<Rightarrow> string option \<Rightarrow> string \<Rightarrow> claims \<Rightarrow> bool" where
  "verifiable e w tok scope c \<longleftrightarrow> \<not> br_open (w_breaker w) \<and> str_or tok '''' \<noteq> ''''
     \<and> tok_decode e (w_config w) (e_clock e (Suc (w_tick w))) (str_or tok '''') False = Inr c
     \<and> ts_of (e_clock e (w_tick w + 3)) \<le> c_exp c \<and> c_jti c \<notin> mem_revoked (w_store w)
     \<and> set (ancestor_jtis c) \<inter> mem_revoked (w_store w) = {} \<and> scope \<in> scope_set c"

lemma wp_rateP:
  assumes "\<And>b. Q () ((tick w)\<lparr>w_rate := b\<rparr>)"
    and "\<And>x b. rate_check (w_config w) s act (e_clock e (w_tick w)) (w_rate w) = (Inl x, b) \<Longrightarrow>
      E x ((tick w)\<lparr>w_rate := b\<rparr>)"
  shows "wp (rateP e s act) Q E w"
  using assms by (auto simp: wp_def rateP_def split: prod.splits sum.splits)

text \<open>The two ways \<open>verify\<close> may raise instead of answering.\<close>

definition verify_unanswered :: "env \<Rightarrow> world \<Rightarrow> claims \<Rightarrow> agp_error \<Rightarrow> bool" where
  "verify_unanswered e w c x \<longleftrightarrow> (x = StorageError \<and> ms_closed (w_store w))
     \<or> (\<exists>b. rate_check (w_config w) (c_sub c) ''verify'' (e_clock e (w_tick w + 2)) (w_rate w) = (Inl x, b))"

lemma wp_verify_deny:
  assumes "\<And>v t. \<not> vr_valid v \<Longrightarrow> ledger_of t = ledger_of w \<Longrightarrow> Q v t"
  shows "wp (verify_deny e s c sc r) Q E w"
  using assms by (simp add: verify_deny_def wp_simps)

lemma wp_verify_claims:
  assumes l: "ledger_of t0 = ledger_of w" and n: "w_tick t0 = w_tick w + 2"
    and f: "w_config t0 = w_config w" "w_rate t0 = w_rate w" "ms_closed (w_store t0) = ms_closed (w_store w)"
    and Q: "\<And>v t. ledger_of t = ledger_of w \<Longrightarrow>
      (vr_valid v \<longleftrightarrow> ts_of (e_clock e (w_tick w + 3)) \<le> c_exp c
         \<and> set (c_jti c # ancestor_jtis c) \<inter> mem_revoked (w_store w) = {} \<and> scope \<in> scope_set c) \<Longrightarrow>
      (vr_valid v \<Longrightarrow> vr_claims v = Some c) \<Longrightarrow> Q v t"
    and E: "\<And>x t. ledger_of t = ledger_of w \<Longrightarrow> verify_unanswered e w c x \<Longrightarrow> E x t"
  shows "wp (verify_claims e s c scope) Q E t0"
proof -
  have rv: "lg_revoked (ledger_of t) = mem_revoked (w_store w)" if "ledger_of t = ledger_of w" for t
    using that by (simp add: ledger_of_def store_ledger_def)
  have deny: "wp (verify_deny e s c scope r) Q E t" if "ledger_of t = ledger_of w"
    "\<not> (ts_of (e_clock e (w_tick w + 3)) \<le> c_exp c
         \<and> set (c_jti c # ancestor_jtis c) \<inter> mem_revoked (w_store w) = {} \<and> scope \<in> scope_set c)" for r t
    by (rule wp_verify_deny) (use that in \<open>auto intro!: Q\<close>)
  have yes: "Q v (log_event e ev (tick (circuit_record e False (Some (c_sub c)) False t)))"
    if "ledger_of t = ledger_of w" "ts_of (e_clock e (w_tick w + 3)) \<le> c_exp c"
      "set (c_jti c # ancestor_jtis c) \<inter> mem_revoked (w_store w) = {}" "scope \<in> scope_set c"
      "vr_valid v" "vr_claims v = Some c" for v t ev
    by (rule Q) (use that in auto)
  show ?thesis
    unfolding verify_claims_def
  proof (rule wp_bind, rule wp_rateP, goal_cases)
    case (1 b)
    let ?t = "tick ((tick t0)\<lparr>w_rate := b\<rparr>)"
    have t: "ledger_of ?t = ledger_of w" "ms_closed (w_store ?t) = ms_closed (w_store w)"
      using l f(3) by (simp_all add: tick_def)
    have now: "e_clock e (w_tick (tick t0)) = e_clock e (w_tick w + 3)"
      using n by (simp add: tick_def numeral_3_eq_3)
    show ?case
    proof (cases "c_exp c < ts_of (e_clock e (w_tick w + 3))")
      case True
      then show ?thesis using deny [OF t(1)] by (simp add: wp_bindP wp_calls now)
    next
      case False
      have "wp (any_revoked (c_jti c # ancestor_jtis c)) (\<lambda>dead t. wp
          (if dead then verify_deny e s c scope REASON_REVOKED
           else if scope \<notin> scope_set c then verify_deny e s c scope REASON_SCOPE_NOT_GRANTED
           else bindP (circuitP e False (Some (c_sub c)) False) (\<lambda>_.
             bindP (perfP e) (\<lambda>t.
             bindP (auditP e (blank_event\<lparr>ev_action := ''verify_allowed'', ev_actor_id := Some (c_sub c),
               ev_jti := Some (c_jti c), ev_root_jti := Some (c_root_jti c),
               ev_required_scope := Some scope, ev_scopes := Some (c_scopes c),
               ev_decision := Some ''allow'', ev_depth := Some (c_depth c),
               ev_latency_us := Some (t - s)\<rparr>)) (\<lambda>_.
             ret \<lparr>vr_valid = True, vr_reason = None, vr_claims = Some c, vr_latency_us = t - s\<rparr>)))) Q E t) E ?t"
        by (rule wp_any_revoked [OF same_refl])
          (use False t deny [OF t(1)] rv [OF t(1)] in \<open>auto simp: wp_simps verify_unanswered_def intro!: yes E\<close>)
      then show ?thesis
        using False by (simp add: wp_bindP wp_calls now del: any_revoked.simps)
    qed
  qed (use l n f in \<open>auto simp: verify_unanswered_def intro!: E\<close>)
qed

lemma wp_verify:
  assumes Q: "\<And>v t. ledger_of t = ledger_of w \<Longrightarrow>
      (vr_valid v \<longleftrightarrow> (\<exists>c. verifiable e w tok scope c)) \<Longrightarrow>
      (\<And>c. vr_valid v \<Longrightarrow> verifiable e w tok scope c \<Longrightarrow> vr_claims v = Some c) \<Longrightarrow> Q v t"
    and E: "\<And>c x t. ledger_of t = ledger_of w \<Longrightarrow> \<not> br_open (w_breaker w) \<Longrightarrow>
      tok_decode e (w_config w) (e_clock e (Suc (w_tick w))) (str_or tok '''') False = Inr c \<Longrightarrow>
      verify_unanswered e w c x \<Longrightarrow> E x t"
  shows "wp (verify e tok scope) Q E w"
proof (cases "br_open (w_breaker w) \<or> str_or tok '''' = ''''")
  case True
  then have "\<not> verifiable e w tok scope c" for c by (auto simp: verifiable_def)
  with True show ?thesis by (auto simp: verify_def wp_simps tick_def ledger_of_def intro!: Q)
next
  case False
  let ?dec = "tok_decode e (w_config w) (e_clock e (Suc (w_tick w))) (str_or tok '''') False"
  show ?thesis
  proof (cases ?dec)
    case (Inl x)
    then have no: "\<not> verifiable e w tok scope c" for c by (simp add: verifiable_def)
    have "Q v (tick (log_event e ev (circuit_record e True None True (tick (tick w)))))" if "\<not> vr_valid v" for v ev
      by (rule Q) (use that no in auto)
    then show ?thesis using False Inl by (simp add: verify_def wp_simps) (simp add: tick_def)
  next
    case (Inr c)
    have v: "verifiable e w tok scope c' \<longleftrightarrow> c' = c \<and> ts_of (e_clock e (w_tick w + 3)) \<le> c_exp c
         \<and> set (c_jti c # ancestor_jtis c) \<inter> mem_revoked (w_store w) = {} \<and> scope \<in> scope_set c" for c'
      using Inr False by (auto simp: verifiable_def)
    have "wp (verify_claims e s c scope) Q E (tick (tick w))" for s
      by (rule wp_verify_claims)
        (use v False Inr in \<open>auto simp: tick_def ledger_of_def intro!: Q E\<close>)
    then show ?thesis using False Inr by (simp add: verify_def wp_simps tick_def)
  qed
qed


text \<open>C3: verification is exact. \<open>verify\<close> never changes the token ledger; it answers yes exactly when the
  breaker is closed and the token is authentic, not expired, neither it nor any ancestor it names is
  revoked and its scopes hold the required one, and then it returns the token's own claims; and it
  raises only for an authentic token whose subject is over its rate limit or whose storage is closed.\<close>

theorem verify_exact:
  "case verify e tok scope w of
     (Inr v, t) \<Rightarrow> ledger_of t = ledger_of w
       \<and> (vr_valid v \<longleftrightarrow> (\<exists>c. verifiable e w tok scope c \<and> vr_claims v = Some c))
   | (Inl x, t) \<Rightarrow> ledger_of t = ledger_of w \<and> \<not> br_open (w_breaker w)
       \<and> (\<exists>c. tok_decode e (w_config w) (e_clock e (Suc (w_tick w))) (str_or tok '''') False = Inr c
              \<and> verify_unanswered e w c x)"
proof -
  have "wp (verify e tok scope)
    (\<lambda>v t. ledger_of t = ledger_of w \<and> (vr_valid v \<longleftrightarrow> (\<exists>c. verifiable e w tok scope c \<and> vr_claims v = Some c)))
    (\<lambda>x t. ledger_of t = ledger_of w \<and> \<not> br_open (w_breaker w)
       \<and> (\<exists>c. tok_decode e (w_config w) (e_clock e (Suc (w_tick w))) (str_or tok '''') False = Inr c
              \<and> verify_unanswered e w c x)) w"
    by (rule wp_verify) blast+
  then show ?thesis by (auto simp: wp_def split: prod.splits sum.splits)
qed

section \<open>Delegation\<close>

text \<open>C1: delegation only narrows, and only its success or the approval gate leaves a trace in the
  ledger. A granted child comes from an authentic parent that, with all its ancestors, is unrevoked;
  its scopes are the requested ones and within the parent's, it expires no later, sits one level
  deeper within the unchanged depth limit, keeps the root, appends the parent to the chain, holds no
  sensitive scope, and the ledger gains its record and its edge under a fresh id and nothing else. A
  request for sensitive scopes mints nothing and leaves one pending request; every other failure
  leaves the ledger as it was.\<close>

theorem delegate_only_narrows:
  "case delegate e tok to sc ttl w of
     (Inr cap, t) \<Rightarrow> \<exists>parent. live e (w_config w) (ledger_of w) tok parent \<and> sc \<noteq> []
       \<and> set (cap_scopes cap) = set sc \<and> set sc \<subseteq> scope_set parent \<and> c_exp (cap_claims cap) \<le> c_exp parent
       \<and> cap_depth cap = c_depth parent + 1 \<and> cap_depth cap \<le> c_max_depth parent
       \<and> c_max_depth (cap_claims cap) = c_max_depth parent \<and> c_root_jti (cap_claims cap) = c_root_jti parent
       \<and> ancestor_jtis (cap_claims cap) = ancestor_jtis parent @ [c_jti parent]
       \<and> sensitive_subset (w_config w) sc = [] \<and> \<not> c_approval_required (cap_claims cap)
       \<and> lg_tokens (ledger_of w) (cap_jti cap) = None \<and> ledger_of t = issue (c_jti parent) cap (ledger_of w)
   | (Inl (ApprovalRequired i req sens), t) \<Rightarrow> sens \<noteq> [] \<and> set sens = set (sensitive_subset (w_config w) sc)
       \<and> (\<exists>a parent. live e (w_config w) (ledger_of w) tok parent \<and> set sc \<subseteq> scope_set parent
            \<and> pa_approval_id a = i \<and> is_pending a \<and> pa_parent_jti a = c_jti parent \<and> pa_requested_scopes a = sorted_set sc
            \<and> ledger_of t = with_approval a (ledger_of w))
   | (Inl _, t) \<Rightarrow> ledger_of t = ledger_of w"
  (is "case _ of (Inr cap, t) \<Rightarrow> ?ok cap t | (Inl y, t) \<Rightarrow> ?err y t")
proof -
  have sens: "set (sensitive_subset c (sorted_set sc)) = set (sensitive_subset c sc)" for c
    by (auto simp: sensitive_subset_def)
  then have nil: "sensitive_subset c (sorted_set sc) = [] \<longleftrightarrow> sensitive_subset c sc = []" for c
    by (metis set_empty)
  have "wp (delegate e tok to sc ttl) ?ok ?err w"
  proof (rule wp_delegate [OF same_refl], goal_cases)
    case (1 parent x cap t)
    then show ?case unfolding nil
      by (auto simp: issues_def grantable_def tok_mint_child_def cap_scopes_def cap_depth_def cap_jti_def
          ancestor_jtis_def chain_entry_for_def intro!: exI [of _ parent])
  next
    case (2 parent a t ttl)
    then show ?case
      by (auto simp: parks_def grantable_def sens is_pending_def with_approval_def intro!: exI [of _ a] exI [of _ parent])
  next
    case (3 y t)
    then show ?case by (cases y) (auto simp: same_ledger)
  qed
  then show ?thesis by (simp add: wp_def split: prod.splits sum.splits)
qed

text \<open>A program whose result, when it returns, satisfies \<open>P\<close>, from wherever it starts: only its last call
  matters.\<close>

definition yields :: "('a \<Rightarrow> 's \<Rightarrow> bool) \<Rightarrow> ('s, 'e, 'a) prog \<Rightarrow> bool" where
  "yields P m \<longleftrightarrow> (\<forall>w. wp m P (\<lambda>_ _. True) w)"

lemma yields_iff: "yields P m \<longleftrightarrow> (\<forall>w a t. m w = (Inr a, t) \<longrightarrow> P a t)"
  by (simp add: yields_def wp_def split: prod.splits sum.splits) (metis prod.inject sum.distinct(1) sum.inject(2))

lemma yields_intro:
  "(\<And>a. yields P (k a)) \<Longrightarrow> yields P (bindP first k)"
  "yields P (raise x)"
  "yields P m \<Longrightarrow> yields P n \<Longrightarrow> yields P (if b then m else n)"
  "(\<And>x. yields P (f x)) \<Longrightarrow> yields P (Let y f)"
  "yields P m \<Longrightarrow> (\<And>x. yields P (g x)) \<Longrightarrow> yields P (case z of None \<Rightarrow> m | Some x \<Rightarrow> g x)"
  by (auto simp: yields_iff bindP_def raise_def split: prod.splits sum.splits option.splits)

text \<open>A capability carries the second of a reading of the clock that is over when it is handed out.\<close>

definition stamped :: "env \<Rightarrow> capability \<Rightarrow> world \<Rightarrow> bool" where
  "stamped e cap t \<longleftrightarrow> (\<exists>k < w_tick t. c_iat (cap_claims cap) = ts_of (e_clock e k))"

lemma circuit_record_tick: "w_tick w \<le> w_tick (circuit_record e err sid pol w)"
  by (simp add: circuit_record_def Let_def log_event_frame tick_def split: prod.splits option.splits)

lemma stamped_mint:
  "k < w_tick u \<Longrightarrow> stamped e (tok_mint_child e' c jti (e_clock e k) now' parent sid sc x a b) u"
  by (auto simp: stamped_def tok_mint_child_def)

lemma yields_delegate: "yields (stamped e) (delegate e tok to sc ttl)"
proof -
  have "yields (stamped e) (delegate_issue e parent to req x)" for parent req x
    unfolding delegate_issue_def
    apply (rule yields_intro(1))
    apply (simp add: yields_def wp_simps mint_childP_def persist_token_def)
    apply (auto intro!: stamped_mint less_le_trans [OF _ circuit_record_tick] simp: log_event_frame tick_def)
    done
  then show ?thesis unfolding delegate_def delegate_granted_def by (intro yields_intro)
qed

lemma yields_approve: "yields (stamped e) (approve e i a)"
proof -
  have "yields (stamped e) (approve_issue e i r pc a x)" for r pc x
    unfolding approve_issue_def yields_def
    by (auto simp: wp_simps mint_childP_def persist_token_def decide_approval_def log_event_frame tick_def intro!: stamped_mint)
  then show ?thesis unfolding approve_def by (intro yields_intro)
qed

text \<open>On a clock that does not go back, nor before the epoch, the issue time is past at any later reading.\<close>

lemma stamped_past:
  assumes "stamped e cap t" and "clock_forward e" and "0 \<le> e_clock e 0" and "w_tick t \<le> n"
  shows "from_ts (c_iat (cap_claims cap)) \<le> e_clock e n"
proof -
  obtain k where k: "k < w_tick t" "c_iat (cap_claims cap) = ts_of (e_clock e k)" using assms(1) by (auto simp: stamped_def)
  have "e_clock e 0 \<le> e_clock e k" "e_clock e k \<le> e_clock e n"
    using assms(2,4) k(1) by (auto simp: clock_forward_def mono_def)
  moreover have "from_ts (ts_of x) \<le> x" if "0 \<le> x" for x using that by (simp add: ts_of_def from_ts_def)
  ultimately show ?thesis using k(2) assms(3) by (metis order_trans)
qed

text \<open>What the checks of one call share: the key, the algorithm and the issuer.\<close>

definition same_keys :: "config \<Rightarrow> config \<Rightarrow> bool" where
  "same_keys c d \<longleftrightarrow> cf_jwt_secret d = cf_jwt_secret c \<and> cf_jwt_algorithm d = cf_jwt_algorithm c \<and> cf_issuer d = cf_issuer c"

lemma tok_decode_minted:
  assumes "cap = tok_mint_child e c jti now now' parent sid sc x a b" and "same_keys c d"
    and "jwt_roundtrip e (cf_jwt_secret c) (cf_jwt_algorithm c) (to_payload (cap_claims cap))"
    and "cap_token cap \<noteq> ''''" and "from_ts (c_iat (cap_claims cap)) \<le> later"
  shows "tok_decode e d later (cap_token cap) False = Inr (cap_claims cap)"
proof -
  have "cap_token cap = encode_claims e d (cap_claims cap)" "c_iss (cap_claims cap) = cf_issuer d"
    using assms(1,2) by (simp_all add: tok_mint_child_def capability_of_def encode_claims_def same_keys_def)
  then show ?thesis using tok_decode_encode [of e d "cap_claims cap" later] assms by (simp add: same_keys_def)
qed

text \<open>C22: what was delegated verifies, and as what was delegated. Take a capability that \<open>delegate\<close> returned
  and, at any later time, any firewall with the same key, algorithm and issuer (the same one after any
  calls, or another process). Presenting its token string there for a scope is answered yes exactly
  when the breaker is closed, the scope is one of those requested, the token has not expired and
  neither it nor an ancestor is revoked there; the answer then carries exactly the claims that were
  granted. The string never fails to decode: an exception can only be the rate limit's or a closed
  storage's. The hypotheses on PyJWT are \<open>jwt_roundtrip\<close> of this payload and that its string is not
  empty; the reading of the clock at the decoding is not before the whole second of issue.\<close>

theorem delegated_capability_verifies:
  assumes "delegate e tok to sc ttl w = (Inr cap, t)"
    and "jwt_roundtrip e (cf_jwt_secret (w_config w)) (cf_jwt_algorithm (w_config w)) (to_payload (cap_claims cap))"
    and "cap_token cap \<noteq> ''''" and "same_keys (w_config w) (w_config u)"
    and "from_ts (c_iat (cap_claims cap)) \<le> e_clock e (Suc (w_tick u))"
  shows "case verify e (Some (cap_token cap)) scope u of
     (Inr v, _) \<Rightarrow> (vr_valid v \<longleftrightarrow> \<not> br_open (w_breaker u) \<and> scope \<in> set sc
           \<and> ts_of (e_clock e (w_tick u + 3)) \<le> c_exp (cap_claims cap) \<and> cap_jti cap \<notin> mem_revoked (w_store u)
           \<and> set (ancestor_jtis (cap_claims cap)) \<inter> mem_revoked (w_store u) = {})
       \<and> (vr_valid v \<longrightarrow> vr_claims v = Some (cap_claims cap))
   | (Inl x, _) \<Rightarrow> \<not> br_open (w_breaker u) \<and> verify_unanswered e u (cap_claims cap) x"
proof -
  have "wp (delegate e tok to sc ttl) (\<lambda>cap _. \<exists>jti now now' parent sid x.
      cap = tok_mint_child e (w_config w) jti now now' parent sid (sorted_set sc) x False None) (\<lambda>_ _. True) w"
    by (rule wp_delegate [OF same_refl]) (unfold issues_def, blast+)
  then obtain jti now now' parent sid x where
    cap: "cap = tok_mint_child e (w_config w) jti now now' parent sid (sorted_set sc) x False None"
    using assms(1) by (auto simp: wp_def)
  have tok: "str_or (Some (cap_token cap)) '''' = cap_token cap"
    using assms(3) by (cases "cap_token cap") (simp_all add: str_or_def)
  have dec: "tok_decode e (w_config u) (e_clock e (Suc (w_tick u))) (str_or (Some (cap_token cap)) '''') False
      = Inr (cap_claims cap)"
    unfolding tok by (rule tok_decode_minted [OF cap assms(4,2,3,5)])
  have "scope_set (cap_claims cap) = set sc" "c_jti (cap_claims cap) = cap_jti cap"
    using cap by (simp_all add: tok_mint_child_def scope_set_def cap_jti_def)
  then have v: "verifiable e u (Some (cap_token cap)) scope c \<longleftrightarrow> c = cap_claims cap \<and> \<not> br_open (w_breaker u)
      \<and> scope \<in> set sc \<and> ts_of (e_clock e (w_tick u + 3)) \<le> c_exp (cap_claims cap) \<and> cap_jti cap \<notin> mem_revoked (w_store u)
      \<and> set (ancestor_jtis (cap_claims cap)) \<inter> mem_revoked (w_store u) = {}" for c
    using dec assms(3) by (auto simp: verifiable_def tok)
  have "wp (verify e (Some (cap_token cap)) scope)
    (\<lambda>v _. (vr_valid v \<longleftrightarrow> \<not> br_open (w_breaker u) \<and> scope \<in> set sc
           \<and> ts_of (e_clock e (w_tick u + 3)) \<le> c_exp (cap_claims cap) \<and> cap_jti cap \<notin> mem_revoked (w_store u)
           \<and> set (ancestor_jtis (cap_claims cap)) \<inter> mem_revoked (w_store u) = {})
       \<and> (vr_valid v \<longrightarrow> vr_claims v = Some (cap_claims cap)))
    (\<lambda>x _. \<not> br_open (w_breaker u) \<and> verify_unanswered e u (cap_claims cap) x) u"
    by (rule wp_verify) (use v dec in auto)
  then show ?thesis by (simp add: wp_def split: prod.splits sum.splits)
qed

text \<open>When \<open>delegate\<close> grants: the conditions it checks, each at the clock reading it uses.\<close>

definition root_alive :: "env \<Rightarrow> world \<Rightarrow> claims \<Rightarrow> bool" where
  "root_alive e w c \<longleftrightarrow> (\<exists>m. dget (ms_tokens (w_store w)) (c_root_jti c) = Some m \<and> tm_depth m = 0
     \<and> e_clock e (w_tick w + 3) \<le> tm_expires_at m) \<and> c_root_jti c \<notin> mem_revoked (w_store w)"

definition delegable :: "env \<Rightarrow> world \<Rightarrow> string \<Rightarrow> string list \<Rightarrow> claims \<Rightarrow> bool" where
  "delegable e w tok sc c \<longleftrightarrow> \<not> br_open (w_breaker w) \<and> sc \<noteq> []
     \<and> tok_decode e (w_config w) (e_clock e (w_tick w)) tok False = Inr c
     \<and> ts_of (e_clock e (Suc (w_tick w))) \<le> c_exp c
     \<and> set (c_jti c # ancestor_jtis c) \<inter> mem_revoked (w_store w) = {}
     \<and> fst (rate_check (w_config w) (c_sub c) ''delegate'' (e_clock e (w_tick w + 2)) (w_rate w)) = Inr ()
     \<and> root_alive e w c \<and> set sc \<subseteq> scope_set c \<and> c_depth c + 1 \<le> c_max_depth c
     \<and> sensitive_subset (w_config w) sc = []"

text \<open>The store is open, its subject index is sound and \<open>uuid4\<close> will return no id already in use.\<close>

definition ready :: "env \<Rightarrow> world \<Rightarrow> bool" where
  "ready e w \<longleftrightarrow> \<not> ms_closed (w_store w) \<and> subjects_ok (ms_subjects (w_store w)) (ms_subject_by_hash (w_store w))
     \<and> (\<forall>n \<ge> w_tick w. dget (ms_tokens (w_store w)) (e_uuid4 e n) = None)"

lemma wp_observeP: "(\<And>f b. Q f ((tick w)\<lparr>w_anomaly := b\<rparr>)) \<Longrightarrow> wp (observeP e s n) Q E w"
  by (simp add: wp_def observeP_def split: prod.splits)

lemma wp_get_subject:
  assumes "subjects_ok (ms_subjects st) (ms_subject_by_hash st)"
    and "\<And>s a b. Q s (st\<lparr>ms_subjects := a, ms_subject_by_hash := b\<rparr>)"
  shows "wp (get_or_create_subject u n h k l) Q E st"
proof (cases "dget (ms_subject_by_hash st) (h, k)")
  case None
  then show ?thesis using assms(2) by (simp add: wp_def get_or_create_subject_def Let_def)
next
  case (Some sid)
  then obtain s where "dget (ms_subjects st) sid = Some s" using assms(1) unfolding subjects_ok_def by blast
  then show ?thesis using Some assms(2) [of s "ms_subject_by_hash st" "ms_subjects st"]
    by (simp add: wp_def get_or_create_subject_def)
qed

lemma wp_issue_ready:
  assumes "ready e w"
  shows "wp (delegate_issue e parent to req x) (\<lambda>_ _. True) (\<lambda>_ _. False) w"
  using assms unfolding delegate_issue_def resolve_subject_def ready_def
  apply (simp add: wp_simps)
  apply (rule wp_get_subject)
   apply (simp add: tick_def)
  apply (simp add: wp_simps mint_childP_def persist_token_def tick_def)
  apply (simp add: meta_of_def tok_mint_child_def)
  done

lemma ready_later:
  "ready e w \<Longrightarrow> ready e (tick w)" "ready e w \<Longrightarrow> ready e (log_event e ev w)"
  "ready e (w\<lparr>w_anomaly := b\<rparr>) = ready e w" "ready e (w\<lparr>w_rate := r\<rparr>) = ready e w"
  by (auto simp: ready_def tick_def log_event_frame)

lemma tick_fields [simp]:
  "w_config (tick w) = w_config w" "w_store (tick w) = w_store w" "w_rate (tick w) = w_rate w"
  "w_breaker (tick w) = w_breaker w" "w_anomaly (tick w) = w_anomaly w" "w_tick (tick w) = Suc (w_tick w)"
  by (simp_all add: tick_def)

lemma tick_store_id: "(tick t)\<lparr>w_store := w_store t\<rparr> = tick t"
  by (simp add: tick_def)

lemma wp_granted_ready:
  assumes "ready e w" and "sensitive_subset (w_config w) req = []"
  shows "wp (delegate_granted e parent to req ttl) (\<lambda>_ _. True) (\<lambda>_ _. False) w"
  unfolding delegate_granted_def
  by (intro wp_bind wp_observeP)
    (use assms in \<open>auto simp: wp_simps ready_later log_event_frame intro!: wp_issue_ready split: option.splits\<close>)

lemma wp_root_exact:
  assumes ready: "ready e w" and t: "w_store t = w_store w" "w_tick t = w_tick w + 3"
    and Q: "root_alive e w c \<Longrightarrow> Q () (tick t)" and E: "\<And>x t'. \<not> root_alive e w c \<Longrightarrow> E x t'"
  shows "wp (assert_root_alive e c) Q E t"
proof -
  have "(tick t)\<lparr>w_store := w_store w\<rparr> = tick t" using tick_store_id [of t] t(1) by metis
  then have "root_alive e w c \<Longrightarrow> Q () ((tick t)\<lparr>w_store := w_store w\<rparr>)" using Q by (simp only:)
  then show ?thesis using t E ready unfolding assert_root_alive_def
    by (auto simp: wp_simps root_alive_def ready_def get_token_def split: option.splits)
qed

lemma wp_rate_exact:
  assumes "w_config t = w_config w" "w_rate t = w_rate w" "w_tick t = n"
    and "\<And>b. fst (rate_check (w_config w) s act (e_clock e n) (w_rate w)) = Inr () \<Longrightarrow> Q () ((tick t)\<lparr>w_rate := b\<rparr>)"
    and "\<And>x t. fst (rate_check (w_config w) s act (e_clock e n) (w_rate w)) \<noteq> Inr () \<Longrightarrow> E x t"
  shows "wp (rateP e s act) Q E t"
  using assms by (auto simp: wp_def rateP_def split: prod.splits sum.splits)

lemma wp_decode_exact:
  assumes open_store: "\<not> ms_closed (w_store w)"
    and dec: "tok_decode e (w_config w) (e_clock e (w_tick w)) tok False = Inr c"
    and Q: "ts_of (e_clock e (Suc (w_tick w))) \<le> c_exp c \<Longrightarrow>
      set (c_jti c # ancestor_jtis c) \<inter> mem_revoked (w_store w) = {} \<Longrightarrow> Q c (tick (tick w))"
    and E: "\<And>x t. \<not> (ts_of (e_clock e (Suc (w_tick w))) \<le> c_exp c
      \<and> set (c_jti c # ancestor_jtis c) \<inter> mem_revoked (w_store w) = {}) \<Longrightarrow> E x t"
  shows "wp (decode_live e tok) Q E w"
proof (cases "ts_of (e_clock e (Suc (w_tick w))) \<le> c_exp c")
  case True
  have "wp (any_revoked (c_jti c # ancestor_jtis c))
      (\<lambda>dead t. wp (if dead then raise (ParentTokenInvalid REASON_REVOKED) else ret c) Q E t) E (tick (tick w))"
    by (rule wp_any_revoked [OF same_refl])
      (use True open_store Q E in \<open>auto simp: wp_simps ledger_of_def store_ledger_def\<close>)
  then show ?thesis using True dec by (simp add: decode_live_def wp_simps del: any_revoked.simps)
qed (use dec E in \<open>auto simp: decode_live_def wp_simps\<close>)

lemma wp_delegate_exact:
  assumes ready: "ready e w" and ok: "\<not> br_open (w_breaker w)" "sc \<noteq> []"
    and dec: "tok_decode e (w_config w) (e_clock e (w_tick w)) tok False = Inr c"
  shows "wp (delegate e tok to sc ttl) (\<lambda>_ _. delegable e w tok sc c) (\<lambda>_ _. \<not> delegable e w tok sc c) w"
    (is "wp _ ?Q ?E w")
proof -
  have nil: "sensitive_subset cfg (sorted_set sc) = [] \<longleftrightarrow> sensitive_subset cfg sc = []" for cfg
    by (simp add: sensitive_subset_empty_iff)
  have gate: "wp (delegate_granted e c to (sorted_set sc) ttl) ?Q ?E t"
    if "ready e t" "w_config t = w_config w" "delegable e w tok sc c \<longleftrightarrow> sensitive_subset (w_config w) sc = []" for t
  proof (cases "sensitive_subset (w_config w) sc = []")
    case True
    show ?thesis by (rule wp_mono [OF wp_granted_ready [OF that(1)]]) (use True that nil in auto)
  next
    case False
    show ?thesis by (rule wp_delegate_granted [OF same_refl]) (use False that nil in auto)
  qed
  have nil': "filter (\<lambda>s. s \<notin> scope_set c) (sorted_set sc) = [] \<longleftrightarrow> set sc \<subseteq> scope_set c"
    by (auto simp: filter_empty_conv)
  show ?thesis
    unfolding delegate_def
  proof (rule wp_bind, use ok in \<open>simp add: wp_calls\<close>, rule wp_bind, rule wp_decode_exact [OF _ dec], goal_cases)
    case 2
    show ?case
    proof (rule wp_bind, rule wp_rate_exact [where w = w and n = "w_tick w + 2"], goal_cases)
      case (4 b)
      show ?case
      proof (rule wp_bind, rule wp_root_exact [OF ready], goal_cases)
        case 3
        have iff: "delegable e w tok sc c \<longleftrightarrow> set sc \<subseteq> scope_set c \<and> c_depth c + 1 \<le> c_max_depth c
            \<and> sensitive_subset (w_config w) sc = []"
          using ok dec 2 4 3 by (simp add: delegable_def)
        have "wp (delegate_granted e c to (sorted_set sc) ttl) ?Q ?E (tick ((tick (tick (tick w)))\<lparr>w_rate := b\<rparr>))"
          if "set sc \<subseteq> scope_set c" "c_depth c + 1 \<le> c_max_depth c"
          using that iff by (intro gate) (simp_all add: ready ready_later)
        then show ?case using iff by (auto simp: Let_def wp_simps nil' del: subsetI)
      qed (simp_all add: delegable_def)
    qed (simp_all add: delegable_def)
  qed (use ready in \<open>auto simp: delegable_def ready_def\<close>)
qed

text \<open>C6: delegation is complete. On a store that is open and gets fresh ids, \<open>delegate\<close> succeeds if
  and only if the presented token is authentic, unexpired and unrevoked with all its ancestors, its
  subject is within its rate limit, its chain ends at a live root, the request is non-empty, within
  the parent's scopes and depth limit and touches no sensitive scope, and the breaker is closed.\<close>

theorem delegate_succeeds_iff:
  assumes "ready e w"
  shows "(\<exists>cap t. delegate e tok to sc ttl w = (Inr cap, t)) \<longleftrightarrow> (\<exists>c. delegable e w tok sc c)"
proof (cases "br_open (w_breaker w) \<or> sc = []")
  case True
  then show ?thesis by (auto simp: delegable_def delegate_def wp_def bindP_def circuit_checkP_def breaker_check_def raise_def)
next
  case False
  show ?thesis
  proof (cases "tok_decode e (w_config w) (e_clock e (w_tick w)) tok False")
    case (Inl x)
    then have "wp (delegate e tok to sc ttl) (\<lambda>_ _. False) (\<lambda>_ _. True) w"
      using False by (simp add: delegate_def decode_live_def wp_simps)
    then show ?thesis using Inl by (auto simp: delegable_def wp_iff_run)
  next
    case (Inr c)
    have "wp (delegate e tok to sc ttl) (\<lambda>_ _. delegable e w tok sc c) (\<lambda>_ _. \<not> delegable e w tok sc c) w"
      by (rule wp_delegate_exact [OF assms _ _ Inr]) (use False in auto)
    moreover have "delegable e w tok sc c' \<Longrightarrow> c' = c" for c' using Inr by (simp add: delegable_def)
    ultimately show ?thesis
      by (cases "delegate e tok to sc ttl w") (auto simp: wp_def split: sum.splits)
  qed
qed

section \<open>Revocation\<close>

lemma questionable_classify: "questionable a \<longleftrightarrow> classify_action a \<noteq> CLEAN"
  by (auto simp: questionable_def classify_action_def is_open_action_def)

text \<open>The ids of the queued reviews are successive readings of \<open>uuid4\<close>, from the n-th on.\<close>

definition review_ids :: "env \<Rightarrow> nat \<Rightarrow> action_review list \<Rightarrow> bool" where
  "review_ids e n rs \<longleftrightarrow> (\<exists>ns. map av_review_id rs = map (e_uuid4 e) ns \<and> sorted_wrt (<) ns \<and> (\<forall>k \<in> set ns. n \<le> k))"

lemma review_ids_Nil [simp]: "review_ids e n []"
  by (simp add: review_ids_def)

lemma review_ids_Cons:
  assumes "review_ids e m rs" and "n < m" and "av_review_id r = e_uuid4 e n"
  shows "review_ids e n (r # rs)"
proof -
  obtain ns where "map av_review_id rs = map (e_uuid4 e) ns" "sorted_wrt (<) ns" "\<forall>k \<in> set ns. m \<le> k"
    using assms(1) by (auto simp: review_ids_def)
  then show ?thesis unfolding review_ids_def using assms(2,3) by (intro exI [of _ "n # ns"]) auto
qed

lemma review_ids_distinct:
  assumes "review_ids e n rs" and "fresh_uuids e"
  shows "distinct (map av_review_id rs)"
proof -
  obtain ns where ns: "map av_review_id rs = map (e_uuid4 e) ns" "sorted_wrt (<) ns"
    using assms(1) by (auto simp: review_ids_def)
  then have "distinct (map (e_uuid4 e) ns)"
    using assms(2) by (auto simp: fresh_uuids_def distinct_map strict_sorted_iff intro: inj_on_subset)
  then show ?thesis by (simp only: ns)
qed

lemma wp_queue_loop:
  assumes "\<And>rs t. map (\<lambda>r. (av_action_id r, av_jti r, av_classification r)) rs
        = map (\<lambda>a. (ar_action_id a, ar_jti a, classify_action a))
            (filter (\<lambda>a. ar_action_id a \<notin> already \<and> classify_action a \<noteq> CLEAN) as) \<Longrightarrow>
      (\<And>r. r \<in> set rs \<Longrightarrow> \<not> av_reviewed r \<and> av_revoked_at r = ra \<and> av_revocation_root_jti r = rj) \<Longrightarrow>
      review_ids e (w_tick w) rs \<Longrightarrow>
      ms_reviews (w_store t) = fold (\<lambda>r. dset (av_review_id r) r) rs (ms_reviews (w_store w)) \<Longrightarrow> Q rs t"
  shows "wp (queue_loop e ra rj already as) Q E w"
  using assms
proof (induction as arbitrary: w Q)
  case (Cons a as)
  show ?case
  proof (cases "ar_action_id a \<in> already \<or> classify_action a = CLEAN")
    case True
    then show ?thesis using Cons by (auto simp: needs_human_review_def)
  next
    case False
    then show ?thesis
      apply (simp add: needs_human_review_def wp_simps mk_review_def)
      apply (rule Cons.IH)
      apply (rule Cons.prems)
         apply (auto simp: log_event_frame put_review_def tick_def intro!: review_ids_Cons)
      done
  qed
qed (simp add: wp_simps)

lemma wp_revoke_report:
  assumes Q: "\<And>r t. descendants_breadth_first (w_store w) j = Some (rr_revoked_jtis r) \<Longrightarrow>
      map (\<lambda>r. (av_action_id r, av_jti r, av_classification r)) (rr_reviews r)
        = map (\<lambda>a. (ar_action_id a, ar_jti a, classify_action a))
            (filter (\<lambda>a. ar_action_id a \<notin> av_action_id ` set (list_reviews (w_store w) None) \<and> classify_action a \<noteq> CLEAN)
              (actions_for_review (w_store w) (rr_revoked_jtis r))) \<Longrightarrow>
      (\<And>v. v \<in> set (rr_reviews r) \<Longrightarrow> \<not> av_reviewed v \<and> av_revocation_root_jti v = j) \<Longrightarrow>
      review_ids e (w_tick w + 2) (rr_reviews r) \<Longrightarrow>
      ms_reviews (w_store t) = fold (\<lambda>r. dset (av_review_id r) r) (rr_reviews r) (ms_reviews (w_store w)) \<Longrightarrow>
      Q r t"
  shows "wp (revoke e j reason) Q E w"
proof -
  obtain order where walk: "bfs (children_of (w_store w)) j = Some order"
    using mem_store.walk.bfs_Some [of "w_store w" j] by auto
  have rv: "ms_reviews (snd (revoke_many x js st)) = ms_reviews st" for x js st
    using revoke_many_spec [of x js st] by auto
  show ?thesis
    unfolding revoke_def descendants_breadth_first_def queue_reviews_def
    apply (simp add: wp_simps tick_def walk)
    apply (rule wp_queue_loop)
    apply (rule Q)
    apply (simp_all add: log_event_frame list_reviews_def rv descendants_breadth_first_def walk)
    done
qed

lemma fold_dset_get:
  "distinct (map f rs) \<Longrightarrow> r \<in> set rs \<Longrightarrow> dget (fold (\<lambda>r. dset (f r) r) rs d) (f r) = Some r"
  by (induction rs arbitrary: d rule: rev_induct) (auto simp: rev_image_eqI)

lemma revoke_returns: "\<exists>rr t. revoke e j reason w = (Inr rr, t)
  \<and> descendants_breadth_first (w_store w) j = Some (rr_revoked_jtis rr)
  \<and> ledger_of t = (ledger_of w)\<lparr>lg_revoked := mem_revoked (w_store w) \<union> (mem_edges (w_store w))\<^sup>* `` {j}\<rparr>
  \<and> set (rr_revoked_jtis rr) = (mem_edges (w_store w))\<^sup>* `` {j}"
proof -
  have "wp (revoke e j reason)
     (\<lambda>rr t. descendants_breadth_first (w_store w) j = Some (rr_revoked_jtis rr)) (\<lambda>_ _. False) w"
    by (rule wp_revoke_report)
  moreover have "wp (revoke e j reason)
     (\<lambda>rr t. ledger_of t = (ledger_of w)\<lparr>lg_revoked := mem_revoked (w_store w) \<union> (mem_edges (w_store w))\<^sup>* `` {j}\<rparr>
        \<and> set (rr_revoked_jtis rr) = (mem_edges (w_store w))\<^sup>* `` {j}) (\<lambda>_ _. True) w"
    by (rule wp_revoke [OF same_refl]) (simp_all add: ledger_of_def store_ledger_def)
  ultimately show ?thesis by (auto simp: wp_def split: prod.splits sum.splits)
qed

lemma ledger_view: "lg_revoked (ledger_of w) = mem_revoked (w_store w)" "lg_edges (ledger_of w) = mem_edges (w_store w)"
  "lg_tokens (ledger_of w) j = get_token (w_store w) j"
  by (simp_all add: ledger_of_def store_ledger_def get_token_def)

text \<open>Revocations survive every run.\<close>

lemma revoked_forever: "mem_revoked (w_store w) \<subseteq> mem_revoked (w_store (run_ops e ops w))"
proof -
  have "map_of (ms_revoked (w_store w)) \<subseteq>\<^sub>m map_of (ms_revoked (w_store (run_ops e ops w)))"
    by (rule run_ops_invariant [OF safe_history, where a1 = "[]" and T1 = Map.empty, THEN conjunct2, THEN conjunct2]) simp
  then show ?thesis by (auto simp: mem_revoked_def map_le_def dom_def)
qed

lemma revoke_then:
  "(mem_edges (w_store w))\<^sup>* `` {j} \<subseteq> mem_revoked (w_store (run_ops e ops (final (revoke e j reason) w)))"
proof -
  obtain rr t where "revoke e j reason w = (Inr rr, t)"
    "mem_revoked (w_store t) = mem_revoked (w_store w) \<union> (mem_edges (w_store w))\<^sup>* `` {j}"
    using revoke_returns [of e j reason w] by (auto simp flip: ledger_view)
  then show ?thesis using revoked_forever [of t e ops] by (auto simp: final_def)
qed

lemma ancestors_mint_child [simp]:
  "ancestor_jtis (cap_claims (tok_mint_child e c jti now now' parent sid sc x a b)) = ancestor_jtis parent @ [c_jti parent]"
  by (simp add: tok_mint_child_def ancestor_jtis_def chain_entry_for_def)

text \<open>C5: revocation is total, transitive, exact and permanent. \<open>revoke\<close> never raises and never runs on;
  it returns the token and everything delegated from it, however deep, level by level, revokes
  exactly those on top of what was revoked, keeps the delegation edges, and no later sequence of calls
  makes any of them unrevoked.\<close>

theorem revocation_is_transitive_and_permanent:
  "\<exists>rr t. revoke e j reason w = (Inr rr, t)
    \<and> descendants_breadth_first (w_store w) j = Some (rr_revoked_jtis rr)
    \<and> set (rr_revoked_jtis rr) = (mem_edges (w_store w))\<^sup>* `` {j}
    \<and> mem_revoked (w_store t) = mem_revoked (w_store w) \<union> set (rr_revoked_jtis rr)
    \<and> mem_edges (w_store t) = mem_edges (w_store w)
    \<and> (\<forall>ops. set (rr_revoked_jtis rr) \<subseteq> mem_revoked (w_store (run_ops e ops t)))"
proof -
  obtain rr t where run: "revoke e j reason w = (Inr rr, t)"
    "descendants_breadth_first (w_store w) j = Some (rr_revoked_jtis rr)"
    "ledger_of t = (ledger_of w)\<lparr>lg_revoked := mem_revoked (w_store w) \<union> (mem_edges (w_store w))\<^sup>* `` {j}\<rparr>"
    "set (rr_revoked_jtis rr) = (mem_edges (w_store w))\<^sup>* `` {j}"
    using revoke_returns [of e j reason w] by blast
  moreover from run(3) have "mem_edges (w_store t) = mem_edges (w_store w)"
    "mem_revoked (w_store t) = mem_revoked (w_store w) \<union> (mem_edges (w_store w))\<^sup>* `` {j}"
    by (simp_all flip: ledger_view)
  moreover have "t = final (revoke e j reason) w" using run(1) by (simp add: final_def)
  ultimately show ?thesis using revoke_then [of w j e _ reason] by fastforce
qed

text \<open>C4: a revoked subtree is dead. After a revocation and any later sequence of calls, no token that
  is in the revoked subtree or names one of its tokens as an ancestor verifies, for any scope, and
  none can be delegated from.\<close>

theorem revoked_subtree_is_dead:
  "\<not> (\<exists>v t c. verify e tk scope (run_ops e ops (final (revoke e j reason) w)) = (Inr v, t) \<and> vr_valid v
        \<and> vr_claims v = Some c \<and> set (c_jti c # ancestor_jtis c) \<inter> (mem_edges (w_store w))\<^sup>* `` {j} \<noteq> {})
   \<and> \<not> (\<exists>cap t. delegate e tok to sc ttl (run_ops e ops (final (revoke e j reason) w)) = (Inr cap, t)
        \<and> set (ancestor_jtis (cap_claims cap)) \<inter> (mem_edges (w_store w))\<^sup>* `` {j} \<noteq> {})"
proof -
  let ?u = "run_ops e ops (final (revoke e j reason) w)"
  have dead: "(mem_edges (w_store w))\<^sup>* `` {j} \<subseteq> mem_revoked (w_store ?u)" by (rule revoke_then)
  have "wp (verify e tk scope) (\<lambda>v _. vr_valid v \<longrightarrow> (\<exists>c. vr_claims v = Some c
      \<and> set (c_jti c # ancestor_jtis c) \<inter> mem_revoked (w_store ?u) = {})) (\<lambda>_ _. True) ?u"
    by (rule wp_verify) (auto simp: verifiable_def)
  moreover have "wp (delegate e tok to sc ttl)
      (\<lambda>cap _. set (ancestor_jtis (cap_claims cap)) \<inter> mem_revoked (w_store ?u) = {}) (\<lambda>_ _. True) ?u"
    by (rule wp_delegate [OF same_refl])
      (auto simp: issues_def grantable_def live_def ledger_view ancestors_mint_child)
  ultimately show ?thesis using dead by (fastforce simp: wp_iff_run)
qed

text \<open>C21: nothing in flight is missed and nothing is reported twice. Take any firewall reached by any calls
  from one whose store is consistent (as a new one's is), with fresh \<open>uuid4\<close> readings. \<open>revoke\<close> then
  returns exactly one unresolved review for each action of a revoked token that had not completed
  cleanly and has no review yet, with that action's classification, and none for any other action;
  each review has an id of its own under which the queue holds it afterwards, and the rest of the
  queue is untouched under its other ids.\<close>

theorem revoke_reports_in_flight:
  assumes "mem_ok (w_store w0)" and "fresh_uuids e"
  shows "let w = run_ops e ops w0 in \<exists>rr t. revoke e j reason w = (Inr rr, t)
    \<and> {(av_action_id v, av_jti v, av_classification v) |v. v \<in> set (rr_reviews rr)}
        = {(ar_action_id a, ar_jti a, classify_action a) |a. (\<exists>i. get_action (w_store w) i = Some a)
            \<and> ar_jti a \<in> (mem_edges (w_store w))\<^sup>* `` {j} \<and> classify_action a \<noteq> CLEAN
            \<and> ar_action_id a \<notin> av_action_id ` set (list_reviews (w_store w) None)}
    \<and> distinct (map av_action_id (rr_reviews rr)) \<and> distinct (map av_review_id (rr_reviews rr))
    \<and> (\<lambda>v. (av_reviewed v, av_revocation_root_jti v)) ` set (rr_reviews rr) \<subseteq> {(False, j)}
    \<and> (\<lambda>v. get_review (w_store t) (av_review_id v)) ` set (rr_reviews rr) = Some ` set (rr_reviews rr)
    \<and> ms_reviews (w_store t) = fold (\<lambda>v. dset (av_review_id v) v) (rr_reviews rr) (ms_reviews (w_store w))"
proof -
  define w where "w = run_ops e ops w0"
  have ok: "mem_ok (w_store w)" unfolding w_def by (rule mem_ok_run [OF assms(1)])
  have acts: "set (actions_for_review (w_store w) js) =
      {a. (\<exists>i. get_action (w_store w) i = Some a) \<and> ar_jti a \<in> set js \<and> classify_action a \<noteq> CLEAN}" for js
    using actions_for_review_set [OF ok, of js] by (simp add: get_action_def questionable_classify)
  have "wp (revoke e j reason) (\<lambda>rr t. {(av_action_id v, av_jti v, av_classification v) |v. v \<in> set (rr_reviews rr)}
        = {(ar_action_id a, ar_jti a, classify_action a) |a. (\<exists>i. get_action (w_store w) i = Some a)
            \<and> ar_jti a \<in> set (rr_revoked_jtis rr) \<and> classify_action a \<noteq> CLEAN
            \<and> ar_action_id a \<notin> av_action_id ` set (list_reviews (w_store w) None)}
      \<and> distinct (map av_action_id (rr_reviews rr)) \<and> distinct (map av_review_id (rr_reviews rr))
      \<and> (\<lambda>v. (av_reviewed v, av_revocation_root_jti v)) ` set (rr_reviews rr) \<subseteq> {(False, j)}
      \<and> (\<lambda>v. get_review (w_store t) (av_review_id v)) ` set (rr_reviews rr) = Some ` set (rr_reviews rr)
      \<and> ms_reviews (w_store t) = fold (\<lambda>v. dset (av_review_id v) v) (rr_reviews rr) (ms_reviews (w_store w)))
     (\<lambda>_ _. True) w"
  proof (rule wp_revoke_report, goal_cases)
    case (1 rr t)
    have "distinct (rr_revoked_jtis rr)" using mem_store.walk.bfs_distinct [OF 1(1) [unfolded descendants_breadth_first_def]] .
    then have "distinct (map av_action_id (rr_reviews rr))"
      using arg_cong [OF 1(2), of "map fst"] actions_for_review_distinct [OF ok]
      by (simp add: comp_def distinct_map_filter)
    moreover have ids: "distinct (map av_review_id (rr_reviews rr))"
      by (rule review_ids_distinct [OF 1(4) assms(2)])
    moreover have "get_review (w_store t) (av_review_id v) = Some v" if "v \<in> set (rr_reviews rr)" for v
      unfolding get_review_def 1(5) by (rule fold_dset_get [OF ids that])
    ultimately show ?case
      using arg_cong [OF 1(2), of set] 1(3,5) by (simp add: acts Setcompr_eq_image) (auto simp: image_iff)
  qed
  then show ?thesis using revoke_returns [of e j reason w] unfolding Let_def w_def [symmetric] by (auto simp: wp_iff_run)
qed

section \<open>Every reachable firewall\<close>

text \<open>C2: lineage never widens and revocation never leaks, in every firewall reached from a new one by any
  sequence of calls (given that only tokens of this firewall decode). If \<open>d\<close> was delegated from \<open>a\<close>, over
  any number of hops and with any approvals and revocations in between, both are on record, \<open>d\<close> has
  a subset of the scopes, expires no later, is strictly deeper but within the same depth limit, has
  the same root, is not an ancestor of itself, and is revoked whenever \<open>a\<close> is.\<close>

theorem lineage_never_widens:
  assumes "honest_run e ops (new_firewall cfg)"
    and "(a, d) \<in> (mem_edges (w_store (run_ops e ops (new_firewall cfg))))\<^sup>+"
  shows "(\<exists>am dm. get_token (w_store (run_ops e ops (new_firewall cfg))) a = Some am
      \<and> get_token (w_store (run_ops e ops (new_firewall cfg))) d = Some dm
      \<and> set (tm_scopes dm) \<subseteq> set (tm_scopes am) \<and> tm_expires_at dm \<le> tm_expires_at am
      \<and> tm_depth am < tm_depth dm \<and> tm_depth dm \<le> tm_max_depth am \<and> tm_root_jti dm = tm_root_jti am)
    \<and> a \<noteq> d \<and> mem_revoked (w_store (run_ops e ops (new_firewall cfg))) \<inter> {a}
        \<subseteq> {x. d \<in> mem_revoked (w_store (run_ops e ops (new_firewall cfg)))}"
proof -
  let ?l = "ledger_of (run_ops e ops (new_firewall cfg))"
  have inv: "lg_inv ?l" by (rule run_inv [OF assms(1)])
  have path: "(a, d) \<in> (lg_edges ?l)\<^sup>+" using assms(2) by (simp add: ledger_view)
  then have "a \<noteq> d" "(a, d) \<in> (lg_edges ?l)\<^sup>*" using lg_acyclic [OF inv] by (auto intro: trancl_into_rtrancl)
  then show ?thesis using lg_path_tighter [OF inv path] lg_revoked_descendants [OF inv]
    by (auto simp: tighter_def ledger_view)
qed

text \<open>\<open>chain\<close> follows parents over stored records; on a reachable ledger that is the stored chain.\<close>

lemma lineage_chain:
  assumes inv: "lg_inv l" and toks: "\<And>j. dget toks j = lg_tokens l j" and no: "lg_tokens l '''' = None"
  shows "lg_tokens l j = Some m \<Longrightarrow> j \<notin> set seen \<Longrightarrow> set (chain_jtis m) \<inter> set seen = {} \<Longrightarrow>
    map tm_jti (lineage toks seen m) = j # rev (chain_jtis m)"
proof (induction "nat (tm_depth m)" arbitrary: j m seen rule: less_induct)
  case less
  have j: "tm_jti m = j" using lg_tokenD [OF inv less.prems(1)] by blast
  show ?case
  proof (cases "is_root_meta m")
    case True
    then show ?thesis using less.prems j by (subst lineage.simps) (auto simp: is_root_meta_def)
  next
    case False
    then obtain p where p: "tm_parent_jti m = Some p" "(p, j) \<in> lg_edges l"
      using lg_tokenD [OF inv less.prems(1)] by blast
    obtain pm where pm: "lg_tokens l p = Some pm" "narrower m pm"
      using lg_edgeD [OF inv p(2)] less.prems(1) by auto
    have pmj: "tm_jti pm = p" "0 \<le> tm_depth pm" using lg_tokenD [OF inv pm(1)] by auto
    have ch: "chain_jtis m = chain_jtis pm @ [p]" using pm(2) pmj by (simp add: narrower_def)
    have "nat (tm_depth pm) < nat (tm_depth m)" using pm(2) pmj by (simp add: narrower_def)
    moreover have "j \<notin> set (chain_jtis m)"
      using lg_chain_ancestors [OF inv less.prems(1)] lg_acyclic [OF inv] by simp
    ultimately have "map tm_jti (lineage toks (j # seen) pm) = p # rev (chain_jtis pm)"
      using less.prems ch by (intro less.hyps [OF _ pm(1)]) auto
    moreover have "p \<noteq> ''''" using pm(1) no by auto
    ultimately show ?thesis using less.prems j p(1) pm(1) ch
      by (subst lineage.simps) (auto simp: toks)
  qed
qed

text \<open>C20: the lineage shown is the lineage there is. In every reachable firewall, \<open>chain\<close> of a recorded
  token returns, root first, exactly the tokens it was delegated from and then itself, each once,
  reads the same list the token itself carries, and flags as revoked exactly the revoked ones.\<close>

theorem chain_shows_ancestry:
  assumes "honest_run e ops (new_firewall cfg)"
    and "get_token (w_store (run_ops e ops (new_firewall cfg))) '''' = None"
    and "get_token (w_store (run_ops e ops (new_firewall cfg))) j = Some m"
  shows "\<exists>hops t. chain e j (run_ops e ops (new_firewall cfg)) = (Inr hops, t)
    \<and> map ch_jti hops = chain_jtis m @ [j] \<and> distinct (map ch_jti hops)
    \<and> set (map ch_jti hops) = {a. (a, j) \<in> (mem_edges (w_store (run_ops e ops (new_firewall cfg))))\<^sup>*}
    \<and> map ch_revoked hops = map (\<lambda>i. i \<in> mem_revoked (w_store (run_ops e ops (new_firewall cfg)))) (chain_jtis m @ [j])"
proof -
  let ?u = "run_ops e ops (new_firewall cfg)"
  let ?l = "ledger_of ?u"
  have inv: "lg_inv ?l" by (rule run_inv [OF assms(1)])
  have m: "lg_tokens ?l j = Some m" using assms(3) by (simp add: ledger_view)
  let ?line = "rev (lineage (ms_tokens (w_store ?u)) [] m)"
  have line: "map tm_jti ?line = chain_jtis m @ [j]"
    using lineage_chain [OF inv _ _ m, of "ms_tokens (w_store ?u)" "[]"] assms(2)
    by (simp add: ledger_view get_token_def rev_map [symmetric])
  have set: "set (chain_jtis m @ [j]) = {a. (a, j) \<in> (mem_edges (w_store ?u))\<^sup>*}"
    using lg_chain_ancestors [OF inv m] by (auto simp: ledger_view rtrancl_eq_or_trancl)
  have dist: "distinct (chain_jtis m @ [j])"
    using lg_chain_distinct [OF inv m] lg_chain_ancestors [OF inv m] lg_acyclic [OF inv] by simp
  let ?now = "e_clock e (w_tick ?u)"
  define hops where "hops = map (hop_of (w_store ?u) ?now ?line) ?line"
  have run: "chain e j ?u = (Inr hops, tick ?u)"
    using assms(3) by (simp add: chain_def bindP_def getsP_def nowP_def ret_def Let_def hops_def)
  have "map ch_jti hops = map tm_jti ?line" by (simp add: hops_def hop_of_def)
  then have jtis: "map ch_jti hops = chain_jtis m @ [j]" unfolding line .
  have "map ch_revoked hops = map (\<lambda>i. i \<in> mem_revoked (w_store ?u)) (map tm_jti ?line)"
    by (auto simp: hops_def hop_of_def revoked_among_def mem_revoked_def)
  then have "map ch_revoked hops = map (\<lambda>i. i \<in> mem_revoked (w_store ?u)) (chain_jtis m @ [j])" unfolding line .
  with run jtis set dist show ?thesis by metis
qed

section \<open>Actions, reviews, approvals and the breaker\<close>

lemma close_handle_run:
  assumes "get_action (w_store w) (ah_action_id h) = Some a"
  shows "\<exists>t now. close_handle e h c cs fr w = (Inr (), t)
    \<and> get_action (w_store t) (ah_action_id h)
        = Some (a\<lparr>ar_finished_at := Some now, ar_state := Some cs, ar_failure_reason := fr\<rparr>)"
  using assms
  by (simp add: close_handle_def bindP_def nowP_def store_updP_def updP_def auditP_def close_action_def
      get_action_def log_event_frame Let_def) (auto simp: tick_def)

text \<open>An action block always leaves a truthful record and never swallows an exception. Once the
  block was entered, whatever its body did, the block's outcome is the body's, value or exception, and
  the action is closed: CLEAN when the body returned, PARTIAL with the truncated text of the exception
  when it raised, so that a revocation reports exactly the second kind.\<close>

theorem action_block_outcome:
  assumes "action_enter e tok scope name rv w = (Inr (h, c), w1)"
    and "body h w1 = ((r, h'), w2)"
    and "get_action (w_store w2) (ah_action_id h') = Some a"
  shows "\<exists>t a'. with_action e show_exc tok scope name rv body w = (r, t)
    \<and> get_action (w_store t) (ah_action_id h') = Some a'
    \<and> classify_action a' = (case r of Inl _ \<Rightarrow> PARTIAL | Inr _ \<Rightarrow> CLEAN)
    \<and> ar_failure_reason a' = (case r of Inl x \<Rightarrow> Some (truncate_reason (show_exc x)) | Inr _ \<Rightarrow> None)
    \<and> ar_jti a' = ar_jti a \<and> (questionable a' \<longleftrightarrow> (\<exists>x. r = Inl x))"
proof (cases r)
  case (Inl x)
  obtain t now where "close_handle e h' c PARTIAL (Some (truncate_reason (show_exc x))) w2 = (Inr (), t)"
    "get_action (w_store t) (ah_action_id h') = Some (a\<lparr>ar_finished_at := Some now, ar_state := Some PARTIAL,
       ar_failure_reason := Some (truncate_reason (show_exc x))\<rparr>)"
    using close_handle_run [OF assms(3)] by blast
  then show ?thesis using assms(1,2) Inl
    by (auto simp: with_action_def bindP_def action_exit_def raise_def classify_action_def questionable_classify)
next
  case (Inr v)
  obtain t now where "close_handle e h' c CLEAN None w2 = (Inr (), t)"
    "get_action (w_store t) (ah_action_id h') = Some (a\<lparr>ar_finished_at := Some now, ar_state := Some CLEAN,
       ar_failure_reason := None\<rparr>)"
    using close_handle_run [OF assms(3)] by blast
  then show ?thesis using assms(1,2) Inr
    by (auto simp: with_action_def bindP_def action_exit_def ret_def classify_action_def questionable_classify)
qed

lemma rev_rank_less: "rev_rank r < 10"
  by (cases r) simp_all

lemma sorted_prod_weight:
  "sorted (map f xs) \<Longrightarrow> (\<And>x. snd (f x) < k) \<Longrightarrow> sorted (map (\<lambda>x. fst (f x) * k + snd (f x) :: nat) xs)"
proof (induction xs)
  case (Cons x xs)
  have "fst (f x) * k + snd (f x) \<le> fst (f y) * k + snd (f y)" if "f x \<le> f y" for y
  proof (cases "fst (f x) = fst (f y)")
    case False
    then have "Suc (fst (f x)) \<le> fst (f y)" using that by (auto simp: less_eq_prod_def)
    then have "Suc (fst (f x)) * k \<le> fst (f y) * k" by (rule mult_le_mono1)
    then show ?thesis using Cons.prems(2) [of x] by simp
  qed (use that in \<open>auto simp: less_eq_prod_def\<close>)
  then show ?case using Cons by simp
qed simp

text \<open>The most urgent review comes first. \<open>pending_reviews\<close> returns each stored review once (each
  unresolved one, unless resolved ones are asked for too), in descending order of the priority that
  was recorded when it was queued: unknown outcomes before partial ones, and within these the less
  reversible action first, an action no longer on record counting as irreversible.\<close>

theorem pending_reviews_by_priority:
  "\<exists>rs. pending_reviews all True w = (Inr rs, w)
    \<and> mset rs = mset (if all then map snd (ms_reviews (w_store w)) else filter (Not \<circ> av_reviewed) (map snd (ms_reviews (w_store w))))
    \<and> sorted (rev (map (\<lambda>r. COMPLETION_URGENCY (av_classification r) * 10
         + rev_rank (case get_action (w_store w) (av_action_id r) of Some a \<Rightarrow> ar_reversibility a | None \<Rightarrow> IRREVERSIBLE)) rs))"
proof -
  define rs where "rs = sort_desc_by (review_key (w_store w))
    (if all then list_reviews (w_store w) None else list_reviews (w_store w) (Some False))"
  have "pending_reviews all True w = (Inr rs, w)"
    by (simp add: pending_reviews_def getsP_def rs_def Let_def)
  moreover have "mset rs = mset (if all then map snd (ms_reviews (w_store w)) else filter (Not \<circ> av_reviewed) (map snd (ms_reviews (w_store w))))"
    by (simp add: rs_def list_reviews_def Let_def comp_def)
  moreover have "sorted (rev (map (\<lambda>r. COMPLETION_URGENCY (av_classification r) * 10
         + rev_rank (case get_action (w_store w) (av_action_id r) of Some a \<Rightarrow> ar_reversibility a | None \<Rightarrow> IRREVERSIBLE)) rs))"
    using sorted_prod_weight [of "review_key (w_store w)" "rev rs" 10] sort_desc_by_sorted [of "review_key (w_store w)"]
    by (simp add: rs_def review_key_def rev_map rev_rank_less)
  ultimately show ?thesis by blast
qed

text \<open>A review is resolved at most once, and never silently. On a consistent store, \<open>resolve_review\<close>
  succeeds only for a recorded, unresolved review and a note that is not blank; it then marks it
  reviewed by that person, keeps the rest of it, and a second attempt, by anyone, raises \<open>ValueError\<close>.
  Any other call leaves the review table as it was.\<close>

theorem resolve_review_once:
  assumes "mem_ok (w_store w)"
  shows "case resolve_review e i nt who w of
     (Inr v, t) \<Rightarrow> (\<exists>v0 now. get_review (w_store w) i = Some v0 \<and> \<not> av_reviewed v0 \<and> strip nt \<noteq> ''''
         \<and> v = v0\<lparr>av_reviewed := True, av_reviewed_by := Some who, av_reviewed_at := Some now\<rparr>)
       \<and> get_review (w_store t) i = Some v
       \<and> fst (resolve_review e i nt' who' t) = Inl ValueError
   | (Inl x, t) \<Rightarrow> ms_reviews (w_store t) = ms_reviews (w_store w)"
proof (cases "get_review (w_store w) i")
  case None
  then show ?thesis by (simp add: resolve_review_def raise_def bindP_def getsP_def)
next
  case (Some v0)
  then have id: "av_review_id v0 = i" "dget (ms_reviews (w_store w)) i = Some v0"
    using assms by (auto simp: mem_ok_def get_review_def)
  show ?thesis
  proof (cases "strip nt = '''' \<or> av_reviewed v0 \<or> av_classification v0 = CLEAN")
    case True
    then show ?thesis using Some
      by (auto simp: resolve_review_def raise_def bindP_def getsP_def nowP_def liftP_def mk_review_def tick_def)
  next
    case False
    then show ?thesis using Some id
      by (auto simp: resolve_review_def raise_def bindP_def getsP_def nowP_def liftP_def mk_review_def
          storeP_def zoomP_def update_review_def auditP_def updP_def ret_def get_review_def log_event_frame tick_def)
  qed
qed

lemma log_event_row:
  "\<exists>row. ms_audit (w_store (log_event e ev w)) = ms_audit (w_store w) @ [row] \<and> ev_action row = ev_action ev"
  by (auto simp: log_event_def log_one_def log_batch_def append_audit_batch_def Let_def row_of_def split: prod.splits)

lemma log_event_row_at: "w_store w = st \<Longrightarrow> ev_action ev = x \<Longrightarrow>
    \<exists>row. ms_audit (w_store (log_event e ev w)) = ms_audit st @ [row] \<and> ev_action row = x"
  using log_event_row by blast

text \<open>The breaker is open for the given reason; every call but \<open>reset_circuit\<close> leaves it so.\<close>

definition tripped_by :: "string option \<Rightarrow> world \<Rightarrow> bool" where
  "tripped_by reason w \<longleftrightarrow> br_open (w_breaker w) \<and> br_reason (w_breaker w) = reason"

lemma safe_tripped: "safe_calls e (tripped_by reason)"
proof -
  have "stable e (tripped_by reason)" by (simp add: stable_def tripped_by_def stays_open_def log_event_frame)
  then show ?thesis unfolding safe_calls_def
    by (auto intro!: keeps_storeP keeps_store_updP simp: tripped_by_def)
qed

lemma open_breaker_calls:
  assumes "tripped_by reason w"
  shows "delegate e tok to sc ttl w = (Inl (CircuitOpen reason), w)"
    "\<exists>us n. verify e tk scope w = (Inr \<lparr>vr_valid = False, vr_reason = Some ''circuit_open'', vr_claims = None,
       vr_latency_us = us\<rparr>, w\<lparr>w_tick := n\<rparr>)"
  using assms by (simp_all add: tripped_by_def delegate_def verify_def bindP_def circuit_checkP_def breaker_check_def
      perfP_def getsP_def ret_def tick_def) blast

lemma reset_circuit_run:
  "\<exists>t. reset_circuit e w = (Inr (), t) \<and> \<not> br_open (w_breaker t)
     \<and> (\<exists>row. ms_audit (w_store t) = ms_audit (w_store w) @ [row] \<and> ev_action row = ''circuit_reset'')"
  by (simp add: reset_circuit_def circuit_state_of_def bindP_def nowP_def getsP_def updP_def auditP_def
      breaker_reset_def log_event_frame) (rule log_event_row_at, simp_all)

text \<open>C26: a breaker that is open stays open until a human resets it. After any sequence of calls in which
  \<open>reset_circuit\<close> does not occur, however much time has passed and whatever the calls were, it is still
  open, for the reason it opened: \<open>delegate\<close> raises \<open>CircuitOpen\<close> with that reason and changes nothing,
  \<open>verify\<close> answers no with \<open>circuit_open\<close> and changes neither the store nor the rate limits nor the
  breaker, whatever the token; and \<open>reset_circuit\<close> then closes it and logs the reset.\<close>

theorem open_circuit_stops:
  assumes "br_open (w_breaker w)" and "OpResetCircuit \<notin> set ops"
  shows "br_open (w_breaker (run_ops e ops w))
   \<and> delegate e tok to sc ttl (run_ops e ops w) = (Inl (CircuitOpen (br_reason (w_breaker w))), run_ops e ops w)
   \<and> (\<exists>us n. verify e tk scope (run_ops e ops w)
      = (Inr \<lparr>vr_valid = False, vr_reason = Some ''circuit_open'', vr_claims = None, vr_latency_us = us\<rparr>,
         (run_ops e ops w)\<lparr>w_tick := n\<rparr>))
   \<and> (\<exists>t. reset_circuit e (run_ops e ops w) = (Inr (), t) \<and> \<not> br_open (w_breaker t)
        \<and> (\<exists>row. ms_audit (w_store t) = ms_audit (w_store (run_ops e ops w)) @ [row]
              \<and> ev_action row = ''circuit_reset''))"
proof -
  have "tripped_by (br_reason (w_breaker w)) (run_ops e ops w)"
    by (rule run_ops_without_reset [OF safe_tripped assms(2)]) (simp add: tripped_by_def assms(1))
  then show ?thesis using open_breaker_calls reset_circuit_run by (auto simp: tripped_by_def)
qed

lemma approve_decided:
  "get_approval (w_store t) i = Some r \<Longrightarrow> pa_status r \<noteq> ''pending'' \<Longrightarrow> approve e i a t = (Inl ValueError, t)"
  by (simp add: approve_def load_pending_def bindP_def getsP_def raise_def)

lemma approved_facts:
  assumes inv: "lg_inv l" and ap: "approved e c i a l cap l'"
  shows "\<exists>r pm r'. lg_approvals l i = Some r \<and> is_pending r \<and> lg_tokens l (pa_parent_jti r) = Some pm
    \<and> pa_parent_jti r \<notin> lg_revoked l \<and> set (cap_scopes cap) = set (pa_requested_scopes r)
    \<and> set (pa_requested_scopes r) \<subseteq> set (tm_scopes pm) \<and> from_ts (c_exp (cap_claims cap)) \<le> tm_expires_at pm
    \<and> cap_depth cap = tm_depth pm + 1 \<and> cap_depth cap \<le> tm_max_depth pm
    \<and> c_approval_required (cap_claims cap) \<and> c_approved_by (cap_claims cap) = Some a
    \<and> (pa_parent_jti r, cap_jti cap) \<in> lg_edges l' \<and> lg_approvals l' i = Some r'
    \<and> pa_status r' = ''approved'' \<and> pa_child_token r' = Some (cap_token cap)"
proof -
  obtain r pm pc jti now now' x later where r: "lg_approvals l i = Some r" "is_pending r"
      "lg_tokens l (pa_parent_jti r) = Some pm" "pa_parent_jti r \<notin> lg_revoked l"
      "claims_from_metadata c pm = Inr pc" "x \<le> pa_parent_exp r"
    and cap: "cap = tok_mint_child e c jti now now' pc (pa_child_subject_id r) (pa_requested_scopes r) x True (Some a)"
    and l': "l' = with_approval (decision r ''approved'' (Some a) (Some jti) (Some (cap_token cap)) later)
             (issue (pa_parent_jti r) cap l)"
    using ap unfolding approved_def by blast
  have cov: "covered r pm" "pa_approval_id r = i" using lg_approvalD [OF inv r(1)] r(2,3) by auto
  have pc: "c_depth pc = tm_depth pm" "c_max_depth pc = tm_max_depth pm"
    using r(5) by (auto simp: claims_from_metadata_def split: option.splits)
  have "from_ts x \<le> tm_expires_at pm" using cov r(6) by (auto simp: covered_def) (metis from_ts_mono)
  then show ?thesis using r(1-4) cov pc
    by (intro exI [of _ r] exI [of _ pm] exI [of _ "decision r ''approved'' (Some a) (Some jti) (Some (cap_token cap)) later"])
      (auto simp: l' cap tok_mint_child_def cap_scopes_def cap_depth_def covered_def with_approval_def decision_def issue_def
        cap_jti_def)
qed

text \<open>C19: an approval grants exactly what was asked, once. In every reachable firewall, \<open>approve\<close> mints
  only for a pending request whose parent is on record and unrevoked; the child has exactly the
  requested scopes, within the parent's, expires no later, sits one level deeper within the depth limit,
  carries the approver's name, is linked under the parent and its token is kept with the decision;
  approving again, by anyone, raises \<open>ValueError\<close>. When it fails, no token is minted, no edge added
  and no revocation changed.\<close>

theorem approve_grants_the_request_once:
  assumes "honest_run e ops (new_firewall cfg)"
  shows "case approve e i a (run_ops e ops (new_firewall cfg)) of
     (Inr cap, t) \<Rightarrow> (\<exists>r pm r'. get_approval (w_store (run_ops e ops (new_firewall cfg))) i = Some r \<and> is_pending r
         \<and> get_token (w_store (run_ops e ops (new_firewall cfg))) (pa_parent_jti r) = Some pm
         \<and> pa_parent_jti r \<notin> mem_revoked (w_store (run_ops e ops (new_firewall cfg)))
         \<and> set (cap_scopes cap) = set (pa_requested_scopes r) \<and> set (pa_requested_scopes r) \<subseteq> set (tm_scopes pm)
         \<and> from_ts (c_exp (cap_claims cap)) \<le> tm_expires_at pm
         \<and> cap_depth cap = tm_depth pm + 1 \<and> cap_depth cap \<le> tm_max_depth pm
         \<and> c_approval_required (cap_claims cap) \<and> c_approved_by (cap_claims cap) = Some a
         \<and> (pa_parent_jti r, cap_jti cap) \<in> mem_edges (w_store t)
         \<and> get_approval (w_store t) i = Some r' \<and> pa_status r' = ''approved'' \<and> pa_child_token r' = Some (cap_token cap))
       \<and> approve e i a' t = (Inl ValueError, t)
   | (Inl _, t) \<Rightarrow> lg_tokens (ledger_of t) = lg_tokens (ledger_of (run_ops e ops (new_firewall cfg)))
       \<and> lg_edges (ledger_of t) = lg_edges (ledger_of (run_ops e ops (new_firewall cfg)))
       \<and> lg_revoked (ledger_of t) = lg_revoked (ledger_of (run_ops e ops (new_firewall cfg)))"
proof -
  let ?u = "run_ops e ops (new_firewall cfg)"
  have inv: "lg_inv (ledger_of ?u)" by (rule run_inv [OF assms])
  have view: "lg_approvals (ledger_of w) j = get_approval (w_store w) j" for w j
    by (simp add: ledger_of_def store_ledger_def get_approval_def)
  have "wp (approve e i a) (\<lambda>cap t. approved e (w_config ?u) i a (ledger_of ?u) cap (ledger_of t))
     (\<lambda>_ t. ledger_of t = ledger_of ?u \<or> dropped i (ledger_of ?u) (ledger_of t)) ?u"
    by (rule wp_approve [OF same_refl inv])
  then consider cap t where "approve e i a ?u = (Inr cap, t)" "approved e (w_config ?u) i a (ledger_of ?u) cap (ledger_of t)"
    | x t where "approve e i a ?u = (Inl x, t)" "ledger_of t = ledger_of ?u \<or> dropped i (ledger_of ?u) (ledger_of t)"
    by (cases "approve e i a ?u") (auto simp: wp_def split: sum.splits)
  then show ?thesis
  proof cases
    case (1 cap t)
    obtain r pm r' where "lg_approvals (ledger_of ?u) i = Some r \<and> is_pending r
      \<and> lg_tokens (ledger_of ?u) (pa_parent_jti r) = Some pm
      \<and> pa_parent_jti r \<notin> lg_revoked (ledger_of ?u) \<and> set (cap_scopes cap) = set (pa_requested_scopes r)
      \<and> set (pa_requested_scopes r) \<subseteq> set (tm_scopes pm) \<and> from_ts (c_exp (cap_claims cap)) \<le> tm_expires_at pm
      \<and> cap_depth cap = tm_depth pm + 1 \<and> cap_depth cap \<le> tm_max_depth pm
      \<and> c_approval_required (cap_claims cap) \<and> c_approved_by (cap_claims cap) = Some a
      \<and> (pa_parent_jti r, cap_jti cap) \<in> lg_edges (ledger_of t) \<and> lg_approvals (ledger_of t) i = Some r'
      \<and> pa_status r' = ''approved'' \<and> pa_child_token r' = Some (cap_token cap)"
      using approved_facts [OF inv 1(2)] by blast
    note f = this [unfolded view ledger_view]
    then have "approve e i a' t = (Inl ValueError, t)" by (intro approve_decided) auto
    with f 1(1) show ?thesis by auto
  next
    case (2 x t)
    then show ?thesis by (auto simp: dropped_def with_approval_def)
  qed
qed

end
