(* ===== verification/Demo_Tokens.thy ===== *)
theory Demo_Tokens
  imports Env
begin

text \<open>
  A token format for the examples: a prefix code of JSON values with its decoder, which stands for PyJWT
  where an example needs a token to be issued and read back. A string is its characters, each after a
  \<open>c\<close>, an integer is unary, every sequence ends in a full stop. \<open>signed_env\<close> is \<open>demo_env\<close> with it, and
  satisfies the hypothesis on PyJWT for every payload (\<open>jwt_roundtrip_signed\<close>).
\<close>

section \<open>The code\<close>

definition pack_str :: "string \<Rightarrow> string" where
  "pack_str s = concat (map (\<lambda>c. [CHR ''c'', c]) s) @ ''.''"

primrec pack :: "json \<Rightarrow> string" where
  "pack JNull = ''n''"
| "pack (JBool b) = (if b then ''t'' else ''f'')"
| "pack (JInt i) = (if 0 \<le> i then ''+'' else ''-'') @ replicate (nat \<bar>i\<bar>) CHR ''1'' @ ''.''"
| "pack (JStr s) = ''s'' @ pack_str s"
| "pack (JList xs) = ''['' @ concat (map (\<lambda>p. ''c'' @ p) (map pack xs)) @ ''.''"
| "pack (JObj kvs) = ''{'' @ concat (map (\<lambda>(k, p). ''c'' @ pack_str k @ p) (map (map_prod (\<lambda>k. k) pack) kvs)) @ ''.''"

fun unpack_str :: "string \<Rightarrow> (string \<times> string) option" where
  "unpack_str (t # r) = (if t = CHR ''.'' then Some ([], r)
     else case r of [] \<Rightarrow> None | c # r' \<Rightarrow> map_option (\<lambda>(s, r''). (c # s, r'')) (unpack_str r'))"
| "unpack_str [] = None"

fun unpack_nat :: "string \<Rightarrow> (nat \<times> string) option" where
  "unpack_nat (t # r) = (if t = CHR ''.'' then Some (0, r) else map_option (\<lambda>(n, r'). (Suc n, r')) (unpack_nat r))"
| "unpack_nat [] = None"

fun unpack :: "nat \<Rightarrow> string \<Rightarrow> (json \<times> string) option"
  and unpack_list :: "nat \<Rightarrow> string \<Rightarrow> (json list \<times> string) option"
  and unpack_obj :: "nat \<Rightarrow> string \<Rightarrow> ((string \<times> json) list \<times> string) option" where
  "unpack (Suc n) (t # r) =
     (if t = CHR ''n'' then Some (JNull, r) else if t = CHR ''t'' then Some (JBool True, r)
      else if t = CHR ''f'' then Some (JBool False, r)
      else if t = CHR ''+'' then map_option (\<lambda>(k, r'). (JInt (int k), r')) (unpack_nat r)
      else if t = CHR ''-'' then map_option (\<lambda>(k, r'). (JInt (- int k), r')) (unpack_nat r)
      else if t = CHR ''s'' then map_option (\<lambda>(s, r'). (JStr s, r')) (unpack_str r)
      else if t = CHR ''['' then map_option (\<lambda>(xs, r'). (JList xs, r')) (unpack_list n r)
      else map_option (\<lambda>(kvs, r'). (JObj kvs, r')) (unpack_obj n r))"
| "unpack_list (Suc n) (t # r) = (if t = CHR ''.'' then Some ([], r)
     else case unpack n r of None \<Rightarrow> None
       | Some (x, r') \<Rightarrow> map_option (\<lambda>(xs, r''). (x # xs, r'')) (unpack_list n r'))"
| "unpack_obj (Suc n) (t # r) = (if t = CHR ''.'' then Some ([], r)
     else case unpack_str r of None \<Rightarrow> None
       | Some (k, r') \<Rightarrow> (case unpack n r' of None \<Rightarrow> None
         | Some (x, r'') \<Rightarrow> map_option (\<lambda>(kvs, r'''). ((k, x) # kvs, r''')) (unpack_obj n r'')))"
| "unpack _ _ = None" | "unpack_list _ _ = None" | "unpack_obj _ _ = None"

lemma unpack_pack_str [simp]: "unpack_str (pack_str s @ r) = Some (s, r)"
  by (induction s) (simp_all add: pack_str_def)

lemma unpack_unary [simp]: "unpack_nat (replicate n CHR ''1'' @ CHR ''.'' # r) = Some (n, r)"
  by (induction n) simp_all

text \<open>Enough fuel is the length of the text.\<close>

definition unpacks :: "json \<Rightarrow> bool" where
  "unpacks j \<longleftrightarrow> (\<forall>n r. length (pack j) \<le> n \<longrightarrow> unpack n (pack j @ r) = Some (j, r))"

lemma unpacksD: "unpacks j \<Longrightarrow> length (pack j) \<le> n \<Longrightarrow> unpack n (pack j @ r) = Some (j, r)"
  by (simp add: unpacks_def)

lemma unpack_items:
  "(\<And>x. x \<in> set xs \<Longrightarrow> unpacks x) \<Longrightarrow> length (concat (map (\<lambda>x. CHR ''c'' # pack x) xs)) < n \<Longrightarrow>
     unpack_list n (concat (map (\<lambda>x. CHR ''c'' # pack x) xs) @ CHR ''.'' # r) = Some (xs, r)"
proof (induction xs arbitrary: n)
  case Nil
  then show ?case by (cases n) simp_all
next
  case (Cons x xs)
  then show ?case by (cases n) (simp_all add: unpacksD)
qed

lemma unpack_entries:
  "(\<And>x. x \<in> set kvs \<Longrightarrow> unpacks (snd x)) \<Longrightarrow>
     length (concat (map (\<lambda>x. CHR ''c'' # pack_str (fst x) @ pack (snd x)) kvs)) < n \<Longrightarrow>
     unpack_obj n (concat (map (\<lambda>x. CHR ''c'' # pack_str (fst x) @ pack (snd x)) kvs) @ CHR ''.'' # r) = Some (kvs, r)"
proof (induction kvs arbitrary: n)
  case Nil
  then show ?case by (cases n) simp_all
next
  case (Cons x kvs)
  then show ?case by (cases n) (simp_all add: unpacksD)
qed

lemma unpacksI:
  assumes "\<And>n r. length (pack j) \<le> Suc n \<Longrightarrow> unpack (Suc n) (pack j @ r) = Some (j, r)" and "pack j \<noteq> []"
  shows "unpacks j"
  unfolding unpacks_def
proof (intro allI impI)
  fix n r assume "length (pack j) \<le> n"
  with assms show "unpack n (pack j @ r) = Some (j, r)" by (cases n) auto
qed

lemma unpacks_all: "unpacks j"
proof (induction j)
  case (JList xs)
  show ?case
  proof (rule unpacksI)
    fix n r assume "length (pack (JList xs)) \<le> Suc n"
    then show "unpack (Suc n) (pack (JList xs) @ r) = Some (JList xs, r)"
      using unpack_items [of xs n r] JList by (simp add: comp_def)
  qed simp
next
  case (JObj kvs)
  show ?case
  proof (rule unpacksI)
    fix n r assume "length (pack (JObj kvs)) \<le> Suc n"
    then show "unpack (Suc n) (pack (JObj kvs) @ r) = Some (JObj kvs, r)"
      using unpack_entries [of kvs n r] JObj by (simp add: comp_def case_prod_unfold) force
  qed simp
qed (rule unpacksI; simp)+

definition unpack_all :: "string \<Rightarrow> json option" where
  "unpack_all t = (case unpack (length t) t of Some (j, []) \<Rightarrow> Some j | _ \<Rightarrow> None)"

lemma unpack_all_pack [simp]: "unpack_all (pack j) = Some j"
  using unpacksD [OF unpacks_all, of j "length (pack j)" "[]"] by (simp add: unpack_all_def)

section \<open>The environment\<close>

text \<open>The tokens of \<open>extra\<close> are accepted too; they are strings that are not the code of an object.\<close>

definition signed_env :: "(string \<Rightarrow> json option) \<Rightarrow> env" where
  "signed_env extra = (demo_env (\<lambda>t. case extra t of Some p \<Rightarrow> Some p | None \<Rightarrow> unpack_all t))
     \<lparr>e_jwt_encode := \<lambda>p key alg. pack p\<rparr>"

lemma signed_env_clock [simp]:
  "e_clock (signed_env extra) n = 1000000 * int n" "e_uuid4 (signed_env extra) n = replicate (Suc n) CHR ''u''"
  by (simp_all add: signed_env_def demo_env_def)

lemma signed_env_fresh [simp]: "fresh_uuids (signed_env extra)" "clock_forward (signed_env extra)"
  using fresh_uuids_demo clock_forward_demo by (simp_all add: fresh_uuids_def clock_forward_def signed_env_def)

lemma jwt_roundtrip_signed: "extra (pack p) = None \<Longrightarrow> jwt_roundtrip (signed_env extra) key alg p"
  by (simp add: jwt_roundtrip_def signed_env_def demo_env_def)

lemma pack_nonempty [simp]: "pack j \<noteq> []"
  by (cases j) simp_all

end
