(* ===== verification/Firewall_Demo.thy ===== *)
theory Firewall_Demo
  imports Firewall_Properties Demo_Tokens
begin

text \<open>
  Concrete firewalls at which the properties with hypotheses are instantiated: a store holding one
  root capability, and a whole run that mints a root, parks a sensitive delegation and approves it.
\<close>

section \<open>A store with one root\<close>

definition demo_root :: claims where
  "demo_root = \<lparr>c_jti = ''r'', c_sub = ''human:1'', c_iss = ''agperms'', c_issued_for = ''human:1'',
     c_scopes = [''read''], c_depth = 0, c_max_depth = 5, c_iat = 0, c_exp = 3600, c_root_jti = ''r'',
     c_delegation_chain = [], c_approval_required = False, c_approved_by = None\<rparr>"

definition root_env :: env where
  "root_env = signed_env (\<lambda>t. if t = ''t'' then Some (to_payload demo_root) else None)"

definition root_world :: world where
  "root_world = (new_firewall default_config)\<lparr>w_store := empty_store\<lparr>ms_tokens := [(''r'', meta_of demo_root None)]\<rparr>\<rparr>"

lemma root_decodes: "tok_decode root_env default_config now ''t'' False = Inr demo_root"
proof -
  have "json_get (to_payload demo_root) ''iss'' = Some (JStr ''agperms'')"
    by (simp add: json_get_def to_payload_def demo_root_def)
  then show ?thesis
    by (simp add: tok_decode_def root_env_def signed_env_def demo_env_def default_config_def from_payload_to_payload)
qed

lemma root_fields [simp]:
  "c_jti demo_root = ''r''" "c_exp demo_root = 3600" "ancestor_jtis demo_root = []" "c_sub demo_root = ''human:1''"
  "c_root_jti demo_root = ''r''" "scope_set demo_root = {''read''}" "c_depth demo_root = 0" "c_max_depth demo_root = 5"
  by (simp_all add: demo_root_def ancestor_jtis_def scope_set_def)

lemma root_world_fields [simp]:
  "w_config root_world = default_config" "w_tick root_world = 0" "w_rate root_world = []"
  "w_breaker root_world = new_breaker" "w_anomaly root_world = []" "w_tail root_world = None"
  "w_store root_world = empty_store\<lparr>ms_tokens := [(''r'', meta_of demo_root None)]\<rparr>"
  by (simp_all add: root_world_def new_firewall_def)

lemma clock_demo [simp]: "e_clock root_env n = 1000000 * int n" "e_uuid4 root_env n = replicate (Suc n) CHR ''u''"
  by (simp_all add: root_env_def)

lemma demo_limits [simp]:
  "fst (rate_check default_config s ''delegate'' now []) = Inr ()" "fst (rate_check default_config s ''verify'' now []) = Inr ()"
  by (simp_all add: rate_check_def is_exempt_def default_config_def limit_for_def lw_hit_def bucket_of_def Let_def)

lemma root_ready: "ready root_env root_world"
  by (auto simp: ready_def empty_store_def subjects_ok_def)

lemma root_delegable: "delegable root_env root_world ''t'' [''read''] demo_root"
  by (simp add: delegable_def root_decodes root_alive_def new_breaker_def empty_store_def mem_revoked_def ts_of_def
      sensitive_subset_empty_iff default_config_def [THEN arg_cong [of _ _ cf_sensitive_scopes]] DEFAULT_SENSITIVE_SCOPES_def
      from_ts_def)

theorem delegate_succeeds_iff_witness:
  "\<exists>cap t. delegate root_env ''t'' ''bot'' [''read''] None root_world = (Inr cap, t)"
  using delegate_succeeds_iff [OF root_ready] root_delegable by blast

lemma wp_new_subject:
  assumes "dget (ms_subject_by_hash st) (h, k) = None"
    and "\<And>s a b. sj_subject_id s = k @ '':'' @ u \<Longrightarrow> Q s (st\<lparr>ms_subjects := a, ms_subject_by_hash := b\<rparr>)"
  shows "wp (get_or_create_subject u n h k l) Q E st"
  using assms by (simp add: wp_def get_or_create_subject_def Let_def)

lemma root_delegates:
  "wp (delegate root_env ''t'' ''bot'' [''read''] None) (\<lambda>cap t. (\<exists>jti now now' parent sid x.
      cap = tok_mint_child root_env default_config jti now now' parent sid [''read''] x False None)
      \<and> c_iat (cap_claims cap) \<le> 20 \<and> c_exp (cap_claims cap) = 3600 \<and> ancestor_jtis (cap_claims cap) = [''r''])
    (\<lambda>_ _. False) root_world"
proof -
  have rate: "wp (rateP root_env s ''delegate'') Q E w"
    if "w_config w = default_config" "w_rate w = []" "\<And>b. Q () ((tick w)\<lparr>w_rate := b\<rparr>)" for s Q E w
    by (rule wp_rateP) (use that demo_limits(1) [of s "e_clock root_env (w_tick w)"] in auto)
  have observe: "wp (observeP root_env s n) Q E w"
    if "w_config w = default_config" "w_anomaly w = []" "\<And>b. Q None ((tick w)\<lparr>w_anomaly := b\<rparr>)" for s n Q E w
    using that by (simp add: wp_def observeP_def observe_delegation_def new_baseline_def scope_finding_def Let_def default_config_def)
  have sens: "sensitive_subset default_config [''read''] = []"
    by (simp add: sensitive_subset_empty_iff default_config_def DEFAULT_SENSITIVE_SCOPES_def)
  have one: "sorted_set [''read''] = [''read'']" by (simp add: sorted_set_def)
  have fields: "cf_default_ttl_seconds default_config = 3600" "cf_exempt_agents default_config = {}"
    by (simp_all add: default_config_def)
  have child: "c_jti (cap_claims (tok_mint_child e c jti n n' p s sc x ap b)) = jti"
    "c_iat (cap_claims (tok_mint_child e c jti n n' p s sc x ap b)) = ts_of n"
    "c_exp (cap_claims (tok_mint_child e c jti n n' p s sc x ap b)) = x"
    "\<exists>jti' m m' p' s' x'. tok_mint_child e c jti n n' p s sc x ap b = tok_mint_child e c jti' m m' p' s' sc x' ap b"
    for e c jti n n' p s sc x ap b by (simp_all add: tok_mint_child_def) blast
  show ?thesis
    unfolding delegate_def
    apply (simp add: wp_simps new_breaker_def)
    apply (rule wp_decode_exact [of _ _ _ demo_root])
    apply (simp_all add: root_decodes ts_of_def mem_revoked_def empty_store_def)
    apply (rule rate, simp, simp)
    apply (simp add: assert_root_alive_def wp_simps get_token_def from_ts_def mem_revoked_def one empty_store_def)
    unfolding delegate_granted_def
    apply (rule wp_bind, rule observe, simp, simp)
    apply (simp add: wp_simps sens delegate_issue_def resolve_subject_def empty_store_def)
    apply (rule wp_new_subject, simp)
    apply (simp add: wp_simps fields register_exempt_subject_def mint_childP_def persist_token_def child int_or_def
        ts_of_def)
    done
qed

theorem delegated_capability_verifies_witness:
  "\<exists>cap t v t'. delegate root_env ''t'' ''bot'' [''read''] None root_world = (Inr cap, t)
     \<and> verify root_env (Some (cap_token cap)) ''read'' (root_world\<lparr>w_tick := 30\<rparr>) = (Inr v, t')
     \<and> vr_valid v \<and> vr_claims v = Some (cap_claims cap) \<and> ancestor_jtis (cap_claims cap) = [''r'']"
proof -
  let ?u = "root_world\<lparr>w_tick := 30\<rparr>"
  obtain cap t jti now now' parent sid x where run: "delegate root_env ''t'' ''bot'' [''read''] None root_world = (Inr cap, t)"
    and cap: "cap = tok_mint_child root_env default_config jti now now' parent sid [''read''] x False None"
    and c: "c_iat (cap_claims cap) \<le> 20" "c_exp (cap_claims cap) = 3600" "ancestor_jtis (cap_claims cap) = [''r'']"
    using root_delegates by (auto simp: wp_def split: prod.splits sum.splits)
  have "jwt_roundtrip root_env k a (to_payload (cap_claims cap))" for k a
    unfolding root_env_def by (rule jwt_roundtrip_signed) (simp add: to_payload_def)
  moreover have "cap_token cap \<noteq> ''''"
    by (simp add: cap tok_mint_child_def capability_of_def encode_claims_def root_env_def signed_env_def)
  moreover have "same_keys (w_config root_world) (w_config ?u)" by (simp add: same_keys_def)
  moreover have "from_ts (c_iat (cap_claims cap)) \<le> e_clock root_env (Suc (w_tick ?u))" using c(1) by (simp add: from_ts_def)
  ultimately have v: "case verify root_env (Some (cap_token cap)) ''read'' ?u of
     (Inr v, _) \<Rightarrow> (vr_valid v \<longleftrightarrow> \<not> br_open (w_breaker ?u) \<and> ''read'' \<in> set [''read'']
           \<and> ts_of (e_clock root_env (w_tick ?u + 3)) \<le> c_exp (cap_claims cap) \<and> cap_jti cap \<notin> mem_revoked (w_store ?u)
           \<and> set (ancestor_jtis (cap_claims cap)) \<inter> mem_revoked (w_store ?u) = {})
       \<and> (vr_valid v \<longrightarrow> vr_claims v = Some (cap_claims cap))
   | (Inl x, _) \<Rightarrow> \<not> br_open (w_breaker ?u) \<and> verify_unanswered root_env ?u (cap_claims cap) x"
    by (rule delegated_capability_verifies [OF run])
  have no: "\<not> verify_unanswered root_env ?u c x" for c x
    by (auto simp: verify_unanswered_def empty_store_def dest: arg_cong [where f = fst])
  from v no obtain v t' where "verify root_env (Some (cap_token cap)) ''read'' ?u = (Inr v, t')"
    by (cases "verify root_env (Some (cap_token cap)) ''read'' ?u") (auto split: sum.splits)
  with v run c show ?thesis by (auto simp: new_breaker_def ts_of_def mem_revoked_def empty_store_def)
qed

text \<open>A breaker that tripped, an hour and several calls later.\<close>

definition tripped_world :: world where
  "tripped_world = root_world\<lparr>w_breaker := new_breaker\<lparr>br_open := True, br_reason := Some ''error_rate''\<rparr>\<rparr>"

theorem open_circuit_stops_witness:
  "\<exists>u. u = run_ops root_env (OpPendingApprovals # replicate 3600 (OpVerify (Some ''t'') ''read'')) tripped_world
     \<and> delegate root_env ''t'' ''bot'' [''read''] None u = (Inl (CircuitOpen (Some ''error_rate'')), u)"
proof -
  have "br_open (w_breaker tripped_world)" "br_reason (w_breaker tripped_world) = Some ''error_rate''"
    by (simp_all add: tripped_world_def)
  moreover have "OpResetCircuit \<notin> set (OpPendingApprovals # replicate 3600 (OpVerify (Some ''t'') ''read''))" by simp
  ultimately show ?thesis using open_circuit_stops [of tripped_world] by metis
qed


theorem revoke_reports_in_flight_witness:
  "\<exists>rr t. revoke root_env ''j'' None (run_ops root_env [OpPendingReviews True True] (root_world\<lparr>w_store := example_store\<rparr>))
      = (Inr rr, t)
    \<and> length (rr_reviews rr) = 1
    \<and> {(av_action_id v, av_jti v, av_classification v) |v. v \<in> set (rr_reviews rr)} = {(''a'', ''j'', UNKNOWN)}"
proof -
  let ?w = "root_world\<lparr>w_store := example_store\<rparr>"
  have st: "w_store ?w = example_store" by simp
  have none: "mem_edges example_store = {}" "list_reviews example_store None = []"
    by (simp_all add: mem_edges_def dget_list_def list_reviews_def sort_desc_by_def example_store_actions)
  have c: "classify_action (example_action i j n None) = UNKNOWN" "classify_action (example_action i j n (Some CLEAN)) = CLEAN"
    for i j n by (simp_all add: classify_action_def example_action_def)
  have "{(ar_action_id a, ar_jti a, classify_action a) |a. a \<in> {example_action ''a'' ''j'' 3 None,
      example_action ''b'' ''j'' 1 (Some CLEAN), example_action ''c'' ''k'' 2 None}
            \<and> ar_jti a \<in> {}\<^sup>* `` {''j''} \<and> classify_action a \<noteq> CLEAN
            \<and> ar_action_id a \<notin> av_action_id ` set []} = {(''a'', ''j'', UNKNOWN)}"
  proof (intro set_eqI iffI)
    fix x assume "x \<in> {(''a'', ''j'', UNKNOWN)}"
    then show "x \<in> {(ar_action_id a, ar_jti a, classify_action a) |a. a \<in> {example_action ''a'' ''j'' 3 None,
      example_action ''b'' ''j'' 1 (Some CLEAN), example_action ''c'' ''k'' 2 None}
            \<and> ar_jti a \<in> {}\<^sup>* `` {''j''} \<and> classify_action a \<noteq> CLEAN
            \<and> ar_action_id a \<notin> av_action_id ` set []}"
      by (intro CollectI exI [of _ "example_action ''a'' ''j'' 3 None"]) (simp add: c example_action_fields)
  qed (elim CollectE exE conjE insertE; simp add: c example_action_fields)
  then have "{(ar_action_id a, ar_jti a, classify_action a) |a. (\<exists>i. get_action (w_store ?w) i = Some a)
            \<and> ar_jti a \<in> (mem_edges (w_store ?w))\<^sup>* `` {''j''} \<and> classify_action a \<noteq> CLEAN
            \<and> ar_action_id a \<notin> av_action_id ` set (list_reviews (w_store ?w) None)} = {(''a'', ''j'', UNKNOWN)}"
    unfolding st none get_action_def example_store_lookup .
  note acts = this
  have same: "run_ops root_env [OpPendingReviews True True] ?w = ?w"
    by (simp add: run_ops_Cons final_def discard_def pending_reviews_def getsP_def bindP_def ret_def)
  have "mem_ok (w_store ?w)" using mem_ok_example by simp
  moreover have "fresh_uuids root_env" by (simp add: root_env_def)
  ultimately obtain rr t where run: "revoke root_env ''j'' None ?w = (Inr rr, t)"
    "{(av_action_id v, av_jti v, av_classification v) |v. v \<in> set (rr_reviews rr)} = {(''a'', ''j'', UNKNOWN)}"
    "distinct (map av_action_id (rr_reviews rr))"
    using revoke_reports_in_flight [of ?w root_env "[OpPendingReviews True True]" "''j''" None] acts
    unfolding same Let_def by auto
  from arg_cong [OF run(2), of "\<lambda>X. fst ` X"] have "set (map av_action_id (rr_reviews rr)) = {''a''}"
    by (simp add: Setcompr_eq_image image_image)
  then have "length (rr_reviews rr) = 1" using distinct_card [OF run(3)] by simp
  with run show ?thesis unfolding same by blast
qed

text \<open>The same firewall with the root's subject exempt from the limits.\<close>

definition exempt_world :: world where
  "exempt_world = root_world\<lparr>w_config := default_config\<lparr>cf_exempt_agents := {''human:1''}\<rparr>\<rparr>"

lemma exempt_fields [simp]:
  "w_config exempt_world = default_config\<lparr>cf_exempt_agents := {''human:1''}\<rparr>" "w_tick exempt_world = 0"
  "w_breaker exempt_world = new_breaker" "w_store exempt_world = w_store root_world"
  by (simp_all add: exempt_world_def)

lemma exempt_decodes: "tok_decode root_env (default_config\<lparr>cf_exempt_agents := X\<rparr>) now ''t'' False = Inr demo_root"
  using root_decodes by (simp add: tok_decode_def)

definition exempt_ok :: "world \<Rightarrow> bool" where
  "exempt_ok w \<longleftrightarrow> w_config w = default_config\<lparr>cf_exempt_agents := {''human:1''}\<rparr> \<and> ms_actions (w_store w) = []
     \<and> \<not> ms_closed (w_store w)"

lemma exempt_verifies:
  "wp (verify root_env (Some ''t'') ''read'') (\<lambda>v t. vr_valid v \<and> vr_claims v = Some demo_root \<and> exempt_ok t)
     (\<lambda>_ _. False) exempt_world"
proof -
  have "verifiable root_env exempt_world (Some ''t'') ''read'' demo_root"
    by (simp add: verifiable_def new_breaker_def exempt_decodes str_or_def ts_of_def empty_store_def mem_revoked_def)
  moreover have "verify_unanswered root_env exempt_world c x \<Longrightarrow> c = demo_root \<Longrightarrow> False" for c x
    by (auto simp: verify_unanswered_def rate_check_def is_exempt_def empty_store_def)
  ultimately have "wp (verify root_env (Some ''t'') ''read'') (\<lambda>v t. vr_valid v \<and> vr_claims v = Some demo_root)
     (\<lambda>_ _. False) exempt_world"
    by (intro wp_verify) (auto simp: exempt_decodes str_or_def)
  moreover have "keeps exempt_ok (verify root_env (Some ''t'') ''read'')"
    by (rule keeps_readers) (simp add: stable_def exempt_ok_def log_event_frame)
  then have "wp (verify root_env (Some ''t'') ''read'') (\<lambda>_. exempt_ok) (\<lambda>_. exempt_ok) exempt_world"
    by (simp add: keeps_wp exempt_ok_def empty_store_def)
  ultimately have "wp (verify root_env (Some ''t'') ''read'') (\<lambda>v t. (vr_valid v \<and> vr_claims v = Some demo_root) \<and> exempt_ok t)
     (\<lambda>_ t. False \<and> exempt_ok t) exempt_world" by (rule wp_conj)
  then show ?thesis by simp
qed

lemma exempt_action:
  "wp (action_enter root_env ''t'' ''read'' ''fetch'' None)
     (\<lambda>(h, c) t. \<exists>a. get_action (w_store t) (ah_action_id h) = Some a) (\<lambda>_ _. False) exempt_world"
proof -
  have rate: "wp (rateP root_env ''human:1'' ''action'') Q E w" if "exempt_ok w" "Q () (tick w)" for Q E w
    using that by (simp add: wp_def rateP_def rate_check_def is_exempt_def exempt_ok_def tick_def)
  have put: "wp (put_action b) Q E st" if "ms_actions st = []" "Q () (st\<lparr>ms_actions := [(ar_action_id b, b)],
      ms_actions_by_jti := dset (ar_jti b) (dget_list (ms_actions_by_jti st) (ar_jti b) @ [ar_action_id b]) (ms_actions_by_jti st)\<rparr>)"
    for b Q E st using that by (simp add: wp_def put_action_def)
  have "wp (require root_env (Some ''t'') ''read'') (\<lambda>c t. c = demo_root \<and> exempt_ok t) (\<lambda>_ _. False) exempt_world"
    unfolding require_def by (rule wp_bind, rule wp_mono [OF exempt_verifies]) (auto simp: wp_simps)
  then show ?thesis
    unfolding action_enter_def wp_bindP [of "require root_env (Some ''t'') ''read''"]
    by (rule wp_mono) (auto intro!: rate put simp: wp_simps exempt_ok_def get_action_def log_event_frame)
qed

theorem action_block_outcome_witness:
  "\<exists>t a'. with_action root_env (\<lambda>_. ''ValueError: boom'') ''t'' ''read'' ''fetch'' None
        (\<lambda>h w. ((Inl ValueError :: agp_error + unit, h), w)) exempt_world = (Inl ValueError, t)
     \<and> classify_action a' = PARTIAL"
proof -
  obtain h c w1 a where "action_enter root_env ''t'' ''read'' ''fetch'' None exempt_world = (Inr (h, c), w1)"
    "get_action (w_store w1) (ah_action_id h) = Some a"
    using exempt_action by (auto simp: wp_def split: prod.splits sum.splits)
  from action_block_outcome [OF this(1) _ this(2), of "\<lambda>h w. ((Inl ValueError :: agp_error + unit, h), w)" "Inl ValueError"
      "\<lambda>_. ''ValueError: boom''"]
  show ?thesis by auto
qed

definition review_store :: memory_store where
  "review_store = put_review \<lparr>av_review_id = ''v'', av_jti = ''j'', av_action_id = ''a'', av_action_name = ''pay'',
     av_classification = UNKNOWN, av_revoked_at = 9, av_revocation_root_jti = ''j'', av_reviewed = False,
     av_reviewed_by = None, av_reviewed_at = None\<rparr> example_store"

theorem resolve_review_once_witness:
  "\<exists>v t. resolve_review root_env ''v'' ''checked'' ''carol'' (root_world\<lparr>w_store := review_store\<rparr>) = (Inr v, t)
     \<and> fst (resolve_review root_env ''v'' ''again'' ''dave'' t) = Inl ValueError"
proof -
  let ?w = "root_world\<lparr>w_store := review_store\<rparr>"
  have "mem_ok (w_store ?w)" by (simp add: review_store_def mem_ok_put_review mem_ok_example)
  note once = resolve_review_once [OF this, where e = root_env and i = "''v''" and nt = "''checked''" and who = "''carol''"
      and nt' = "''again''" and who' = "''dave''"]
  have "\<exists>v t. resolve_review root_env ''v'' ''checked'' ''carol'' ?w = (Inr v, t)"
    by (simp add: resolve_review_def review_store_def put_review_def get_review_def example_store_actions bindP_def getsP_def
        nowP_def liftP_def mk_review_def storeP_def zoomP_def update_review_def auditP_def updP_def ret_def strip_def is_space_def
        code_of_def tick_def)
  with once show ?thesis by auto
qed

section \<open>A whole run\<close>

text \<open>Alice mints a root for the sensitive scope \<open>send_email\<close>; her agent asks to delegate it, which parks
  the request; the request is approved. The claims of the root are computed from the readings.\<close>

definition run_root :: claims where
  "run_root = cap_claims (tok_mint_root (demo_env (\<lambda>_. None)) default_config (replicate 3 CHR ''u'') 3000000
     (''human:'' @ ''u'') [''send_email''] 3600 5)"

definition run_token :: string where
  "run_token = pack (to_payload run_root)"

definition run_env :: env where
  "run_env = signed_env (\<lambda>_. None)"

definition run_minted :: world where
  "run_minted = final (mint_root run_env ''alice'' [''send_email''] None None) (new_firewall default_config)"

lemma run_clock [simp]: "e_clock run_env n = 1000000 * int n" "e_uuid4 run_env n = replicate (Suc n) CHR ''u''"
  by (simp_all add: run_env_def)

lemma default_fields:
  "cf_issuer default_config = ''agperms''" "cf_max_delegation_depth default_config = 5"
  "cf_default_ttl_seconds default_config = 3600" "cf_max_ttl_seconds default_config = 86400"
  "cf_exempt_agents default_config = {}" "cf_exempt_subject_ids default_config = {}"
  "cf_circuit_window_seconds default_config = 60" "cf_circuit_min_samples default_config = 20"
  "cf_circuit_volume_ceiling default_config = 10000" "cf_anomaly_min_baseline_samples default_config = 10"
  "cf_approval_timeout_seconds default_config = 300" "cf_sensitive_scopes default_config = DEFAULT_SENSITIVE_SCOPES"
  by (simp_all add: default_config_def)

lemma run_root_claims:
  "cap_claims (tok_mint_root run_env default_config ''uuu'' 3000000 ''human:u'' [''send_email''] 3600 5) = run_root"
  "c_jti run_root = ''uuu''" "c_exp run_root = 3603" "c_root_jti run_root = ''uuu''" "c_depth run_root = 0"
  "c_max_depth run_root = 5" "scope_set run_root = {''send_email''}" "ancestor_jtis run_root = []" "c_sub run_root = ''human:u''"
  by (simp_all add: run_root_def tok_mint_root_def numeral_3_eq_3 ts_of_def ancestor_jtis_def scope_set_def)

text \<open>Action and token of the audit rows that record an issued capability.\<close>

definition grant_rows :: "audit_row list \<Rightarrow> (string \<times> string option) list" where
  "grant_rows rows = filter (\<lambda>p. fst p \<in> {''root_minted'', ''delegated''}) (map (\<lambda>r. (ev_action r, ev_jti r)) rows)"

lemma grant_rows_log:
  "grant_rows (ms_audit (w_store (log_event e ev w))) = grant_rows (ms_audit (w_store w))
     @ (if ev_action ev \<in> {''root_minted'', ''delegated''} then [(ev_action ev, ev_jti ev)] else [])"
  by (simp add: log_event_def log_one_def log_batch_def append_audit_batch_def Let_def row_of_def grant_rows_def
      split: prod.splits)

lemma grant_rows_circuit:
  "grant_rows (ms_audit (w_store (circuit_record e err sid pol w))) = grant_rows (ms_audit (w_store w))"
  by (simp add: circuit_record_def Let_def grant_rows_log split: prod.splits option.splits)

lemma run_minted_facts:
  "ms_tokens (w_store run_minted) = [(''uuu'', meta_of run_root None)]" "ms_edges (w_store run_minted) = []"
  "ms_revoked (w_store run_minted) = []" "ms_approvals (w_store run_minted) = []" "w_tick run_minted = 5"
  "w_config run_minted = default_config" "w_breaker run_minted = new_breaker" "w_rate run_minted = []"
  "w_anomaly run_minted = []" "ms_closed (w_store run_minted) = False"
  "dget (ms_subject_by_hash (w_store run_minted)) (h, ''agent'') = None"
  "grant_rows (ms_audit (w_store run_minted)) = [(''root_minted'', Some ''uuu'')]"
  by (simp_all add: run_minted_def final_def mint_root_def new_firewall_def default_fields bindP_def getsP_def Let_def
      int_or_def resolve_subject_def uuidP_def nowP_def storeP_def zoomP_def get_or_create_subject_def updP_def ret_def
      empty_store_def persist_token_def put_token_def auditP_def log_event_frame tick_def register_exempt_subject_def
      run_root_claims grant_rows_log) (simp_all add: grant_rows_def cap_jti_def run_root_claims tok_mint_root_def)

lemma run_decodes: "tok_decode run_env default_config now run_token False = Inr run_root"
proof -
  have "json_get (to_payload run_root) ''iss'' = Some (JStr ''agperms'')"
    by (simp add: json_get_def to_payload_def run_root_def tok_mint_root_def default_fields)
  moreover have "run_token \<noteq> ''''" by (simp add: run_token_def)
  ultimately show ?thesis
    by (simp add: tok_decode_def run_env_def signed_env_def demo_env_def run_token_def default_fields from_payload_to_payload)
qed

lemma circuit_record_frame:
  "w_config (circuit_record e err sid pol w) = w_config w"
  "ms_closed (w_store (circuit_record e err sid pol w)) = ms_closed (w_store w)"
  "ms_tokens (w_store (circuit_record e err sid pol w)) = ms_tokens (w_store w)"
  "ms_edges (w_store (circuit_record e err sid pol w)) = ms_edges (w_store w)"
  "ms_revoked (w_store (circuit_record e err sid pol w)) = ms_revoked (w_store w)"
  "ms_approvals (w_store (circuit_record e err sid pol w)) = ms_approvals (w_store w)"
  "w_tick (circuit_record e err sid pol w) \<le> w_tick w + 2" "w_tick w \<le> w_tick (circuit_record e err sid pol w)"
  by (simp_all add: circuit_record_def Let_def log_event_frame split: prod.splits option.splits)

text \<open>What is left in the store by the parked request.\<close>

definition run_parked :: "pending_approval \<Rightarrow> world \<Rightarrow> bool" where
  "run_parked r t \<longleftrightarrow> ms_approvals (w_store t) = [(replicate 14 CHR ''u'', r)] \<and> pa_approval_id r = replicate 14 CHR ''u''
     \<and> pa_status r = ''pending'' \<and> pa_parent_jti r = ''uuu'' \<and> pa_expires_at r = from_ts 314 \<and> pa_parent_exp r = 3603
     \<and> ms_tokens (w_store t) = [(''uuu'', meta_of run_root None)] \<and> ms_edges (w_store t) = []
     \<and> pa_requested_scopes r = [''send_email''] \<and> (\<exists>i. pa_child_subject_id r = ''agent:'' @ i)
     \<and> grant_rows (ms_audit (w_store t)) = [(''root_minted'', Some ''uuu'')]
     \<and> ms_revoked (w_store t) = [] \<and> w_config t = default_config \<and> \<not> ms_closed (w_store t) \<and> w_tick t \<le> 20 \<and> 5 \<le> w_tick t"

lemma run_parks:
  "wp (delegate run_env run_token ''bot'' [''send_email''] None) (\<lambda>_ _. False)
    (\<lambda>x t. (\<exists>req sens. x = ApprovalRequired (replicate 14 CHR ''u'') req sens) \<and> (\<exists>r. run_parked r t)) run_minted"
proof -
  have rate: "wp (rateP run_env s ''delegate'') Q E w"
    if "w_config w = default_config" "w_rate w = []" "\<And>b. Q () ((tick w)\<lparr>w_rate := b\<rparr>)" for s Q E w
    by (rule wp_rateP) (use that demo_limits(1) [of s "e_clock run_env (w_tick w)"] in auto)
  have observe: "wp (observeP run_env s n) Q E w"
    if "w_config w = default_config" "w_anomaly w = []" "\<And>b. Q None ((tick w)\<lparr>w_anomaly := b\<rparr>)" for s n Q E w
    using that by (simp add: wp_def observeP_def observe_delegation_def new_baseline_def scope_finding_def default_fields Let_def)
  have sens: "sensitive_subset default_config [''send_email''] = [''send_email'']"
    by (simp add: sensitive_subset_def default_fields DEFAULT_SENSITIVE_SCOPES_def)
  have one: "sorted_set [''send_email''] = [''send_email'']" by (simp add: sorted_set_def)
  show ?thesis
    unfolding delegate_def
    apply (simp add: wp_simps run_minted_facts new_breaker_def)
    apply (rule wp_decode_exact [of _ _ _ run_root])
    apply (simp_all add: run_minted_facts run_decodes run_root_claims ts_of_def mem_revoked_def)
    apply (rule rate, simp add: run_minted_facts, simp add: run_minted_facts)
    apply (simp add: assert_root_alive_def wp_simps run_root_claims run_minted_facts get_token_def from_ts_def mem_revoked_def one)
    unfolding delegate_granted_def
    apply (rule wp_bind, rule observe, simp add: run_minted_facts, simp add: run_minted_facts)
    apply (simp add: wp_simps run_minted_facts sens park_for_approval_def resolve_subject_def)
    apply (rule wp_new_subject, simp add: run_minted_facts)
    apply (simp add: wp_simps run_minted_facts register_exempt_subject_def default_fields)
    apply (simp add: run_parked_def circuit_record_frame log_event_frame put_approval_def run_minted_facts run_root_claims ts_of_def
        grant_rows_log grant_rows_circuit)
    apply (intro conjI)
      apply (simp add: numeral_eq_Suc)
     apply (rule order_trans [OF circuit_record_frame(7)], simp add: log_event_frame run_minted_facts)
    apply (rule order_trans [OF _ circuit_record_frame(8)], simp add: log_event_frame run_minted_facts)
    done
qed

section \<open>The run approved\<close>

definition demo_ops :: "op list" where
  "demo_ops = [OpMintRoot ''alice'' [''send_email''] None None, OpDelegate run_token ''bot'' [''send_email''] None]"

lemma demo_honest: "honest_run run_env demo_ops (new_firewall default_config)"
proof -
  have "final (run_op run_env (OpMintRoot ''alice'' [''send_email''] None None)) (new_firewall default_config) = run_minted"
    by (simp add: run_minted_def final_def discard_def bindP_def ret_def split: prod.splits sum.splits)
  moreover have "honest run_env run_minted run_token"
    by (auto simp: honest_def run_minted_facts run_decodes ledger_view get_token_def run_root_claims)
  ultimately show ?thesis by (simp add: demo_ops_def)
qed

lemma demo_parked: "\<exists>r. run_parked r (run_ops run_env demo_ops (new_firewall default_config))"
proof -
  have "run_ops run_env demo_ops (new_firewall default_config)
      = final (delegate run_env run_token ''bot'' [''send_email''] None) run_minted"
    by (simp add: demo_ops_def run_ops_def run_minted_def final_def discard_def bindP_def ret_def split: prod.splits sum.splits)
  then show ?thesis using run_parks by (auto simp: wp_def final_def split: prod.splits sum.splits)
qed

lemma demo_approves:
  assumes r: "run_parked r w"
  shows "wp (approve run_env (replicate 14 CHR ''u'') ''carol'') (\<lambda>_ t. \<exists>j m. get_token (w_store t) j = Some m
     \<and> get_token (w_store t) '''' = None \<and> (''uuu'', j) \<in> mem_edges (w_store t)
     \<and> tm_scopes m = [''send_email''] \<and> (\<exists>i. tm_subject_id m = ''agent:'' @ i)
     \<and> get_token (w_store t) ''uuu'' = Some (meta_of run_root None)
     \<and> grant_rows (ms_audit (w_store t)) = [(''root_minted'', Some ''uuu'')]) (\<lambda>_ _. False) w"
proof -
  have meta: "claims_from_metadata default_config (meta_of run_root None) = Inr run_root"
    by (simp add: claims_from_metadata_def meta_of_def run_root_def tok_mint_root_def default_fields ts_of_def from_ts_def)
  have lift: "wp (\<lambda>w. (claims_from_metadata (w_config w) (meta_of run_root None), w)) Q E v = Q run_root v"
    if "w_config v = default_config" for Q E v using that meta by (simp add: wp_def)
  have fresh: "replicate (Suc n) CHR ''u'' \<noteq> ''uuu''" if "5 \<le> n" for n
    using that by (auto dest: arg_cong [of _ _ length])
  have t: "int (w_tick w) \<le> 20" using r by (simp add: run_parked_def)
  have child: "c_jti (cap_claims (tok_mint_child e c jti n n' p s sc x ap b)) = jti"
    "cap_jti (tok_mint_child e c jti n n' p s sc x ap b) = jti"
    "tm_subject_id (meta_of (cap_claims (tok_mint_child e c jti n n' p s sc x ap b)) pj) = s" for e c jti n n' p s sc x ap b pj
    by (simp_all add: tok_mint_child_def cap_jti_def sorted_set_def meta_of_def)
  show ?thesis
    using r t fresh [of "w_tick w + 5"] unfolding approve_def load_pending_def approve_issue_def
    apply (simp add: wp_simps run_parked_def get_approval_def get_token_def mem_revoked_def from_ts_def ts_of_def lift
        mint_childP_def persist_token_def decide_approval_def add_edge_def Let_def child log_event_frame grant_rows_log
        mem_edges_def dget_list_def)
    apply (simp add: tok_mint_child_def sorted_set_def)
    done
qed

lemma run_op_approve: "approve e i a w = (Inr cap, t) \<Longrightarrow> final (run_op e (OpApprove i a)) w = t"
  by (simp add: final_def discard_def bindP_def ret_def)

theorem approve_grants_the_request_once_witness:
  "\<exists>cap t. approve run_env (replicate 14 CHR ''u'') ''carol'' (run_ops run_env demo_ops (new_firewall default_config)) = (Inr cap, t)
     \<and> c_approved_by (cap_claims cap) = Some ''carol''
     \<and> approve run_env (replicate 14 CHR ''u'') ''dave'' t = (Inl ValueError, t)"
proof -
  obtain r where "run_parked r (run_ops run_env demo_ops (new_firewall default_config))" using demo_parked by blast
  from demo_approves [OF this] obtain cap t where
    ok: "approve run_env (replicate 14 CHR ''u'') ''carol'' (run_ops run_env demo_ops (new_firewall default_config)) = (Inr cap, t)"
    by (auto simp: wp_def split: prod.splits sum.splits)
  with approve_grants_the_request_once [OF demo_honest, of "replicate 14 CHR ''u''" "''carol''" "''dave''"] show ?thesis by auto
qed

text \<open>The run with the approval.\<close>

definition demo_ops2 :: "op list" where
  "demo_ops2 = demo_ops @ [OpApprove (replicate 14 CHR ''u'') ''carol'']"

lemma demo_honest2: "honest_run run_env demo_ops2 (new_firewall default_config)"
proof -
  have "honest_run e (ps @ qs) w \<longleftrightarrow> honest_run e ps w \<and> honest_run e qs (run_ops e ps w)" for e ps qs w
    by (induction ps arbitrary: w) (simp_all add: run_ops_Cons)
  then show ?thesis using demo_honest by (simp add: demo_ops2_def)
qed

lemma demo_child:
  "\<exists>j m. get_token (w_store (run_ops run_env demo_ops2 (new_firewall default_config))) j = Some m
     \<and> get_token (w_store (run_ops run_env demo_ops2 (new_firewall default_config))) '''' = None
     \<and> (''uuu'', j) \<in> mem_edges (w_store (run_ops run_env demo_ops2 (new_firewall default_config)))
     \<and> tm_scopes m = [''send_email''] \<and> (\<exists>i. tm_subject_id m = ''agent:'' @ i)
     \<and> get_token (w_store (run_ops run_env demo_ops2 (new_firewall default_config))) ''uuu'' = Some (meta_of run_root None)
     \<and> grant_rows (ms_audit (w_store (run_ops run_env demo_ops2 (new_firewall default_config)))) = [(''root_minted'', Some ''uuu'')]"
proof -
  obtain r where "run_parked r (run_ops run_env demo_ops (new_firewall default_config))" using demo_parked by blast
  note ap = demo_approves [OF this]
  then obtain cap t where
    ok: "approve run_env (replicate 14 CHR ''u'') ''carol'' (run_ops run_env demo_ops (new_firewall default_config)) = (Inr cap, t)"
    by (auto simp: wp_def split: prod.splits sum.splits)
  have "run_ops run_env demo_ops2 (new_firewall default_config) = t"
    by (simp add: demo_ops2_def run_ops_append run_ops_Cons run_op_approve [OF ok] del: run_op.simps)
  then show ?thesis using wp_run_Inr [OF ap ok] by simp
qed

theorem lineage_never_widens_witness:
  "\<exists>j am dm. get_token (w_store (run_ops run_env demo_ops2 (new_firewall default_config))) ''uuu'' = Some am
     \<and> get_token (w_store (run_ops run_env demo_ops2 (new_firewall default_config))) j = Some dm
     \<and> set (tm_scopes dm) \<subseteq> set (tm_scopes am) \<and> tm_depth am < tm_depth dm"
proof -
  obtain j where "(''uuu'', j) \<in> (mem_edges (w_store (run_ops run_env demo_ops2 (new_firewall default_config))))\<^sup>+"
    using demo_child by blast
  from lineage_never_widens [OF demo_honest2 this] show ?thesis by blast
qed

theorem chain_shows_ancestry_witness:
  "\<exists>j hops t. chain run_env j (run_ops run_env demo_ops2 (new_firewall default_config)) = (Inr hops, t)
     \<and> ''uuu'' \<in> set (map ch_jti hops) \<and> distinct (map ch_jti hops)"
proof -
  obtain j m where j: "get_token (w_store (run_ops run_env demo_ops2 (new_firewall default_config))) j = Some m"
     "get_token (w_store (run_ops run_env demo_ops2 (new_firewall default_config))) '''' = None"
     "(''uuu'', j) \<in> mem_edges (w_store (run_ops run_env demo_ops2 (new_firewall default_config)))"
    using demo_child by blast
  from chain_shows_ancestry [OF demo_honest2 j(2,1)] j(3) show ?thesis by blast
qed

end
