(* ===== verification/Risk.thy ===== *)
theory Risk
  imports Firewall_Demo
begin

text \<open>
  \<open>agperms/risk.py\<close>: the risk-state vector of a subject, computed from the audit log and the token
  records of a firewall. Floats are reals. \<open>datetime.fromisoformat\<close> is the argument \<open>fromiso\<close>
  (\<open>None\<close> when it raises).
\<close>

section \<open>Permission classes\<close>

definition PERMISSION_WEIGHTS :: "(string, real) dict" where
  "PERMISSION_WEIGHTS = [(''read'', 1 / 2), (''email'', 1), (''scheduling'', 2), (''record_modification'', 4),
     (''payments'', 8), (''code_execution'', 8), (''physical_control'', 15)]"

definition DEFAULT_SCOPE_PERMISSION_CLASS :: "(string, string) dict" where
  "DEFAULT_SCOPE_PERMISSION_CLASS = [(''read_calendar'', ''read''), (''read_email'', ''read''), (''send_email'', ''email''),
     (''post_public_content'', ''email''), (''schedule_meeting'', ''scheduling''), (''delete_data'', ''record_modification''),
     (''spend_money'', ''payments''), (''transfer_funds'', ''payments''), (''execute_code'', ''code_execution'')]"

definition FALLBACK_PERMISSION_CLASS :: string where
  "FALLBACK_PERMISSION_CLASS = ''record_modification''"

definition permission_class_of :: "(string, string) dict option \<Rightarrow> string \<Rightarrow> string" where
  "permission_class_of overrides scope = (case dget (case overrides of None \<Rightarrow> [] | Some d \<Rightarrow> d) scope of
     Some c \<Rightarrow> c
   | None \<Rightarrow> (case dget DEFAULT_SCOPE_PERMISSION_CLASS scope of Some c \<Rightarrow> c | None \<Rightarrow> FALLBACK_PERMISSION_CLASS))"

text \<open>\<open>weights or PERMISSION_WEIGHTS\<close>, and the weight of a class in the table.\<close>

definition weight_table :: "(string, real) dict option \<Rightarrow> (string, real) dict" where
  "weight_table weights = (case weights of Some (w # ws) \<Rightarrow> w # ws | _ \<Rightarrow> PERMISSION_WEIGHTS)"

definition class_weight :: "(string, real) dict \<Rightarrow> string \<Rightarrow> real" where
  "class_weight table cls = (case dget table cls of Some w \<Rightarrow> w
     | None \<Rightarrow> (case dget table FALLBACK_PERMISSION_CLASS of Some w \<Rightarrow> w | None \<Rightarrow> 1))"

definition permission_exposure ::
  "(string, real) dict option \<Rightarrow> (string, string) dict option \<Rightarrow> string list \<Rightarrow> string set \<times> real" where
  "permission_exposure weights overrides scopes = (let classes = permission_class_of overrides ` set scopes
     in (classes, \<Sum>cls \<in> classes. class_weight (weight_table weights) cls))"

section \<open>Autonomy and concentration\<close>

definition autonomy_category :: "int \<Rightarrow> reversibility option \<Rightarrow> bool \<Rightarrow> int" where
  "autonomy_category depth worst delegates_further =
     (if worst = None \<or> worst = Some IDEMPOTENT then 0
      else if worst = Some REVERSIBLE then 1
      else if delegates_further \<or> 1 < depth then 3
      else 2)"

definition herfindahl :: "(string, real) dict \<Rightarrow> real" where
  "herfindahl shares = (let total = sum_list (map snd shares) in
     if total \<le> 0 then 0 else sum_list (map (\<lambda>v. (v / total) ^ 2) (map snd shares)))"

section \<open>Reading the records\<close>

definition durable :: "memory_store \<Rightarrow> bool" where
  "durable st = False"

definition governance_tier :: "env \<Rightarrow> world \<Rightarrow> nat \<times> (string, bool) dict" where
  "governance_tier e w = (let evidence =
     [(''durable_storage'', durable (w_store w)),
      (''persistent_signing_key'', \<not> signing_key_is_ephemeral (w_config w)),
      (''audit_chain_intact'', ir_intact (verify_integrity e (w_store w))),
      (''review_queue_clear'', list_reviews (w_store w) (Some False) = []),
      (''approval_gate_configured'', cf_sensitive_scopes (w_config w) \<noteq> {})]
    in (length (filter snd evidence), evidence))"

fun grant_loop :: "memory_store \<Rightarrow> string \<Rightarrow> audit_row list \<Rightarrow> string list \<times> int \<times> bool \<Rightarrow> string list \<times> int \<times> bool" where
  "grant_loop st subject_id [] acc = acc"
| "grant_loop st subject_id (row # rows) (scopes, deepest, delegated) =
     (if str_or (ev_jti row) '''' = '''' then grant_loop st subject_id rows (scopes, deepest, delegated)
      else case get_token st (str_or (ev_jti row) '''') of
        None \<Rightarrow> grant_loop st subject_id rows (scopes, deepest, delegated)
      | Some m \<Rightarrow> if tm_subject_id m \<noteq> subject_id then grant_loop st subject_id rows (scopes, deepest, delegated)
          else grant_loop st subject_id rows (scopes @ tm_scopes m, max deepest (tm_depth m),
            delegated \<or> children_of st [str_or (ev_jti row) ''''] \<noteq> []))"

definition grant_profile :: "memory_store \<Rightarrow> string \<Rightarrow> string list \<times> int \<times> bool" where
  "grant_profile st subject_id = (case grant_loop st subject_id
       (find_audit_rows st (Some ''root_minted'') None None @ find_audit_rows st (Some ''delegated'') None None) ([], 0, False) of
     (scopes, deepest, delegated) \<Rightarrow> (sorted_set scopes, deepest, delegated))"

definition row_at_or_after :: "(string \<Rightarrow> datetime option) \<Rightarrow> audit_row \<Rightarrow> datetime \<Rightarrow> bool" where
  "row_at_or_after fromiso row since = (case (as_utc (fromiso (ev_event_ts row)), as_utc (Some since)) of
     (Some (Aware stamp _), Some (Aware bound _)) \<Rightarrow> bound \<le> stamp
   | _ \<Rightarrow> True)"

definition counted_row :: "(string \<Rightarrow> datetime option) \<Rightarrow> string \<Rightarrow> datetime option \<Rightarrow> audit_row \<Rightarrow> bool" where
  "counted_row fromiso subject_id since row \<longleftrightarrow> ev_actor_id row = Some subject_id
     \<and> (case since of None \<Rightarrow> True | Some s \<Rightarrow> row_at_or_after fromiso row s)"

definition autonomous_row :: "memory_store \<Rightarrow> audit_row \<Rightarrow> bool" where
  "autonomous_row st row = (case (if str_or (ev_jti row) '''' = '''' then None else get_token st (str_or (ev_jti row) '''')) of
     None \<Rightarrow> True | Some m \<Rightarrow> \<not> tm_approval_required m)"

fun authority_loop :: "memory_store \<Rightarrow> (audit_row \<Rightarrow> bool) \<Rightarrow> audit_row list \<Rightarrow> nat \<times> nat \<Rightarrow> nat \<times> nat" where
  "authority_loop st cnt [] acc = acc"
| "authority_loop st cnt (row # rows) (observed, autonomous) =
     (if \<not> cnt row then authority_loop st cnt rows (observed, autonomous)
      else authority_loop st cnt rows (observed + 1, if autonomous_row st row then autonomous + 1 else autonomous))"

definition authority_counts ::
  "(string \<Rightarrow> datetime option) \<Rightarrow> memory_store \<Rightarrow> string \<Rightarrow> datetime option \<Rightarrow> nat \<times> nat" where
  "authority_counts fromiso st subject_id since = authority_loop st (counted_row fromiso subject_id since)
     (find_audit_rows st (Some ''action_started'') None None) (0, 0)"

section \<open>The vector\<close>

record risk_state =
  rs_subject_id :: string
  rs_alpha :: int
  rs_beta :: "real option"
  rs_eta :: "string set"
  rs_eta_exposure :: real
  rs_governance_tier :: nat
  rs_governance_evidence :: "(string, bool) dict"
  rs_dependency_shares :: "(string, real) dict option"
  rs_dependency_concentration :: "real option"
  rs_actions_observed :: nat
  rs_actions_autonomous :: nat
  rs_worst_reversibility :: "reversibility option"

definition beta_is_measured :: "risk_state \<Rightarrow> bool" where
  "beta_is_measured r \<longleftrightarrow> rs_beta r \<noteq> None"

definition compute_risk_state ::
  "env \<Rightarrow> (string \<Rightarrow> datetime option) \<Rightarrow> world \<Rightarrow> string \<Rightarrow> datetime option \<Rightarrow> (string, real) dict option
    \<Rightarrow> (string, real) dict option \<Rightarrow> (string, string) dict option \<Rightarrow> risk_state" where
  "compute_risk_state e fromiso w subject_id since dependency_shares permission_weights scope_permission_classes =
    (let (scopes, depth, delegates_further) = grant_profile (w_store w) subject_id;
         worst = worst_reversibility (w_config w) scopes;
         (eta, exposure) = permission_exposure permission_weights scope_permission_classes scopes;
         (observed, autonomous) = authority_counts fromiso (w_store w) subject_id since;
         (tier, evidence) = governance_tier e w
     in \<lparr>rs_subject_id = subject_id, rs_alpha = autonomy_category depth worst delegates_further,
         rs_beta = (if observed \<noteq> 0 then Some (real autonomous / real observed) else None),
         rs_eta = eta, rs_eta_exposure = exposure, rs_governance_tier = tier, rs_governance_evidence = evidence,
         rs_dependency_shares = dependency_shares,
         rs_dependency_concentration = (case dependency_shares of Some (s # ss) \<Rightarrow> Some (herfindahl (s # ss)) | _ \<Rightarrow> None),
         rs_actions_observed = observed, rs_actions_autonomous = autonomous,
         rs_worst_reversibility = worst\<rparr>)"

section \<open>Properties\<close>

lemma sum_squares_bounds:
  assumes "\<And>v. v \<in> set xs \<Longrightarrow> 0 \<le> v" and "sum_list xs = (1 :: real)"
  shows "1 / real (length xs) \<le> sum_list (map (\<lambda>v. v ^ 2) xs) \<and> sum_list (map (\<lambda>v. v ^ 2) xs) \<le> 1"
proof
  have ne: "0 < real (length xs)" using assms(2) by (cases xs) auto
  let ?m = "1 / real (length xs)"
  have "sum_list (map (\<lambda>v. (v - m) ^ 2) xs) = sum_list (map (\<lambda>v. v ^ 2) xs) - 2 * m * sum_list xs + real (length xs) * m ^ 2" for m
    by (induction xs) (simp_all add: power2_eq_square algebra_simps)
  moreover have "0 \<le> sum_list (map (\<lambda>v. (v - ?m) ^ 2) xs)" by (rule sum_list_nonneg) auto
  ultimately have "0 \<le> sum_list (map (\<lambda>v. v ^ 2) xs) - ?m"
    using ne assms(2) by (simp add: power2_eq_square)
  then show "?m \<le> sum_list (map (\<lambda>v. v ^ 2) xs)" by simp
next
  have "v \<le> 1" if "v \<in> set xs" for v
    using member_le_sum_list [of v xs] assms that by (metis)
  then have "v ^ 2 \<le> v" if "v \<in> set xs" for v
    using that assms(1) by (simp add: power2_eq_square mult_left_le)
  then have "sum_list (map (\<lambda>v. v ^ 2) xs) \<le> sum_list (map (\<lambda>v. v) xs)" by (intro sum_list_mono)
  then show "sum_list (map (\<lambda>v. v ^ 2) xs) \<le> 1" using assms(2) by simp
qed

text \<open>The concentration statistic is normalised. For shares that are not negative and not all zero, in
  any unit, it lies between \<open>1 / K\<close> for \<open>K\<close> providers and 1, and shares that sum to nothing give 0.\<close>

theorem herfindahl_bounds:
  assumes "\<forall>v \<in> snd ` set shares. 0 \<le> v" and "0 < sum_list (map snd shares)"
  shows "1 / real (length shares) \<le> herfindahl shares \<and> herfindahl shares \<le> 1 \<and> herfindahl [] = 0"
proof -
  let ?t = "sum_list (map snd shares)"
  let ?xs = "map (\<lambda>v. v / ?t) (map snd shares)"
  have "sum_list (map (\<lambda>v. v / t) xs) = sum_list xs / t" for t :: real and xs
    by (induction xs) (simp_all add: add_divide_distrib)
  then have "sum_list ?xs = ?t / ?t" .
  then have "sum_list ?xs = 1" using assms(2) by simp
  moreover have "\<And>v. v \<in> set ?xs \<Longrightarrow> 0 \<le> v" using assms by auto
  ultimately show ?thesis using sum_squares_bounds [of ?xs] assms(2)
    by (simp add: herfindahl_def Let_def comp_def)
qed

theorem herfindahl_bounds_witness:
  "1 / 2 \<le> herfindahl [(''aws'', 3), (''gcp'', 1)]"
  using herfindahl_bounds [of "[(''aws'', 3), (''gcp'', 1)]"] by simp

lemma class_weight_default: "0 \<le> class_weight PERMISSION_WEIGHTS cls"
  by (auto simp: class_weight_def PERMISSION_WEIGHTS_def FALLBACK_PERMISSION_CLASS_def split: option.splits if_splits)

text \<open>exposure counts permission classes, not scopes. With the default weights it never goes down when
  scopes are added, a scope of a class already held adds nothing (two ways of sending mail are one
  permission), and a scope nobody classified counts as record modification, not as a read.\<close>

theorem exposure_by_class:
  "snd (permission_exposure None overrides scopes) \<le> snd (permission_exposure None overrides (scopes @ extra))
   \<and> permission_exposure None None (''post_public_content'' # ''send_email'' # scopes)
       = permission_exposure None None (''send_email'' # scopes)
   \<and> permission_exposure None None [''no such scope''] = ({''record_modification''}, 4)"
proof (intro conjI)
  show "snd (permission_exposure None overrides scopes) \<le> snd (permission_exposure None overrides (scopes @ extra))"
    by (auto simp: permission_exposure_def Let_def weight_table_def class_weight_default intro!: sum_mono2)
qed (simp_all add: permission_exposure_def Let_def permission_class_of_def DEFAULT_SCOPE_PERMISSION_CLASS_def
    FALLBACK_PERMISSION_CLASS_def weight_table_def class_weight_def PERMISSION_WEIGHTS_def)

text \<open>The autonomy category stays on its scale, 0 to 3, with 0 exactly for subjects that hold nothing
  or only idempotent scopes and 2 or 3 exactly for those with a scope that is worse than reversible; an
  onward delegation never lowers it.\<close>

theorem autonomy_scale:
  "autonomy_category d worst b \<in> {0, 1, 2, 3}
   \<and> (autonomy_category d worst b = 0 \<longleftrightarrow> worst \<in> {None, Some IDEMPOTENT})
   \<and> (2 \<le> autonomy_category d worst b \<longleftrightarrow> (\<exists>r. worst = Some r \<and> REVERSIBLE < r))
   \<and> autonomy_category d worst b \<le> autonomy_category d worst True"
proof -
  have "REVERSIBLE < r \<longleftrightarrow> r \<in> {COMPENSABLE, IRREVERSIBLE}" for r
    by (cases r) (simp_all add: less_reversibility_def)
  then show ?thesis by (cases worst; cases "the worst") (auto simp: autonomy_category_def)
qed

lemma authority_loop_counts:
  "authority_loop st cnt rows (n, k) = (n + length (filter cnt rows), k + length (filter (\<lambda>r. cnt r \<and> autonomous_row st r) rows))"
  by (induction rows arbitrary: n k) auto

text \<open>The authority ratio is measured, never guessed. \<open>beta\<close> is absent exactly when no action of the
  subject was observed; otherwise it is the share, between 0 and 1, of the observed \<open>action_started\<close> rows
  of the subject whose token was not minted through the approval gate, an unknown token counting
  against it.\<close>

theorem beta_is_a_measured_share:
  "\<exists>rows auto_rows. rows = filter (counted_row fromiso sid since) (filter (\<lambda>r. ev_action r = ''action_started'') (ms_audit (w_store w)))
    \<and> auto_rows = filter (autonomous_row (w_store w)) rows
    \<and> rs_beta (compute_risk_state e fromiso w sid since shares weights classes)
        = (if rows = [] then None else Some (real (length auto_rows) / real (length rows)))
    \<and> length auto_rows \<le> length rows"
proof -
  define rows where "rows = filter (counted_row fromiso sid since)
      (filter (\<lambda>r. ev_action r = ''action_started'') (ms_audit (w_store w)))"
  have "authority_counts fromiso (w_store w) sid since = (length rows, length (filter (autonomous_row (w_store w)) rows))"
    by (simp add: authority_counts_def authority_loop_counts find_audit_rows_def rows_def conj_commute)
  then have "rs_beta (compute_risk_state e fromiso w sid since shares weights classes)
        = (if rows = [] then None else Some (real (length (filter (autonomous_row (w_store w)) rows)) / real (length rows)))"
    by (auto simp: compute_risk_state_def Let_def split: prod.splits)
  then show ?thesis unfolding rows_def by auto
qed

text \<open>The governance tier counts facts. It is the number of the five listed checks that hold, and in
  every firewall reached from a new one by any calls the audit check passes and, on in-memory
  storage, the durability check does not, so the tier is between 1 and 4.\<close>

theorem governance_tier_counts:
  "case governance_tier e (run_ops e ops (new_firewall cfg)) of (tier, evidence) \<Rightarrow>
     tier = length (filter snd evidence) \<and> length evidence = 5 \<and> 1 \<le> tier \<and> tier \<le> 4
     \<and> dget evidence ''audit_chain_intact'' = Some True \<and> dget evidence ''durable_storage'' = Some False"
proof -
  have "audit_ok e (w_tail (new_firewall cfg), w_store (new_firewall cfg))"
    using audit_ok_empty by (simp add: new_firewall_def)
  from run_ops_invariant [OF safe_audit this, of ops]
  have "ir_intact (verify_integrity e (w_store (run_ops e ops (new_firewall cfg))))"
    by (simp add: audit_ok_def verify_integrity_def iter_audit_rows_def verify_rows_intact)
  then show ?thesis by (simp add: governance_tier_def Let_def durable_def)
qed

lemma grant_profile_one_row:
  assumes "grant_rows (ms_audit st) = [(''root_minted'', Some j)]"
  shows "\<exists>row. ev_jti row = Some j \<and> grant_profile st sid
     = (case grant_loop st sid [row] ([], 0, False) of (sc, d, b) \<Rightarrow> (sorted_set sc, d, b))"
proof -
  let ?f = "\<lambda>r :: audit_row. (ev_action r, ev_jti r)"
  let ?k = "\<lambda>r :: audit_row. ev_action r \<in> {''root_minted'', ''delegated''}"
  have "map ?f (filter ?k (ms_audit st)) = [(''root_minted'', Some j)]"
    using assms by (simp add: grant_rows_def filter_map comp_def)
  then obtain row where row: "filter ?k (ms_audit st) = [row]" "ev_action row = ''root_minted''" "ev_jti row = Some j"
    by auto
  have sub: "filter (\<lambda>r. ev_action r = a) (ms_audit st) = filter (\<lambda>r. ev_action r = a) (filter ?k (ms_audit st))"
    if "a \<in> {''root_minted'', ''delegated''}" for a
    unfolding filter_filter using that by (intro filter_cong) auto
  have find: "find_audit_rows st (Some a) None None = filter (\<lambda>r. ev_action r = a) (ms_audit st)" for a
    by (simp add: find_audit_rows_def)
  have "find_audit_rows st (Some ''root_minted'') None None = [row]" "find_audit_rows st (Some ''delegated'') None None = []"
    by (simp_all add: find sub [unfolded row(1)] row(2) del: filter_filter)
  then show ?thesis using row(2,3) by (intro exI [of _ row]) (simp add: grant_profile_def)
qed

text \<open>The risk profile does not see approved grants. \<open>_grant_profile\<close> reads the \<open>root_minted\<close> and
  \<open>delegated\<close> rows, but a capability minted through the approval gate is recorded as
  \<open>approval_granted\<close>: after a run in which an agent was granted a sensitive scope by approval, the
  agent holds a recorded token with that scope and its profile is empty, at depth 0.\<close>

theorem approved_grants_invisible:
  "\<exists>j m. get_token (w_store (run_ops run_env demo_ops2 (new_firewall default_config))) j = Some m
     \<and> tm_scopes m = [''send_email'']
     \<and> grant_profile (w_store (run_ops run_env demo_ops2 (new_firewall default_config))) (tm_subject_id m) = ([], 0, False)"
proof -
  let ?st = "w_store (run_ops run_env demo_ops2 (new_firewall default_config))"
  obtain j m i where m: "get_token ?st j = Some m" "tm_scopes m = [''send_email'']" "tm_subject_id m = ''agent:'' @ i"
      "get_token ?st ''uuu'' = Some (meta_of run_root None)"
    and g: "grant_rows (ms_audit ?st) = [(''root_minted'', Some ''uuu'')]"
    using demo_child by blast
  obtain row where row: "ev_jti row = Some ''uuu''" "grant_profile ?st (tm_subject_id m)
     = (case grant_loop ?st (tm_subject_id m) [row] ([], 0, False) of (sc, d, b) \<Rightarrow> (sorted_set sc, d, b))"
    using grant_profile_one_row [OF g] by blast
  have "tm_subject_id (meta_of run_root None) = ''human:u''" by (simp add: meta_of_def run_root_claims)
  then have "grant_profile ?st (tm_subject_id m) = ([], 0, False)"
    using row m(3,4) by (simp add: str_or_def sorted_set_def)
  with m show ?thesis by blast
qed

end
