(* ===== verification/Sql_Storage.thy ===== *)
theory Sql_Storage
  imports Memory_Storage
begin

text \<open>
  \<open>agperms/storage/sql.py\<close>: \<open>SqlStorage\<close>, the durable second implementation of the storage protocol.
  A table is the list of its rows in the order they were inserted, with the columns and constraints
  the mapped classes declare; a session is one transaction on the state.

  SQLAlchemy and the database are not part of the repository. What they may choose is the parameter
  \<open>db\<close>: what a \<open>DateTime(timezone=True)\<close> column gives back (SQLite drops the zone, Postgres answers
  in the zone of the session) and the order in which a query without a total \<open>ORDER BY\<close> returns its
  rows. \<open>backend_ok\<close> is what is assumed of them. Two methods read and then write; the argument
  \<open>others\<close> is what other connections commit in between. The ids of the audit rows count up without
  gaps, and the lengths of the \<open>String\<close> columns are not enforced, as in SQLite.
\<close>

section \<open>Exceptions and times\<close>

datatype sql_error = Agp agp_error | IntegrityError | OperationalError
  \<comment> \<open>an exception of the library, and the two of SQLAlchemy that occur\<close>

definition utc_of :: "datetime \<Rightarrow> instant" where
  "utc_of d = (case as_utc (Some d) of Some (Aware t off) \<Rightarrow> t | _ \<Rightarrow> 0)"

section \<open>Rows\<close>

record token_row =
  tk_jti :: string
  tk_subject_id :: string
  tk_parent_jti :: "string option"
  tk_root_jti :: string
  tk_depth :: int
  tk_max_depth :: int
  tk_scopes :: "string list"
  tk_delegation_chain :: "json list"
  tk_issued_at :: datetime
  tk_expires_at :: datetime
  tk_approval_required :: bool
  tk_approved_by :: "string option"

record revocation_row =
  rw_jti :: string
  rw_revoked_at :: datetime
  rw_root_of_revocation :: string
  rw_reason :: "string option"

record subject_row =
  su_subject_id :: string
  su_identifier_hash :: string
  su_kind :: string
  su_display_label :: string
  su_created_at :: datetime

record approval_row =
  ap_approval_id :: string
  ap_parent_jti :: string
  ap_parent_subject_id :: string
  ap_child_agent_id :: string
  ap_child_subject_id :: string
  ap_requested_scopes :: "string list"
  ap_sensitive_scopes :: "string list"
  ap_ttl_seconds :: int
  ap_parent_exp :: int
  ap_status :: string
  ap_created_at :: datetime
  ap_expires_at :: datetime
  ap_decided_at :: "datetime option"
  ap_approved_by :: "string option"
  ap_child_jti :: "string option"
  ap_child_token :: "string option"
  ap_collected :: bool

record action_row =
  ac_action_id :: string
  ac_jti :: string
  ac_subject_id :: string
  ac_name :: string
  ac_scope :: string
  ac_started_at :: datetime
  ac_finished_at :: "datetime option"
  ac_state :: "string option"
  ac_failure_reason :: "string option"
  ac_reversibility :: "string option"

record review_row =
  re_review_id :: string
  re_jti :: string
  re_action_id :: string
  re_action_name :: string
  re_classification :: string
  re_revoked_at :: datetime
  re_revocation_root_jti :: string
  re_reviewed :: bool
  re_reviewed_by :: "string option"
  re_reviewed_at :: "datetime option"

text \<open>The edge table holds pairs (parent, child); the audit table holds the rows themselves.\<close>

record sql_store =
  sq_tokens :: "token_row list"
  sq_edges :: "(string \<times> string) list"
  sq_revocations :: "revocation_row list"
  sq_subjects :: "subject_row list"
  sq_audit :: "audit_row list"
  sq_approvals :: "approval_row list"
  sq_actions :: "action_row list"
  sq_reviews :: "review_row list"
  sq_reachable :: bool
  sq_closed :: bool

type_synonym 'a sql = "(sql_store, sql_error, 'a) prog"

text \<open>\<open>__init__\<close> on a new database.\<close>

definition empty_database :: sql_store where
  "empty_database = \<lparr>sq_tokens = [], sq_edges = [], sq_revocations = [], sq_subjects = [], sq_audit = [],
     sq_approvals = [], sq_actions = [], sq_reviews = [], sq_reachable = True, sq_closed = False\<rparr>"

definition is_transaction_pooler :: "string \<Rightarrow> bool" where
  "is_transaction_pooler url = (let lowered = map lower_char url in sublist ''pooler.supabase.com'' lowered
     \<or> sublist '':6543/'' lowered \<or> sublist ''pgbouncer=true'' lowered)"

text \<open>\<open>with self._session() as session: ...\<close>: refused on a closed storage, and every statement fails when
  the database cannot be reached.\<close>

definition sessionP :: "'a sql \<Rightarrow> 'a sql" where
  "sessionP m s = (if sq_closed s then (Inl (Agp StorageError), s)
     else if \<not> sq_reachable s then (Inl OperationalError, s) else m s)"

text \<open>\<open>session.get(Class, key)\<close>.\<close>

definition row_get :: "('r \<Rightarrow> 'k) \<Rightarrow> 'k \<Rightarrow> 'r list \<Rightarrow> 'r option" where
  "row_get key k rows = List.find (\<lambda>r. key r = k) rows"

text \<open>Assigning columns of the row with a key.\<close>

definition row_set :: "('r \<Rightarrow> 'k) \<Rightarrow> 'k \<Rightarrow> ('r \<Rightarrow> 'r) \<Rightarrow> 'r list \<Rightarrow> 'r list" where
  "row_set key k f rows = map (\<lambda>r. if key r = k then f r else r) rows"

record database =
  db_datetime :: "datetime \<Rightarrow> datetime"
  db_scan_edges :: "(string \<times> string) list \<Rightarrow> (string \<times> string) list"
  db_scan_approvals :: "approval_row list \<Rightarrow> approval_row list"
  db_scan_actions :: "action_row list \<Rightarrow> action_row list"
  db_scan_reviews :: "review_row list \<Rightarrow> review_row list"

text \<open>The aware UTC datetime that the library writes, as the column keeps it.\<close>

definition column_of :: "database \<Rightarrow> instant \<Rightarrow> datetime" where
  "column_of db t = db_datetime db (Aware t 0)"

section \<open>Tokens and edges\<close>

definition token_row_of :: "database \<Rightarrow> token_metadata \<Rightarrow> token_row" where
  "token_row_of db m = \<lparr>tk_jti = tm_jti m, tk_subject_id = tm_subject_id m, tk_parent_jti = tm_parent_jti m,
     tk_root_jti = tm_root_jti m, tk_depth = tm_depth m, tk_max_depth = tm_max_depth m, tk_scopes = tm_scopes m,
     tk_delegation_chain = tm_delegation_chain m, tk_issued_at = column_of db (tm_issued_at m),
     tk_expires_at = column_of db (tm_expires_at m), tk_approval_required = tm_approval_required m,
     tk_approved_by = tm_approved_by m\<rparr>"

definition token_of_row :: "token_row \<Rightarrow> token_metadata" where
  "token_of_row r = \<lparr>tm_jti = tk_jti r, tm_subject_id = tk_subject_id r, tm_parent_jti = tk_parent_jti r,
     tm_root_jti = tk_root_jti r, tm_depth = tk_depth r, tm_max_depth = tk_max_depth r, tm_scopes = tk_scopes r,
     tm_delegation_chain = tk_delegation_chain r, tm_issued_at = utc_of (tk_issued_at r),
     tm_expires_at = utc_of (tk_expires_at r), tm_approval_required = tk_approval_required r,
     tm_approved_by = tk_approved_by r\<rparr>"

definition sql_put_token :: "database \<Rightarrow> token_metadata \<Rightarrow> unit sql" where
  "sql_put_token db m = sessionP (\<lambda>s.
     if row_get tk_jti (tm_jti m) (sq_tokens s) \<noteq> None then (Inl (Agp StorageError), s)
     else (Inr (), s\<lparr>sq_tokens := sq_tokens s @ [token_row_of db m]\<rparr>))"

definition sql_get_token :: "string \<Rightarrow> token_metadata option sql" where
  "sql_get_token jti = sessionP (getsP (\<lambda>s. map_option token_of_row (row_get tk_jti jti (sq_tokens s))))"

definition insert_edge :: "string \<Rightarrow> string \<Rightarrow> sql_store \<Rightarrow> sql_store" where
  "insert_edge p c s = (if (p, c) \<in> set (sq_edges s) then s else s\<lparr>sq_edges := sq_edges s @ [(p, c)]\<rparr>)"

definition sql_add_edge :: "string \<Rightarrow> string \<Rightarrow> unit sql" where
  "sql_add_edge p c = sessionP (updP (insert_edge p c))"

definition edge_query :: "database \<Rightarrow> sql_store \<Rightarrow> string list \<Rightarrow> string list" where
  "edge_query db s parents = map snd (filter (\<lambda>edge. fst edge \<in> set parents) (db_scan_edges db (sq_edges s)))"

definition sql_children_of :: "database \<Rightarrow> string list \<Rightarrow> string list sql" where
  "sql_children_of db parents = (if parents = [] then ret [] else sessionP (getsP (\<lambda>s. edge_query db s parents)))"

definition sql_descendants :: "database \<Rightarrow> string \<Rightarrow> string list sql" where
  "sql_descendants db root_jti = sessionP (\<lambda>s. case bfs (edge_query db s) root_jti of
     None \<Rightarrow> (Inl (Agp Diverges), s) | Some order \<Rightarrow> (Inr order, s))"

section \<open>Revocation\<close>

definition sql_is_revoked :: "string \<Rightarrow> bool sql" where
  "sql_is_revoked jti = catchP (sessionP (getsP (\<lambda>s. row_get rw_jti jti (sq_revocations s) \<noteq> None)))
     (\<lambda>x. case x of Agp y \<Rightarrow> raise (Agp y) | _ \<Rightarrow> raise (Agp StorageError))"

definition revoked_rows :: "sql_store \<Rightarrow> string set" where
  "revoked_rows s = rw_jti ` set (sq_revocations s)"

definition sql_revoked_among :: "string list \<Rightarrow> string set sql" where
  "sql_revoked_among jtis = (if jtis = [] then ret {} else sessionP (getsP (\<lambda>s. revoked_rows s \<inter> set jtis)))"

text \<open>The transaction that inserts one row per fresh token; the primary key refuses a token that is
  there already, or twice in the list, and then the whole transaction.\<close>

definition revocation_row_of :: "database \<Rightarrow> string \<times> string option \<times> instant \<Rightarrow> string \<Rightarrow> revocation_row" where
  "revocation_row_of db x jti = (case x of (root_jti, reason, now) \<Rightarrow> \<lparr>rw_jti = jti,
     rw_revoked_at = column_of db now, rw_root_of_revocation = root_jti, rw_reason = reason\<rparr>)"

definition insert_revocations :: "database \<Rightarrow> string \<times> string option \<times> instant \<Rightarrow> string list \<Rightarrow> unit sql" where
  "insert_revocations db x fresh = sessionP (\<lambda>s.
     if \<not> distinct fresh \<or> set fresh \<inter> revoked_rows s \<noteq> {} then (Inl IntegrityError, s)
     else (Inr (), s\<lparr>sq_revocations := sq_revocations s @ map (revocation_row_of db x) fresh\<rparr>))"

definition sql_revoke_many ::
  "database \<Rightarrow> (sql_store \<Rightarrow> sql_store) \<Rightarrow> string \<times> string option \<times> instant \<Rightarrow> string list \<Rightarrow> string list sql" where
  "sql_revoke_many db others x jtis = bindP (sql_revoked_among jtis) (\<lambda>already.
     let fresh = filter (\<lambda>jti. jti \<notin> already) jtis in
     if fresh = [] then ret []
     else bindP (updP others) (\<lambda>_. bindP (insert_revocations db x fresh) (\<lambda>_. ret fresh)))"

section \<open>Subjects\<close>

definition to_subject :: "subject_row \<Rightarrow> subject" where
  "to_subject r = \<lparr>sj_subject_id = su_subject_id r, sj_identifier_hash = su_identifier_hash r, sj_kind = su_kind r,
     sj_display_label = su_display_label r, sj_created_at = utc_of (su_created_at r)\<rparr>"

definition subject_row_of :: "database \<Rightarrow> subject \<Rightarrow> subject_row" where
  "subject_row_of db s = \<lparr>su_subject_id = sj_subject_id s, su_identifier_hash = sj_identifier_hash s,
     su_kind = sj_kind s, su_display_label = sj_display_label s, su_created_at = column_of db (sj_created_at s)\<rparr>"

definition find_subject :: "string \<Rightarrow> string \<Rightarrow> sql_store \<Rightarrow> subject option" where
  "find_subject h kind s = map_option to_subject
     (List.find (\<lambda>r. su_identifier_hash r = h \<and> su_kind r = kind) (sq_subjects s))"

definition sql_get_or_create_subject ::
  "database \<Rightarrow> (sql_store \<Rightarrow> sql_store) \<Rightarrow> string \<Rightarrow> instant \<Rightarrow> string \<Rightarrow> string \<Rightarrow> string \<Rightarrow> subject sql" where
  "sql_get_or_create_subject db others uuid now h kind label =
     bindP (sessionP (getsP (find_subject h kind))) (\<lambda>found. case found of
       Some subj \<Rightarrow> ret subj
     | None \<Rightarrow>
         let new = \<lparr>sj_subject_id = kind @ '':'' @ uuid, sj_identifier_hash = h, sj_kind = kind,
               sj_display_label = label, sj_created_at = now\<rparr> in
         bindP (updP others) (\<lambda>_. sessionP (\<lambda>s.
           if row_get su_subject_id (sj_subject_id new) (sq_subjects s) \<noteq> None \<or> find_subject h kind s \<noteq> None
           then (case find_subject h kind s of None \<Rightarrow> (Inl IntegrityError, s) | Some subj \<Rightarrow> (Inr subj, s))
           else (Inr new, s\<lparr>sq_subjects := sq_subjects s @ [subject_row_of db new]\<rparr>))))"

definition sql_get_subject :: "string \<Rightarrow> subject option sql" where
  "sql_get_subject sid = sessionP (getsP (\<lambda>s. map_option to_subject (row_get su_subject_id sid (sq_subjects s))))"

text \<open>The answer is a dictionary read by key only.\<close>

definition sql_get_subjects :: "string list \<Rightarrow> (string, subject) dict sql" where
  "sql_get_subjects sids = (if sids = [] then ret [] else sessionP (getsP (\<lambda>s.
     map (\<lambda>r. (su_subject_id r, to_subject r)) (filter (\<lambda>r. su_subject_id r \<in> set sids) (sq_subjects s)))))"

section \<open>Audit rows\<close>

definition sql_audit_tail_hash :: "string option sql" where
  "sql_audit_tail_hash = sessionP (getsP (\<lambda>s.
     if sq_audit s = [] then None else Some (aw_row_hash (last (sq_audit s)))))"

definition sql_append_audit_batch :: "audit_row list \<Rightarrow> unit sql" where
  "sql_append_audit_batch rows = (if rows = [] then ret () else sessionP (\<lambda>s.
     if \<not> distinct (map aw_row_hash (sq_audit s @ rows)) then (Inl IntegrityError, s)
     else (Inr (), s\<lparr>sq_audit := sq_audit s @ number_rows (length (sq_audit s) + 1) rows\<rparr>)))"

definition sql_iter_audit_rows :: "audit_row list sql" where
  "sql_iter_audit_rows = sessionP (getsP sq_audit)"

text \<open>\<open>LIMIT n\<close> of a natural number.\<close>

definition sql_find_audit_rows :: "string option \<Rightarrow> string option \<Rightarrow> nat option \<Rightarrow> audit_row list sql" where
  "sql_find_audit_rows act jti limit = sessionP (getsP (\<lambda>s. let
     matches = filter (\<lambda>row. case jti of None \<Rightarrow> True | Some j \<Rightarrow> ev_jti row = Some j)
       (filter (\<lambda>row. case act of None \<Rightarrow> True | Some a \<Rightarrow> ev_action row = a) (sq_audit s))
   in case limit of Some n \<Rightarrow> take n (rev matches) | None \<Rightarrow> matches))"

definition sql_count_audit_rows :: "nat sql" where
  "sql_count_audit_rows = sessionP (getsP (\<lambda>s. length (map aw_id (sq_audit s))))"

section \<open>Approvals\<close>

definition approval_row_of :: "database \<Rightarrow> pending_approval \<Rightarrow> approval_row" where
  "approval_row_of db a = \<lparr>ap_approval_id = pa_approval_id a, ap_parent_jti = pa_parent_jti a,
     ap_parent_subject_id = pa_parent_subject_id a, ap_child_agent_id = pa_child_agent_id a,
     ap_child_subject_id = pa_child_subject_id a, ap_requested_scopes = pa_requested_scopes a,
     ap_sensitive_scopes = pa_sensitive_scopes a, ap_ttl_seconds = pa_ttl_seconds a, ap_parent_exp = pa_parent_exp a,
     ap_status = pa_status a, ap_created_at = column_of db (pa_created_at a),
     ap_expires_at = column_of db (pa_expires_at a), ap_decided_at = map_option (column_of db) (pa_decided_at a),
     ap_approved_by = pa_approved_by a, ap_child_jti = pa_child_jti a, ap_child_token = pa_child_token a,
     ap_collected = pa_collected a\<rparr>"

definition to_approval :: "approval_row \<Rightarrow> pending_approval" where
  "to_approval r = \<lparr>pa_approval_id = ap_approval_id r, pa_parent_jti = ap_parent_jti r,
     pa_parent_subject_id = ap_parent_subject_id r, pa_child_agent_id = ap_child_agent_id r,
     pa_child_subject_id = ap_child_subject_id r, pa_requested_scopes = ap_requested_scopes r,
     pa_sensitive_scopes = ap_sensitive_scopes r, pa_ttl_seconds = ap_ttl_seconds r, pa_parent_exp = ap_parent_exp r,
     pa_status = ap_status r, pa_created_at = utc_of (ap_created_at r), pa_expires_at = utc_of (ap_expires_at r),
     pa_decided_at = map_option utc_of (ap_decided_at r), pa_approved_by = ap_approved_by r,
     pa_child_jti = ap_child_jti r, pa_child_token = ap_child_token r, pa_collected = ap_collected r\<rparr>"

definition sql_put_approval :: "database \<Rightarrow> pending_approval \<Rightarrow> unit sql" where
  "sql_put_approval db a = sessionP (\<lambda>s.
     if row_get ap_approval_id (pa_approval_id a) (sq_approvals s) \<noteq> None then (Inl IntegrityError, s)
     else (Inr (), s\<lparr>sq_approvals := sq_approvals s @ [approval_row_of db a]\<rparr>))"

definition sql_get_approval :: "string \<Rightarrow> pending_approval option sql" where
  "sql_get_approval aid = sessionP (getsP (\<lambda>s. map_option to_approval (row_get ap_approval_id aid (sq_approvals s))))"

definition sql_update_approval :: "database \<Rightarrow> pending_approval \<Rightarrow> unit sql" where
  "sql_update_approval db a = sessionP (\<lambda>s.
     if row_get ap_approval_id (pa_approval_id a) (sq_approvals s) = None then (Inl (Agp StorageError), s)
     else (Inr (), s\<lparr>sq_approvals := row_set ap_approval_id (pa_approval_id a) (\<lambda>r. r\<lparr>ap_status := pa_status a,
         ap_decided_at := map_option (column_of db) (pa_decided_at a), ap_approved_by := pa_approved_by a,
         ap_child_jti := pa_child_jti a, ap_child_token := pa_child_token a, ap_collected := pa_collected a\<rparr>)
       (sq_approvals s)\<rparr>))"

text \<open>\<open>ORDER BY created_at DESC\<close>; rows with equal times come in the order of the scan.\<close>

definition sql_list_approvals :: "database \<Rightarrow> string option \<Rightarrow> pending_approval list sql" where
  "sql_list_approvals db status = sessionP (getsP (\<lambda>s. map to_approval (sort_desc_by (utc_of \<circ> ap_created_at)
     (filter (\<lambda>r. case status of None \<Rightarrow> True | Some x \<Rightarrow> ap_status r = x) (db_scan_approvals db (sq_approvals s))))))"

section \<open>Actions\<close>

text \<open>\<open>CompletionState(text)\<close> and \<open>Reversibility(text)\<close>; \<open>None\<close> is the \<open>ValueError\<close>.\<close>

definition completion_of :: "string \<Rightarrow> completion_state option" where
  "completion_of v = List.find (\<lambda>c. completion_value c = v) [CLEAN, PARTIAL, UNKNOWN]"

definition reversibility_of_value :: "string \<Rightarrow> reversibility option" where
  "reversibility_of_value v = List.find (\<lambda>r. rev_value r = v) [IDEMPOTENT, REVERSIBLE, COMPENSABLE, IRREVERSIBLE]"

definition action_row_of :: "database \<Rightarrow> action_record \<Rightarrow> action_row" where
  "action_row_of db a = \<lparr>ac_action_id = ar_action_id a, ac_jti = ar_jti a, ac_subject_id = ar_subject_id a,
     ac_name = ar_name a, ac_scope = ar_scope a, ac_started_at = column_of db (ar_started_at a),
     ac_finished_at = map_option (column_of db) (ar_finished_at a), ac_state = map_option completion_value (ar_state a),
     ac_failure_reason = ar_failure_reason a, ac_reversibility = Some (rev_value (ar_reversibility a))\<rparr>"

definition to_action :: "action_row \<Rightarrow> action_record option" where
  "to_action r = Option.bind
     (if str_or (ac_state r) '''' = '''' then Some None else map_option Some (completion_of (str_or (ac_state r) ''''))) (\<lambda>state.
     Option.bind (if str_or (ac_reversibility r) '''' = '''' then Some IRREVERSIBLE
       else reversibility_of_value (str_or (ac_reversibility r) '''')) (\<lambda>rev.
     Some \<lparr>ar_action_id = ac_action_id r, ar_jti = ac_jti r, ar_subject_id = ac_subject_id r, ar_name = ac_name r,
       ar_scope = ac_scope r, ar_started_at = utc_of (ac_started_at r),
       ar_finished_at = map_option utc_of (ac_finished_at r), ar_state = state,
       ar_failure_reason = ac_failure_reason r, ar_reversibility = rev\<rparr>))"

text \<open>Rows read back as objects; a row that does not convert raises.\<close>

definition readP :: "('r \<Rightarrow> 'a option) \<Rightarrow> 'r list \<Rightarrow> 'a list sql" where
  "readP conv rows = (case those (map conv rows) of None \<Rightarrow> raise (Agp ValueError) | Some xs \<Rightarrow> ret xs)"

definition read_oneP :: "('r \<Rightarrow> 'a option) \<Rightarrow> 'r option \<Rightarrow> 'a option sql" where
  "read_oneP conv row = (case row of None \<Rightarrow> ret None
     | Some r \<Rightarrow> (case conv r of None \<Rightarrow> raise (Agp ValueError) | Some x \<Rightarrow> ret (Some x)))"

definition sql_put_action :: "database \<Rightarrow> action_record \<Rightarrow> unit sql" where
  "sql_put_action db a = sessionP (\<lambda>s.
     if row_get ac_action_id (ar_action_id a) (sq_actions s) \<noteq> None then (Inl (Agp StorageError), s)
     else (Inr (), s\<lparr>sq_actions := sq_actions s @ [action_row_of db a]\<rparr>))"

text \<open>The row object of the session keeps the assigned values; the table keeps the columns.\<close>

definition close_row :: "(instant \<Rightarrow> datetime) \<Rightarrow> completion_state \<Rightarrow> instant \<Rightarrow> string option \<Rightarrow> action_row \<Rightarrow> action_row" where
  "close_row col state finished_at failure_reason r = r\<lparr>ac_state := Some (completion_value state),
     ac_finished_at := Some (col finished_at), ac_failure_reason := failure_reason\<rparr>"

definition sql_close_action ::
  "database \<Rightarrow> string \<Rightarrow> completion_state \<Rightarrow> instant \<Rightarrow> string option \<Rightarrow> action_record option sql" where
  "sql_close_action db aid state finished_at failure_reason = sessionP (
     bindP (getsP (\<lambda>s. row_get ac_action_id aid (sq_actions s))) (\<lambda>found.
     case found of None \<Rightarrow> ret None
     | Some row \<Rightarrow>
         bindP (updP (\<lambda>s. s\<lparr>sq_actions := row_set ac_action_id aid
             (close_row (column_of db) state finished_at failure_reason) (sq_actions s)\<rparr>)) (\<lambda>_.
         read_oneP to_action (Some (close_row (\<lambda>t. Aware t 0) state finished_at failure_reason row)))))"

definition sql_get_action :: "string \<Rightarrow> action_record option sql" where
  "sql_get_action aid = sessionP (bindP (getsP (\<lambda>s. row_get ac_action_id aid (sq_actions s))) (read_oneP to_action))"

definition sql_actions_for_review :: "database \<Rightarrow> string list \<Rightarrow> action_record list sql" where
  "sql_actions_for_review db jtis = (if jtis = [] then ret [] else
     bindP (sessionP (getsP (\<lambda>s. sort_key (utc_of \<circ> ac_started_at)
       (filter (\<lambda>r. ac_jti r \<in> set jtis) (db_scan_actions db (sq_actions s)))))) (\<lambda>rows.
     readP to_action (filter (\<lambda>r. ac_finished_at r = None \<or> ac_state r \<noteq> Some (completion_value CLEAN)) rows)))"

section \<open>Reviews\<close>

definition review_row_of :: "database \<Rightarrow> action_review \<Rightarrow> review_row" where
  "review_row_of db r = \<lparr>re_review_id = av_review_id r, re_jti = av_jti r, re_action_id = av_action_id r,
     re_action_name = av_action_name r, re_classification = completion_value (av_classification r),
     re_revoked_at = column_of db (av_revoked_at r), re_revocation_root_jti = av_revocation_root_jti r,
     re_reviewed = av_reviewed r, re_reviewed_by = av_reviewed_by r,
     re_reviewed_at = map_option (column_of db) (av_reviewed_at r)\<rparr>"

text \<open>\<open>ActionReview(...)\<close> also runs its \<open>__post_init__\<close>, which refuses a clean classification.\<close>

definition to_review :: "review_row \<Rightarrow> action_review option" where
  "to_review r = Option.bind (completion_of (re_classification r)) (\<lambda>c.
     case mk_review \<lparr>av_review_id = re_review_id r, av_jti = re_jti r, av_action_id = re_action_id r,
       av_action_name = re_action_name r, av_classification = c, av_revoked_at = utc_of (re_revoked_at r),
       av_revocation_root_jti = re_revocation_root_jti r, av_reviewed = re_reviewed r,
       av_reviewed_by = re_reviewed_by r, av_reviewed_at = map_option utc_of (re_reviewed_at r)\<rparr>
     of Inl _ \<Rightarrow> None | Inr review \<Rightarrow> Some review)"

definition sql_put_review :: "database \<Rightarrow> action_review \<Rightarrow> unit sql" where
  "sql_put_review db r = sessionP (\<lambda>s.
     if row_get re_review_id (av_review_id r) (sq_reviews s) \<noteq> None then (Inl IntegrityError, s)
     else (Inr (), s\<lparr>sq_reviews := sq_reviews s @ [review_row_of db r]\<rparr>))"

definition sql_get_review :: "string \<Rightarrow> action_review option sql" where
  "sql_get_review rid = sessionP (bindP (getsP (\<lambda>s. row_get re_review_id rid (sq_reviews s))) (read_oneP to_review))"

definition sql_update_review :: "database \<Rightarrow> action_review \<Rightarrow> unit sql" where
  "sql_update_review db r = sessionP (\<lambda>s.
     if row_get re_review_id (av_review_id r) (sq_reviews s) = None then (Inl (Agp StorageError), s)
     else (Inr (), s\<lparr>sq_reviews := row_set re_review_id (av_review_id r) (\<lambda>row. row\<lparr>re_reviewed := av_reviewed r,
         re_reviewed_by := av_reviewed_by r, re_reviewed_at := map_option (column_of db) (av_reviewed_at r)\<rparr>)
       (sq_reviews s)\<rparr>))"

definition sql_list_reviews :: "database \<Rightarrow> bool option \<Rightarrow> action_review list sql" where
  "sql_list_reviews db reviewed = sessionP (bindP (getsP (\<lambda>s. sort_desc_by (utc_of \<circ> re_revoked_at)
     (filter (\<lambda>r. case reviewed of None \<Rightarrow> True | Some b \<Rightarrow> re_reviewed r = b) (db_scan_reviews db (sq_reviews s)))))
     (readP to_review))"

definition sql_close :: "sql_store \<Rightarrow> sql_store" where
  "sql_close s = (if \<not> sq_closed s then s\<lparr>sq_closed := True\<rparr> else s)"

section \<open>What is assumed of the database\<close>

definition backend_ok :: "database \<Rightarrow> bool" where
  "backend_ok db \<longleftrightarrow> (\<forall>t. db_datetime db (Aware t 0) = Naive t \<or> (\<exists>off. db_datetime db (Aware t 0) = Aware t off))
     \<and> (\<forall>xs. mset (db_scan_edges db xs) = mset xs) \<and> (\<forall>xs. mset (db_scan_approvals db xs) = mset xs)
     \<and> (\<forall>xs. mset (db_scan_actions db xs) = mset xs) \<and> (\<forall>xs. mset (db_scan_reviews db xs) = mset xs)"

text \<open>SQLite: the zone is dropped, rows come in the order of insertion.\<close>

definition sqlite :: database where
  "sqlite = \<lparr>db_datetime = (\<lambda>d. case d of Naive t \<Rightarrow> Naive t | Aware t off \<Rightarrow> Naive (t + off)), db_scan_edges = (\<lambda>xs. xs),
     db_scan_approvals = (\<lambda>xs. xs), db_scan_actions = (\<lambda>xs. xs), db_scan_reviews = (\<lambda>xs. xs)\<rparr>"

lemma backend_ok_sqlite [simp]: "backend_ok sqlite"
  by (simp add: backend_ok_def sqlite_def)

lemma utc_of_column [simp]: "backend_ok db \<Longrightarrow> utc_of (column_of db t) = t"
  unfolding backend_ok_def column_of_def utc_of_def as_utc_def by (elim conjE allE [of _ t]) auto

lemma map_option_utc_of_column [simp]: "backend_ok db \<Longrightarrow> map_option utc_of (map_option (column_of db) x) = x"
  by (cases x) simp_all

section \<open>Round trips of the rows\<close>

lemma completion_of_value [simp]: "completion_of (completion_value c) = Some c"
  by (cases c) (simp_all add: completion_of_def completion_value_def)

lemma completion_value_nonempty [simp]: "str_or (Some (completion_value c)) '''' = completion_value c" "completion_value c \<noteq> ''''"
  by (cases c; simp add: completion_value_def str_or_def)+

lemma reversibility_of_value_value [simp]: "reversibility_of_value (rev_value r) = Some r"
  by (cases r) (simp_all add: reversibility_of_value_def rev_value_def)

lemma rev_value_nonempty [simp]: "str_or (Some (rev_value r)) '''' = rev_value r" "rev_value r \<noteq> ''''"
  by (cases r; simp add: rev_value_def str_or_def)+

lemma completion_value_eq [simp]: "completion_value c = completion_value d \<longleftrightarrow> c = d"
  by (metis completion_of_value option.inject)

lemma token_row_roundtrip [simp]: "backend_ok db \<Longrightarrow> token_of_row (token_row_of db m) = m"
  by (simp add: token_of_row_def token_row_of_def)

lemma subject_row_roundtrip [simp]: "backend_ok db \<Longrightarrow> to_subject (subject_row_of db s) = s"
  by (simp add: to_subject_def subject_row_of_def)

lemma approval_row_roundtrip [simp]: "backend_ok db \<Longrightarrow> to_approval (approval_row_of db a) = a"
  by (simp add: to_approval_def approval_row_of_def)

lemma action_row_roundtrip [simp]: "backend_ok db \<Longrightarrow> to_action (action_row_of db a) = Some a"
  by (cases "ar_state a") (simp_all add: to_action_def action_row_of_def, simp_all add: str_or_def)

lemma review_row_roundtrip [simp]:
  "backend_ok db \<Longrightarrow> av_classification r \<noteq> CLEAN \<Longrightarrow> to_review (review_row_of db r) = Some r"
  by (simp add: to_review_def review_row_of_def mk_review_def)

section \<open>Properties\<close>

text \<open>C30: the revocation check fails closed. The SQL storage answers "not revoked" only when it is open,
  the database can be reached and holds no revocation of the token; when it cannot tell it raises
  \<open>StorageError\<close>, whatever the database raised.\<close>

theorem sql_fails_closed:
  "(fst (sql_is_revoked j s) = Inr False \<longleftrightarrow> \<not> sq_closed s \<and> sq_reachable s \<and> j \<notin> revoked_rows s)
   \<and> fst (sql_is_revoked j s) \<in> {Inr True, Inr False, Inl (Agp StorageError)} \<and> snd (sql_is_revoked j s) = s"
proof -
  have "row_get rw_jti j (sq_revocations s) = None \<longleftrightarrow> j \<notin> revoked_rows s"
    by (auto simp: row_get_def revoked_rows_def find_None_iff)
  then have "(\<exists>y. row_get rw_jti j (sq_revocations s) = Some y) \<longleftrightarrow> j \<in> revoked_rows s" by auto
  then show ?thesis
    by (simp add: sql_is_revoked_def catchP_def sessionP_def getsP_def raise_def)
qed

text \<open>C31: a bulk revocation is all or nothing, under any commits of other connections between its read
  and its write (which, like everything here, un-revoke nothing). If it returns, every listed token is
  revoked and it reports the ones that were live when it looked; if it raises, the state is what the
  others left, without a single token revoked by this call.\<close>

theorem sql_revoke_all_or_nothing:
  assumes "revoked_rows s \<subseteq> revoked_rows (others s)"
  shows "case sql_revoke_many db others x js s of
      (Inr newly, t) \<Rightarrow> newly = filter (\<lambda>j. j \<notin> revoked_rows s) js \<and> set js \<subseteq> revoked_rows t
        \<and> (newly = [] \<and> t = s \<or> revoked_rows t = revoked_rows (others s) \<union> set js)
    | (Inl err, t) \<Rightarrow> t \<in> {s, others s}"
proof -
  have [simp]: "rw_jti (revocation_row_of db x j) = j" for j by (cases x) (simp add: revocation_row_of_def)
  have fresh: "filter (\<lambda>j. j \<notin> revoked_rows s \<inter> set js) js = filter (\<lambda>j. j \<notin> revoked_rows s) js"
    by (auto intro: filter_cong)
  show ?thesis
  proof (cases "js = [] \<or> sq_closed s \<or> \<not> sq_reachable s")
    case True
    then show ?thesis
      by (auto simp: sql_revoke_many_def bindP_def sql_revoked_among_def sessionP_def ret_def Let_def)
  next
    case False
    then have run: "sql_revoke_many db others x js s = (let f = filter (\<lambda>j. j \<notin> revoked_rows s) js in
        if f = [] then (Inr [], s) else bindP (insert_revocations db x f) (\<lambda>_. ret f) (others s))"
      unfolding sql_revoke_many_def bindP_def [of "sql_revoked_among js"]
      by (simp add: sql_revoked_among_def sessionP_def getsP_def fresh [simplified] Let_def)
        (simp add: bindP_def updP_def ret_def)
    show ?thesis using assms
      unfolding run by (auto simp: Let_def bindP_def insert_revocations_def sessionP_def ret_def revoked_rows_def
          filter_empty_conv image_Un image_image)
  qed
qed

lemmas sql_eval = sql_revoke_many_def bindP_def sql_revoked_among_def sessionP_def getsP_def updP_def ret_def
  insert_revocations_def revoked_rows_def Let_def empty_database_def revocation_row_of_def

theorem sql_revoke_all_or_nothing_witness:
  "\<exists>t. sql_revoke_many sqlite (\<lambda>t. t) (''r'', None, 2) [''r'', ''c''] empty_database = (Inr [''r'', ''c''], t)
     \<and> revoked_rows t = {''r'', ''c''}"
proof -
  obtain n t where run: "sql_revoke_many sqlite (\<lambda>t. t) (''r'', None, 2) [''r'', ''c''] empty_database = (Inr n, t)"
    by (simp add: sql_eval)
  have "revoked_rows empty_database = {}" by (simp add: sql_eval)
  then show ?thesis
    using run sql_revoke_all_or_nothing [where s = empty_database and others = "\<lambda>t. t"
      and db = sqlite and x = "(''r'', None, 2)" and js = "[''r'', ''c'']"] by auto
qed

text \<open>A race: while the subtree of \<open>r\<close> is being revoked another connection revokes \<open>c\<close>. The call raises
  and \<open>r\<close> stays live, where the protocol asks for the subset that was not already revoked.\<close>

lemma sql_revoke_race:
  "\<exists>t. sql_revoke_many sqlite (\<lambda>s. snd (sql_revoke_many sqlite (\<lambda>t. t) (''c'', None, 1) [''c''] s)) (''r'', None, 2)
       [''r'', ''c''] empty_database = (Inl IntegrityError, t) \<and> revoked_rows t = {''c''}"
  by (simp add: sql_eval)

text \<open>A subject is created once. Whatever other connections commit between the look-up and the
  insert, a subject that is returned is the one the database holds for that identifier hash and kind
  afterwards: a lost race ends with the winner's row. A call that raises leaves the table alone.\<close>

theorem sql_subject_race:
  assumes "backend_ok db"
  shows "case sql_get_or_create_subject db others uuid now h kind label s of
      (Inr subj, t) \<Rightarrow> find_subject h kind t = Some subj \<and> sj_identifier_hash subj = h \<and> sj_kind subj = kind
    | (Inl err, t) \<Rightarrow> t \<in> {s, others s}"
proof -
  have found: "sj_identifier_hash x = h \<and> sj_kind x = kind" if "find_subject h kind t = Some x" for x t
    using that by (auto simp: find_subject_def to_subject_def find_Some_iff)
  let ?new = "\<lparr>sj_subject_id = kind @ '':'' @ uuid, sj_identifier_hash = h, sj_kind = kind,
      sj_display_label = label, sj_created_at = now\<rparr>"
  have find_end: "List.find P (xs @ [x]) = (if List.find P xs = None then List.find P [x] else List.find P xs)"
    for P :: "subject_row \<Rightarrow> bool" and xs x
    by (induction xs) auto
  have made: "find_subject h kind (t\<lparr>sq_subjects := sq_subjects t @ [subject_row_of db ?new]\<rparr>) = Some ?new"
    if "find_subject h kind t = None" for t
    using that assms by (auto simp: find_subject_def find_end) (simp_all add: subject_row_of_def to_subject_def)
  show ?thesis
    using found made
    by (auto simp: sql_get_or_create_subject_def bindP_def sessionP_def getsP_def updP_def ret_def Let_def
        split: option.splits)
qed

theorem sql_subject_race_witness:
  "\<exists>subj t. sql_get_or_create_subject sqlite
      (\<lambda>s. snd (sql_get_or_create_subject sqlite (\<lambda>t. t) ''u1'' 1 ''hash'' ''human'' ''alice'' s))
      ''u2'' 2 ''hash'' ''human'' ''Alice'' empty_database = (Inr subj, t)
    \<and> find_subject ''hash'' ''human'' t = Some subj \<and> sj_subject_id subj = ''human:u1''"
proof -
  let ?others = "\<lambda>s. snd (sql_get_or_create_subject sqlite (\<lambda>t. t) ''u1'' 1 ''hash'' ''human'' ''alice'' s)"
  obtain subj t where run: "sql_get_or_create_subject sqlite ?others ''u2'' 2 ''hash'' ''human'' ''Alice'' empty_database
      = (Inr subj, t)" "sj_subject_id subj = ''human:u1''"
    by (simp add: sql_get_or_create_subject_def sql_eval find_subject_def row_get_def subject_row_of_def to_subject_def)
  then show ?thesis
    using sql_subject_race [OF backend_ok_sqlite, where others = ?others and uuid = "''u2''" and now = 2
      and h = "''hash''" and kind = "''human''" and label = "''Alice''" and s = empty_database]
    by auto
qed

end
