(* ===== verification/Sql_Refines.thy ===== *)
theory Sql_Refines
  imports Sql_Storage
begin

text \<open>
  The two storage backends against each other. \<open>sim\<close> relates a database to an in-memory store; every
  writing method keeps it and returns the same answer, and related states answer every query alike
  (up to the order the database may choose). The locale \<open>sql_backend\<close> gives the contract
  \<open>revocation_store\<close> to the SQL storage over any database that behaves as \<open>backend_ok\<close> says.
\<close>

section \<open>The storage contract\<close>

definition revoke_rows :: "database \<Rightarrow> string \<times> string option \<times> instant \<Rightarrow> string list \<Rightarrow> sql_store
    \<Rightarrow> string list \<times> sql_store" where
  "revoke_rows db x js s = (let fresh = filter (\<lambda>j. j \<notin> revoked_rows s) js in
     if distinct fresh then (fresh, s\<lparr>sq_revocations := sq_revocations s @ map (revocation_row_of db x) fresh\<rparr>) else ([], s))"

lemma rw_jti_row [simp]: "rw_jti (revocation_row_of db x j) = j"
  by (cases x) (simp add: revocation_row_of_def)

lemma revoked_rows_append [simp]:
  "revoked_rows (s\<lparr>sq_revocations := sq_revocations s @ map (revocation_row_of db x) js\<rparr>) = revoked_rows s \<union> set js"
  by (simp add: revoked_rows_def image_Un image_image)

locale sql_backend =
  fixes db :: database
  assumes ok: "backend_ok db"
begin

lemma scan_edges [simp]: "set (db_scan_edges db xs) = set xs"
  using ok by (metis backend_ok_def set_mset_mset)

lemma edge_query_edges: "set (edge_query db s js) = set (sq_edges s) `` set js"
  by (force simp: edge_query_def)

end

sublocale sql_backend \<subseteq> sql: revocation_store "edge_query db" "\<lambda>s. set (sq_edges s)" revoked_rows insert_edge
  "revoke_rows db"
proof
  fix p c s show "revoked_rows (insert_edge p c s) = revoked_rows s"
    by (simp add: insert_edge_def revoked_rows_def)
  fix js :: "string list" assume "distinct js"
  then show "revoked_rows (snd (revoke_rows db x js s)) = revoked_rows s \<union> set js" for x
    by (auto simp: revoke_rows_def Let_def)
qed (auto simp: edge_query_edges insert_edge_def revoke_rows_def Let_def)

context sql_backend
begin

lemma sql_child_lookup: "child_lookup (edge_query db s) (set (sq_edges s))"
  by (rule sql.walk.child_lookup_axioms)

lemma sql_walk:
  "\<exists>order. bfs (edge_query db s) j = Some order \<and> distinct order \<and> set order = (set (sq_edges s))\<^sup>* `` {j}"
  using sql.walk.bfs_levels [of s j] by blast

end

interpretation sqlite: sql_backend sqlite
  by standard simp

section \<open>Tables and dictionaries\<close>

definition keyed :: "('v \<Rightarrow> 'k) \<Rightarrow> ('k, 'v) dict \<Rightarrow> bool" where
  "keyed key d \<longleftrightarrow> wf_dict d \<and> (\<forall>kv \<in> set d. key (snd kv) = fst kv)"

definition table_of :: "('v \<Rightarrow> 'r) \<Rightarrow> ('k, 'v) dict \<Rightarrow> 'r list" where
  "table_of row d = map (row \<circ> snd) d"

lemma keyed_Nil [simp]: "keyed key []"
  by (simp add: keyed_def)

lemma table_of_Nil [simp]: "table_of row [] = []"
  by (simp add: table_of_def)

lemma keyed_dget: "keyed key d \<Longrightarrow> dget d k = Some v \<Longrightarrow> key v = k"
  by (force simp: keyed_def dest: map_of_SomeD)

lemma keyed_iff: "keyed key d \<longleftrightarrow> wf_dict d \<and> (\<forall>k v. dget d k = Some v \<longrightarrow> key v = k)"
  by (force simp: keyed_def wf_dict_dget_iff)

lemma keyed_dset: "keyed key d \<Longrightarrow> key v = k \<Longrightarrow> keyed key (dset k v d)"
  by (simp add: keyed_iff)

lemma table_get:
  assumes "keyed key d" and "\<And>v. rk (row v) = key v"
  shows "row_get rk k (table_of row d) = map_option row (dget d k)"
proof -
  have "(\<forall>kv \<in> set d. key (snd kv) = fst kv) \<Longrightarrow> row_get rk k (table_of row d) = map_option row (dget d k)"
    by (induction d) (auto simp: row_get_def table_of_def assms(2))
  then show ?thesis using assms(1) by (simp add: keyed_def)
qed

lemma table_insert:
  "dget d k = None \<Longrightarrow> table_of row (dset k v d) = table_of row d @ [row v]"
  by (simp add: table_of_def dset_fresh)

lemma table_update:
  assumes "keyed key d" and "dget d k = Some old" and "\<And>v. rk (row v) = key v" and "f (row old) = row new"
  shows "row_set rk k f (table_of row d) = table_of row (dset k new d)"
  using assms(1,2)
proof (induction d)
  case (Cons kv d)
  obtain k' v where kv: "kv = (k', v)" by fastforce
  show ?case
  proof (cases "k' = k")
    case True
    then have "k \<notin> keyed_keys" if "keyed_keys = fst ` set d" for keyed_keys
      using Cons.prems(1) kv that by (auto simp: keyed_def wf_dict_def)
    then have "row_set rk k f (table_of row d) = table_of row d"
      using Cons.prems(1) kv by (force simp: row_set_def table_of_def assms(3) keyed_def intro!: map_idI)
    then show ?thesis using True kv Cons.prems assms(3,4)
      by (simp add: row_set_def table_of_def keyed_def)
  next
    case False
    moreover have "key v = k'" "keyed key d" using Cons.prems(1) kv by (auto simp: keyed_def wf_dict_def)
    ultimately show ?thesis using Cons kv assms(3)
      by (simp add: row_set_def table_of_def)
  qed
qed simp

lemma table_values: "keyed key d \<Longrightarrow> v \<in> snd ` set d \<longleftrightarrow> dget d (key v) = Some v"
  by (force simp: keyed_def wf_dict_dget_iff)

section \<open>The simulation\<close>

definition sim_edges :: "(string \<times> string) list \<Rightarrow> (string, string list) dict \<Rightarrow> bool" where
  "sim_edges es d \<longleftrightarrow> distinct es \<and> (\<forall>p. dget_list d p = map snd (filter (\<lambda>x. fst x = p) es))"

definition sim_subjects :: "(string, subject) dict \<Rightarrow> (string \<times> string, string) dict \<Rightarrow> bool" where
  "sim_subjects subs ix \<longleftrightarrow> (\<forall>h k. dget ix (h, k) = map_option sj_subject_id
     (List.find (\<lambda>x. sj_identifier_hash x = h \<and> sj_kind x = k) (map snd subs)))"

definition sim_actions :: "(string, action_record) dict \<Rightarrow> (string, string list) dict \<Rightarrow> bool" where
  "sim_actions acts ix \<longleftrightarrow> (\<forall>j. dget_list ix j = map ar_action_id (filter (\<lambda>a. ar_jti a = j) (map snd acts)))"

definition no_clean :: "(string, action_review) dict \<Rightarrow> bool" where
  "no_clean v \<longleftrightarrow> (\<forall>i r. dget v i = Some r \<longrightarrow> av_classification r \<noteq> CLEAN)"

definition revocation_row_from :: "database \<Rightarrow> revocation \<Rightarrow> revocation_row" where
  "revocation_row_from db r = revocation_row_of db (rv_root r, rv_reason r, rv_revoked_at r) (rv_jti r)"

definition sim :: "database \<Rightarrow> sql_store \<Rightarrow> memory_store \<Rightarrow> bool" where
  "sim db s m \<longleftrightarrow>
     (keyed tm_jti (ms_tokens m) \<and> keyed rv_jti (ms_revoked m) \<and> keyed sj_subject_id (ms_subjects m)
      \<and> keyed pa_approval_id (ms_approvals m) \<and> keyed ar_action_id (ms_actions m) \<and> keyed av_review_id (ms_reviews m))
   \<and> sim_edges (sq_edges s) (ms_edges m) \<and> sim_subjects (ms_subjects m) (ms_subject_by_hash m)
   \<and> sim_actions (ms_actions m) (ms_actions_by_jti m) \<and> no_clean (ms_reviews m)
   \<and> \<not> ms_closed m
   \<and> s = \<lparr>sq_tokens = table_of (token_row_of db) (ms_tokens m), sq_edges = sq_edges s,
      sq_revocations = table_of (revocation_row_from db) (ms_revoked m),
      sq_subjects = table_of (subject_row_of db) (ms_subjects m), sq_audit = ms_audit m,
      sq_approvals = table_of (approval_row_of db) (ms_approvals m),
      sq_actions = table_of (action_row_of db) (ms_actions m), sq_reviews = table_of (review_row_of db) (ms_reviews m),
      sq_reachable = True, sq_closed = False\<rparr>"

lemma sim_empty: "sim db empty_database empty_store"
  by (simp add: sim_def empty_database_def empty_store_def sim_edges_def sim_subjects_def sim_actions_def no_clean_def dget_list_def)

lemma simD:
  assumes "sim db s m"
  shows "keyed tm_jti (ms_tokens m)" "keyed rv_jti (ms_revoked m)" "keyed sj_subject_id (ms_subjects m)"
    "keyed pa_approval_id (ms_approvals m)" "keyed ar_action_id (ms_actions m)" "keyed av_review_id (ms_reviews m)"
    "sim_edges (sq_edges s) (ms_edges m)" "sim_subjects (ms_subjects m) (ms_subject_by_hash m)"
    "sim_actions (ms_actions m) (ms_actions_by_jti m)" "no_clean (ms_reviews m)"
    "\<not> ms_closed m" "sq_tokens s = table_of (token_row_of db) (ms_tokens m)"
    "sq_revocations s = table_of (revocation_row_from db) (ms_revoked m)"
    "sq_subjects s = table_of (subject_row_of db) (ms_subjects m)" "sq_audit s = ms_audit m"
    "sq_approvals s = table_of (approval_row_of db) (ms_approvals m)"
    "sq_actions s = table_of (action_row_of db) (ms_actions m)"
    "sq_reviews s = table_of (review_row_of db) (ms_reviews m)" "sq_reachable s" "\<not> sq_closed s"
  using assms by (simp_all add: sim_def) (cases s, simp)+

lemma row_keys [simp]:
  "tk_jti (token_row_of db t) = tm_jti t" "rw_jti (revocation_row_from db r) = rv_jti r"
  "su_subject_id (subject_row_of db x) = sj_subject_id x" "ap_approval_id (approval_row_of db a) = pa_approval_id a"
  "ac_action_id (action_row_of db b) = ar_action_id b" "re_review_id (review_row_of db v) = av_review_id v"
  by (simp_all add: token_row_of_def revocation_row_from_def subject_row_of_def approval_row_of_def action_row_of_def
      review_row_of_def)

lemma session_open: "sim db s m \<Longrightarrow> sessionP f s = f s"
  using simD(19,20) by (simp add: sessionP_def)

lemma sim_tables:
  assumes "sim db s m"
  shows "row_get tk_jti j (table_of (token_row_of db) (ms_tokens m)) = map_option (token_row_of db) (dget (ms_tokens m) j)"
    "row_get rw_jti j (table_of (revocation_row_from db) (ms_revoked m))
       = map_option (revocation_row_from db) (dget (ms_revoked m) j)"
    "row_get su_subject_id j (table_of (subject_row_of db) (ms_subjects m))
       = map_option (subject_row_of db) (dget (ms_subjects m) j)"
    "row_get ap_approval_id j (table_of (approval_row_of db) (ms_approvals m))
       = map_option (approval_row_of db) (dget (ms_approvals m) j)"
    "row_get ac_action_id j (table_of (action_row_of db) (ms_actions m))
       = map_option (action_row_of db) (dget (ms_actions m) j)"
    "row_get re_review_id j (table_of (review_row_of db) (ms_reviews m))
       = map_option (review_row_of db) (dget (ms_reviews m) j)"
  using simD(1-6) [OF assms] by (simp_all add: table_get)

lemmas sim_rows = session_open sim_tables simD(12-18)

section \<open>The writing methods\<close>

definition agree :: "database \<Rightarrow> (sql_error + 'a) \<times> sql_store \<Rightarrow> (agp_error + 'a) \<times> memory_store \<Rightarrow> bool" where
  "agree db p q \<longleftrightarrow> fst p = map_sum Agp (\<lambda>x. x) (fst q) \<and> sim db (snd p) (snd q)"

lemma simI:
  assumes "sim db s m"
  shows "keyed tm_jti t \<Longrightarrow> sim db (s\<lparr>sq_tokens := table_of (token_row_of db) t\<rparr>) (m\<lparr>ms_tokens := t\<rparr>)"
    "sim_edges es d \<Longrightarrow> sim db (s\<lparr>sq_edges := es\<rparr>) (m\<lparr>ms_edges := d\<rparr>)"
    "keyed rv_jti r \<Longrightarrow> sim db (s\<lparr>sq_revocations := table_of (revocation_row_from db) r\<rparr>) (m\<lparr>ms_revoked := r\<rparr>)"
    "keyed sj_subject_id x \<Longrightarrow> sim_subjects x ix \<Longrightarrow> sim db (s\<lparr>sq_subjects := table_of (subject_row_of db) x\<rparr>)
       (m\<lparr>ms_subjects := x, ms_subject_by_hash := ix\<rparr>)"
    "sim db (s\<lparr>sq_audit := rows\<rparr>) (m\<lparr>ms_audit := rows\<rparr>)"
    "keyed pa_approval_id a \<Longrightarrow> sim db (s\<lparr>sq_approvals := table_of (approval_row_of db) a\<rparr>) (m\<lparr>ms_approvals := a\<rparr>)"
    "keyed ar_action_id b \<Longrightarrow> sim_actions b ib \<Longrightarrow> sim db (s\<lparr>sq_actions := table_of (action_row_of db) b\<rparr>)
       (m\<lparr>ms_actions := b, ms_actions_by_jti := ib\<rparr>)"
    "keyed av_review_id v \<Longrightarrow> no_clean v
       \<Longrightarrow> sim db (s\<lparr>sq_reviews := table_of (review_row_of db) v\<rparr>) (m\<lparr>ms_reviews := v\<rparr>)"
  using assms by (simp_all add: sim_def) (cases s, simp)+

lemma agree_put_token: "sim db s m \<Longrightarrow> agree db (sql_put_token db t s) (put_token t m)"
  by (auto simp: agree_def sql_put_token_def put_token_def sim_rows table_insert [symmetric]
      intro!: simI keyed_dset simD(1))

lemma sim_edges_insert:
  assumes "sim_edges es d" and "(p, c) \<notin> set es"
  shows "sim_edges (es @ [(p, c)]) (dset p (dget_list d p @ [c]) d)"
  using assms by (auto simp: sim_edges_def)

lemma sim_edges_set: "sim_edges es d \<Longrightarrow> set es = {(p, c). c \<in> set (dget_list d p)}"
  by (force simp: sim_edges_def)

lemma sim_edges_same:
  "sim_edges es d \<Longrightarrow> sim_edges es (dset p (dget_list d p) d)"
  by (simp add: sim_edges_def)

lemma agree_add_edge:
  assumes "sim db s m"
  shows "agree db (sql_add_edge p c s) (Inr (), add_edge p c m)"
proof (cases "(p, c) \<in> set (sq_edges s)")
  case True
  then have "c \<in> set (dget_list (ms_edges m) p)" using sim_edges_set [OF simD(7) [OF assms]] by auto
  moreover have "sim db (s\<lparr>sq_edges := sq_edges s\<rparr>) (m\<lparr>ms_edges := dset p (dget_list (ms_edges m) p) (ms_edges m)\<rparr>)"
    using assms by (intro simI sim_edges_same simD)
  ultimately show ?thesis using True assms
    by (simp add: agree_def sql_add_edge_def session_open add_edge_def insert_edge_def updP_def)
next
  case False
  then have "c \<notin> set (dget_list (ms_edges m) p)" using sim_edges_set [OF simD(7) [OF assms]] by auto
  then show ?thesis using False assms
    by (auto simp: agree_def sql_add_edge_def session_open add_edge_def insert_edge_def updP_def
        intro!: simI sim_edges_insert simD)
qed

lemma sim_revoked: "sim db s m \<Longrightarrow> revoked_rows s = mem_revoked m"
proof -
  assume sim: "sim db s m"
  have "revoked_rows s = rv_jti ` snd ` set (ms_revoked m)"
    by (simp add: revoked_rows_def simD(13) [OF sim] table_of_def image_image)
  also have "\<dots> = fst ` set (ms_revoked m)"
    using simD(2) [OF sim] unfolding keyed_def image_image by (intro image_cong) auto
  finally show ?thesis by (auto simp: mem_revoked_def map_of_eq_None_iff)
qed

lemma memory_revoke_distinct:
  assumes "distinct js"
  shows "revoke_many (r, reason, now) js m = (filter (\<lambda>j. j \<notin> mem_revoked m) js, m\<lparr>ms_revoked := ms_revoked m @
    map (\<lambda>j. (j, \<lparr>rv_jti = j, rv_revoked_at = now, rv_root = r, rv_reason = reason\<rparr>)) (filter (\<lambda>j. j \<notin> mem_revoked m) js)\<rparr>)"
  using assms
proof (induction js arbitrary: m)
  case (Cons j js)
  show ?case
  proof (cases "j \<in> mem_revoked m")
    case True
    then show ?thesis using Cons by (simp add: mem_revoked_def)
  next
    case False
    then have new: "dget (ms_revoked m) j = None" by (simp add: mem_revoked_def)
    then have "mem_revoked (m\<lparr>ms_revoked := ms_revoked m @ [(j, rv)]\<rparr>) = insert j (mem_revoked m)" for rv
      by (auto simp: mem_revoked_def map_add_def split: option.splits)
    moreover have "filter (\<lambda>x. x \<noteq> j \<and> x \<notin> mem_revoked m) js = filter (\<lambda>x. x \<notin> mem_revoked m) js"
      using Cons.prems by (auto intro: filter_cong)
    ultimately show ?thesis using Cons new False by (simp add: dset_fresh Let_def)
  qed
qed simp

lemma revoke_many_rows:
  assumes "distinct js" and "\<not> sq_closed s" and "sq_reachable s"
  shows "sql_revoke_many db (\<lambda>t. t) x js s = (Inr (fst (revoke_rows db x js s)), snd (revoke_rows db x js s))"
proof -
  have "filter (\<lambda>j. j \<in> revoked_rows s \<longrightarrow> j \<notin> set js) js = filter (\<lambda>j. j \<notin> revoked_rows s) js"
    by (auto intro: filter_cong)
  then show ?thesis using assms
    by (auto simp: sql_revoke_many_def bindP_def sql_revoked_among_def sessionP_def getsP_def updP_def ret_def Let_def
        insert_revocations_def revoke_rows_def)
qed

lemma agree_revoke_many:
  assumes sim: "sim db s m" and js: "distinct js"
  shows "agree db (sql_revoke_many db (\<lambda>t. t) x js s) (case revoke_many x js m of (newly, m') \<Rightarrow> (Inr newly, m'))"
proof -
  obtain r reason now where x: "x = (r, reason, now)" by (cases x)
  let ?new = "map (\<lambda>j. (j, \<lparr>rv_jti = j, rv_revoked_at = now, rv_root = r, rv_reason = reason\<rparr>))
      (filter (\<lambda>j. j \<notin> mem_revoked m) js)"
  have "fst ` set (ms_revoked m) = mem_revoked m" unfolding mem_revoked_def by (simp add: keys_of_iff set_eq_iff)
  then have "fst ` set (ms_revoked m) \<inter> fst ` set ?new = {}" by auto
  moreover have "distinct (map fst ?new)" using js by (simp add: comp_def)
  ultimately have "distinct (map fst (ms_revoked m @ ?new))"
    using simD(2) [OF sim] unfolding keyed_def wf_dict_def map_append distinct_append set_map by blast
  then have "keyed rv_jti (ms_revoked m @ ?new)"
    using simD(2) [OF sim] unfolding keyed_def wf_dict_def by auto
  then have "sim db (s\<lparr>sq_revocations := table_of (revocation_row_from db) (ms_revoked m @ ?new)\<rparr>)
      (m\<lparr>ms_revoked := ms_revoked m @ ?new\<rparr>)" using sim by (intro simI)
  then show ?thesis using js
    by (simp add: revoke_many_rows simD [OF sim] memory_revoke_distinct x agree_def revoke_rows_def sim_revoked [OF sim]
        table_of_def comp_def revocation_row_from_def Let_def)
qed


lemma find_table:
  "(\<And>x. P (row x) \<longleftrightarrow> Q x) \<Longrightarrow> List.find P (table_of row d) = map_option row (List.find Q (map snd d))"
  by (induction d) (auto simp: table_of_def)

lemma find_subject_sim:
  assumes "backend_ok db" and "sim db s m"
  shows "find_subject h kind s = List.find (\<lambda>x. sj_identifier_hash x = h \<and> sj_kind x = kind) (map snd (ms_subjects m))"
proof -
  have "List.find (\<lambda>r. su_identifier_hash r = h \<and> su_kind r = kind) (table_of (subject_row_of db) (ms_subjects m))
      = map_option (subject_row_of db) (List.find (\<lambda>x. sj_identifier_hash x = h \<and> sj_kind x = kind) (map snd (ms_subjects m)))"
    by (rule find_table) (simp add: subject_row_of_def)
  then show ?thesis using assms
    by (simp add: find_subject_def simD(14) option.map_comp comp_def option.map_ident)
qed

lemma find_append: "List.find P (xs @ ys) = (case List.find P xs of None \<Rightarrow> List.find P ys | Some x \<Rightarrow> Some x)"
  by (induction xs) auto

lemma agree_resolve:
  assumes ok: "backend_ok db" and sim: "sim db s m" and new: "dget (ms_subjects m) (kind @ '':'' @ uuid) = None"
  shows "agree db (sql_get_or_create_subject db (\<lambda>t. t) uuid now h kind label s)
    (get_or_create_subject uuid now h kind label m)"
proof (cases "List.find (\<lambda>x. sj_identifier_hash x = h \<and> sj_kind x = kind) (map snd (ms_subjects m))")
  case None
  let ?s = "\<lparr>sj_subject_id = kind @ '':'' @ uuid, sj_identifier_hash = h, sj_kind = kind,
      sj_display_label = label, sj_created_at = now\<rparr>"
  have "dget (ms_subject_by_hash m) (h, kind) = None" using simD(8) [OF sim] None by (simp add: sim_subjects_def)
  moreover have "sim_subjects (dset (kind @ '':'' @ uuid) ?s (ms_subjects m))
      (dset (h, kind) (kind @ '':'' @ uuid) (ms_subject_by_hash m))"
    using simD(8) [OF sim] None new unfolding sim_subjects_def
    by (auto simp: dset_fresh find_append map_add_def split: option.splits)
  ultimately show ?thesis using None sim new
    by (auto simp: agree_def sql_get_or_create_subject_def get_or_create_subject_def find_subject_sim [OF ok sim] bindP_def
        getsP_def updP_def Let_def sim_rows table_insert [symmetric] intro!: simI keyed_dset simD)
next
  case (Some x)
  then have x: "x \<in> snd ` set (ms_subjects m)" by (auto simp: find_Some_iff set_conv_nth)
  have "dget (ms_subjects m) (sj_subject_id x) = Some x" using table_values [OF simD(3) [OF sim]] x by blast
  moreover have "dget (ms_subject_by_hash m) (h, kind) = Some (sj_subject_id x)"
    using simD(8) [OF sim] Some by (simp add: sim_subjects_def)
  ultimately show ?thesis using Some sim
    by (simp add: agree_def sql_get_or_create_subject_def get_or_create_subject_def find_subject_sim [OF ok sim] bindP_def
        getsP_def ret_def sim_rows)
qed

lemma agree_append_audit:
  assumes "sim db s m" and "distinct (map aw_row_hash (ms_audit m @ rows))"
  shows "agree db (sql_append_audit_batch rows s) (Inr (), append_audit_batch rows m)"
proof (cases "rows = []")
  case True
  then show ?thesis using assms(1) by (simp add: agree_def sql_append_audit_batch_def ret_def append_audit_batch_def)
next
  case False
  then show ?thesis using assms
    by (auto simp: agree_def sql_append_audit_batch_def append_audit_batch_def sim_rows intro!: simI)
qed

lemma agree_put_approval:
  "sim db s m \<Longrightarrow> dget (ms_approvals m) (pa_approval_id a) = None
    \<Longrightarrow> agree db (sql_put_approval db a s) (Inr (), put_approval a m)"
  by (auto simp: agree_def sql_put_approval_def put_approval_def sim_rows table_insert [symmetric]
      intro!: simI keyed_dset simD)

definition same_request :: "pending_approval \<Rightarrow> pending_approval \<Rightarrow> bool" where
  "same_request a b \<longleftrightarrow> b = a\<lparr>pa_status := pa_status b, pa_decided_at := pa_decided_at b,
     pa_approved_by := pa_approved_by b, pa_child_jti := pa_child_jti b, pa_child_token := pa_child_token b,
     pa_collected := pa_collected b\<rparr>"

definition same_finding :: "action_review \<Rightarrow> action_review \<Rightarrow> bool" where
  "same_finding a b \<longleftrightarrow> b = a\<lparr>av_reviewed := av_reviewed b, av_reviewed_by := av_reviewed_by b,
     av_reviewed_at := av_reviewed_at b\<rparr>"

lemma approval_row_update:
  assumes "same_request old a"
  shows "(approval_row_of db old)\<lparr>ap_status := pa_status a, ap_decided_at := map_option (column_of db) (pa_decided_at a),
      ap_approved_by := pa_approved_by a, ap_child_jti := pa_child_jti a, ap_child_token := pa_child_token a,
      ap_collected := pa_collected a\<rparr> = approval_row_of db a"
  using assms by (cases a; cases old) (simp add: same_request_def approval_row_of_def)

lemma agree_update_approval:
  assumes sim: "sim db s m"
    and same: "\<And>old. dget (ms_approvals m) (pa_approval_id a) = Some old \<Longrightarrow> same_request old a"
  shows "agree db (sql_update_approval db a s) (update_approval a m)"
proof (cases "dget (ms_approvals m) (pa_approval_id a)")
  case None
  then show ?thesis using sim by (simp add: agree_def sql_update_approval_def update_approval_def sim_rows)
next
  case (Some old)
  have "row_set ap_approval_id (pa_approval_id a) (\<lambda>r. r\<lparr>ap_status := pa_status a,
         ap_decided_at := map_option (column_of db) (pa_decided_at a), ap_approved_by := pa_approved_by a,
         ap_child_jti := pa_child_jti a, ap_child_token := pa_child_token a, ap_collected := pa_collected a\<rparr>)
       (table_of (approval_row_of db) (ms_approvals m))
     = table_of (approval_row_of db) (dset (pa_approval_id a) a (ms_approvals m))"
    using approval_row_update [OF same [OF Some]] by (intro table_update [OF simD(4) [OF sim] Some]) simp_all
  then show ?thesis using sim Some
    by (auto simp: agree_def sql_update_approval_def update_approval_def sim_rows intro!: simI keyed_dset simD)
qed

lemma sim_actions_put:
  assumes "sim_actions acts ix" and "dget acts (ar_action_id a) = None"
  shows "sim_actions (dset (ar_action_id a) a acts) (dset (ar_jti a) (dget_list ix (ar_jti a) @ [ar_action_id a]) ix)"
  using assms by (simp add: sim_actions_def dset_fresh)

lemma agree_put_action:
  assumes "sim db s m"
  shows "agree db (sql_put_action db a s) (put_action a m)"
proof (cases "dget (ms_actions m) (ar_action_id a)")
  case None
  have "sim_actions (dset (ar_action_id a) a (ms_actions m))
      (dset (ar_jti a) (dget_list (ms_actions_by_jti m) (ar_jti a) @ [ar_action_id a]) (ms_actions_by_jti m))"
    using sim_actions_put [OF simD(9) [OF assms] None] .
  then show ?thesis using None assms
    by (auto simp: agree_def sql_put_action_def put_action_def sim_rows table_insert [symmetric]
        intro!: simI keyed_dset simD)
next
  case (Some b)
  then show ?thesis using assms by (simp add: agree_def sql_put_action_def put_action_def sim_rows)
qed

lemma sim_actions_close:
  assumes "sim_actions acts ix" and "keyed ar_action_id acts" and "dget acts i = Some a"
    and "ar_jti b = ar_jti a" and "ar_action_id b = ar_action_id a"
  shows "sim_actions (dset i b acts) ix"
proof -
  have "map ar_action_id (filter (\<lambda>x. ar_jti x = j) (map snd (dset i b acts)))
      = map ar_action_id (filter (\<lambda>x. ar_jti x = j) (map snd acts))" for j
    using assms(3-5) by (induction acts) (auto split: if_splits)
  then show ?thesis using assms(1) by (simp add: sim_actions_def)
qed

lemma close_row_action:
  "backend_ok db \<Longrightarrow> (\<And>t. utc_of (col t) = t) \<Longrightarrow> to_action (close_row col state t f (action_row_of db a))
    = Some (a\<lparr>ar_finished_at := Some t, ar_state := Some state, ar_failure_reason := f\<rparr>)"
  by (simp add: to_action_def close_row_def action_row_of_def)

lemma close_row_row:
  "close_row (column_of db) state t f (action_row_of db a)
    = action_row_of db (a\<lparr>ar_finished_at := Some t, ar_state := Some state, ar_failure_reason := f\<rparr>)"
  by (simp add: close_row_def action_row_of_def)

lemma agree_close_action:
  assumes ok: "backend_ok db" and sim: "sim db s m"
  shows "agree db (sql_close_action db i state t f s) (case close_action i state t f m of (r, m') \<Rightarrow> (Inr r, m'))"
proof (cases "dget (ms_actions m) i")
  case None
  then show ?thesis using sim
    by (simp add: agree_def sql_close_action_def close_action_def sim_rows [OF sim] bindP_def getsP_def ret_def)
next
  case (Some a)
  let ?b = "a\<lparr>ar_finished_at := Some t, ar_state := Some state, ar_failure_reason := f\<rparr>"
  have key: "ar_action_id a = i" using keyed_dget [OF simD(5) [OF sim] Some] .
  have "row_set ac_action_id i (close_row (column_of db) state t f) (table_of (action_row_of db) (ms_actions m))
      = table_of (action_row_of db) (dset i ?b (ms_actions m))"
    by (intro table_update [OF simD(5) [OF sim] Some]) (simp_all add: close_row_row)
  moreover have "sim db (s\<lparr>sq_actions := table_of (action_row_of db) (dset i ?b (ms_actions m))\<rparr>)
      (m\<lparr>ms_actions := dset i ?b (ms_actions m), ms_actions_by_jti := ms_actions_by_jti m\<rparr>)"
    using key by (intro simI sim keyed_dset simD(5) [OF sim] sim_actions_close [OF simD(9) [OF sim] simD(5) [OF sim] Some]) simp_all
  moreover have "to_action (close_row (\<lambda>t. Aware t 0) state t f (action_row_of db a)) = Some ?b"
    using ok by (rule close_row_action) (simp add: utc_of_def as_utc_def)
  ultimately show ?thesis using Some sim
    by (simp add: agree_def sql_close_action_def close_action_def sim_rows [OF sim] bindP_def getsP_def updP_def ret_def
        read_oneP_def Let_def)
qed

lemma sim_reviews_put: "no_clean v \<Longrightarrow> av_classification r \<noteq> CLEAN \<Longrightarrow> no_clean (dset k r v)"
  by (simp add: no_clean_def)

lemma agree_put_review:
  assumes sim: "sim db s m" and "dget (ms_reviews m) (av_review_id r) = None" and "av_classification r \<noteq> CLEAN"
  shows "agree db (sql_put_review db r s) (Inr (), put_review r m)"
  using assms by (auto simp: agree_def sql_put_review_def put_review_def sim_rows [OF sim] table_insert [symmetric]
      intro!: simI keyed_dset simD sim_reviews_put)

lemma review_row_update:
  assumes "same_finding old r"
  shows "(review_row_of db old)\<lparr>re_reviewed := av_reviewed r, re_reviewed_by := av_reviewed_by r,
      re_reviewed_at := map_option (column_of db) (av_reviewed_at r)\<rparr> = review_row_of db r"
  using assms by (cases r; cases old) (simp add: same_finding_def review_row_of_def)

lemma agree_update_review:
  assumes sim: "sim db s m"
    and same: "\<And>old. dget (ms_reviews m) (av_review_id r) = Some old \<Longrightarrow> same_finding old r"
  shows "agree db (sql_update_review db r s) (update_review r m)"
proof (cases "dget (ms_reviews m) (av_review_id r)")
  case None
  then show ?thesis using sim by (simp add: agree_def sql_update_review_def update_review_def sim_rows)
next
  case (Some old)
  have rows: "row_set re_review_id (av_review_id r) (\<lambda>row. row\<lparr>re_reviewed := av_reviewed r,
         re_reviewed_by := av_reviewed_by r, re_reviewed_at := map_option (column_of db) (av_reviewed_at r)\<rparr>)
       (table_of (review_row_of db) (ms_reviews m)) = table_of (review_row_of db) (dset (av_review_id r) r (ms_reviews m))"
    using review_row_update [OF same [OF Some]] by (intro table_update [OF simD(6) [OF sim] Some]) simp_all
  have "av_classification old \<noteq> CLEAN" using simD(10) [OF sim] Some by (simp add: no_clean_def)
  then have "av_classification r \<noteq> CLEAN" using same [OF Some] unfolding same_finding_def
    by (cases r; cases old) simp
  then show ?thesis using sim Some rows
    by (auto simp: agree_def sql_update_review_def update_review_def sim_rows [OF sim]
        intro!: simI keyed_dset simD sim_reviews_put)
qed

section \<open>Sequences of calls\<close>

datatype store_write =
    Put_Token token_metadata
  | Add_Edge string string
  | Revoke_Many "string \<times> string option \<times> instant" "string list"
  | Resolve_Subject string instant string string string
  | Append_Audit "audit_row list"
  | Put_Approval pending_approval
  | Update_Approval pending_approval
  | Put_Action action_record
  | Close_Action string completion_state instant "string option"
  | Put_Review action_review
  | Update_Review action_review

text \<open>What a call answers: nothing, the newly revoked tokens, a subject, an action, or an exception.\<close>

datatype store_answer = Done | Newly "string list" | Resolved subject | Closed "action_record option" | Raised sql_error

definition answer :: "('a \<Rightarrow> store_answer) \<Rightarrow> sql_error + 'a \<Rightarrow> store_answer" where
  "answer f r = (case r of Inl x \<Rightarrow> Raised x | Inr a \<Rightarrow> f a)"

fun sql_write :: "database \<Rightarrow> store_write \<Rightarrow> sql_store \<Rightarrow> store_answer \<times> sql_store" where
  "sql_write db (Put_Token t) s = map_prod (answer (\<lambda>_. Done)) id (sql_put_token db t s)"
| "sql_write db (Add_Edge p c) s = map_prod (answer (\<lambda>_. Done)) id (sql_add_edge p c s)"
| "sql_write db (Revoke_Many x js) s = map_prod (answer Newly) id (sql_revoke_many db (\<lambda>t. t) x js s)"
| "sql_write db (Resolve_Subject u now h k l) s
     = map_prod (answer Resolved) id (sql_get_or_create_subject db (\<lambda>t. t) u now h k l s)"
| "sql_write db (Append_Audit rows) s = map_prod (answer (\<lambda>_. Done)) id (sql_append_audit_batch rows s)"
| "sql_write db (Put_Approval a) s = map_prod (answer (\<lambda>_. Done)) id (sql_put_approval db a s)"
| "sql_write db (Update_Approval a) s = map_prod (answer (\<lambda>_. Done)) id (sql_update_approval db a s)"
| "sql_write db (Put_Action a) s = map_prod (answer (\<lambda>_. Done)) id (sql_put_action db a s)"
| "sql_write db (Close_Action i state t f) s = map_prod (answer Closed) id (sql_close_action db i state t f s)"
| "sql_write db (Put_Review r) s = map_prod (answer (\<lambda>_. Done)) id (sql_put_review db r s)"
| "sql_write db (Update_Review r) s = map_prod (answer (\<lambda>_. Done)) id (sql_update_review db r s)"

definition mem_answer :: "('a \<Rightarrow> store_answer) \<Rightarrow> agp_error + 'a \<Rightarrow> store_answer" where
  "mem_answer f r = answer f (map_sum Agp (\<lambda>x. x) r)"

fun mem_write :: "store_write \<Rightarrow> memory_store \<Rightarrow> store_answer \<times> memory_store" where
  "mem_write (Put_Token t) m = map_prod (mem_answer (\<lambda>_. Done)) id (put_token t m)"
| "mem_write (Add_Edge p c) m = (Done, add_edge p c m)"
| "mem_write (Revoke_Many x js) m = map_prod Newly id (revoke_many x js m)"
| "mem_write (Resolve_Subject u now h k l) m = map_prod (mem_answer Resolved) id (get_or_create_subject u now h k l m)"
| "mem_write (Append_Audit rows) m = (Done, append_audit_batch rows m)"
| "mem_write (Put_Approval a) m = (Done, put_approval a m)"
| "mem_write (Update_Approval a) m = map_prod (mem_answer (\<lambda>_. Done)) id (update_approval a m)"
| "mem_write (Put_Action a) m = map_prod (mem_answer (\<lambda>_. Done)) id (put_action a m)"
| "mem_write (Close_Action i state t f) m = map_prod Closed id (close_action i state t f m)"
| "mem_write (Put_Review r) m = (Done, put_review r m)"
| "mem_write (Update_Review r) m = map_prod (mem_answer (\<lambda>_. Done)) id (update_review r m)"

fun run_writes :: "(store_write \<Rightarrow> 's \<Rightarrow> store_answer \<times> 's) \<Rightarrow> store_write list \<Rightarrow> 's \<Rightarrow> store_answer list \<times> 's" where
  "run_writes step [] s = ([], s)"
| "run_writes step (w # ws) s = (let (a, t) = step w s; (as, u) = run_writes step ws t in (a # as, u))"

text \<open>
  The calls the library makes: ids are fresh, a bulk revocation lists distinct tokens (the walk returns
  each once), audit rows have distinct hashes, reviews are not of clean actions, and an update changes
  only the decision of an approval or review.
\<close>

fun proper :: "memory_store \<Rightarrow> store_write \<Rightarrow> bool" where
  "proper m (Revoke_Many x js) \<longleftrightarrow> distinct js"
| "proper m (Resolve_Subject u now h k l) \<longleftrightarrow> dget (ms_subjects m) (k @ '':'' @ u) = None"
| "proper m (Append_Audit rows) \<longleftrightarrow> distinct (map aw_row_hash (ms_audit m @ rows))"
| "proper m (Put_Approval a) \<longleftrightarrow> dget (ms_approvals m) (pa_approval_id a) = None"
| "proper m (Update_Approval a) \<longleftrightarrow>
     (case dget (ms_approvals m) (pa_approval_id a) of None \<Rightarrow> True | Some old \<Rightarrow> same_request old a)"
| "proper m (Put_Review r) \<longleftrightarrow> dget (ms_reviews m) (av_review_id r) = None \<and> av_classification r \<noteq> CLEAN"
| "proper m (Update_Review r) \<longleftrightarrow>
     (case dget (ms_reviews m) (av_review_id r) of None \<Rightarrow> True | Some old \<Rightarrow> same_finding old r)"
| "proper m _ \<longleftrightarrow> True"

fun proper_run :: "memory_store \<Rightarrow> store_write list \<Rightarrow> bool" where
  "proper_run m [] \<longleftrightarrow> True"
| "proper_run m (w # ws) \<longleftrightarrow> proper m w \<and> proper_run (snd (mem_write w m)) ws"

lemma agree_answer:
  "agree db p q \<Longrightarrow> fst (map_prod (answer f) id p) = fst (map_prod (mem_answer f) id q)
     \<and> sim db (snd (map_prod (answer f) id p)) (snd (map_prod (mem_answer f) id q))"
  by (cases p; cases q) (simp add: agree_def mem_answer_def)

lemma mem_answer_Inr [simp]: "mem_answer f (Inr a) = f a"
  by (simp add: mem_answer_def answer_def)

lemma sim_write:
  assumes "backend_ok db" and sim: "sim db s m" and "proper m w"
  shows "fst (sql_write db w s) = fst (mem_write w m) \<and> sim db (snd (sql_write db w s)) (snd (mem_write w m))"
proof (cases w)
  case (Put_Token t)
  then show ?thesis using agree_answer [OF agree_put_token [OF sim]] by simp
next
  case (Add_Edge p c)
  then show ?thesis using agree_answer [OF agree_add_edge [OF sim], where f = "\<lambda>_. Done"] by simp
next
  case (Revoke_Many x js)
  then show ?thesis using agree_answer [OF agree_revoke_many [OF sim, of js x], where f = Newly] assms(3)
    by (cases "revoke_many x js m") simp
next
  case (Resolve_Subject u now h k l)
  then show ?thesis using agree_answer [OF agree_resolve [OF assms(1) sim]] assms(3) by simp
next
  case (Append_Audit rows)
  then show ?thesis using agree_answer [OF agree_append_audit [OF sim], where f = "\<lambda>_. Done"] assms(3) by simp
next
  case (Put_Approval a)
  then show ?thesis using agree_answer [OF agree_put_approval [OF sim], where f = "\<lambda>_. Done"] assms(3) by simp
next
  case (Update_Approval a)
  then have "agree db (sql_update_approval db a s) (update_approval a m)"
    using assms(3) by (intro agree_update_approval [OF sim]) simp
  from agree_answer [OF this] Update_Approval show ?thesis by simp
next
  case (Put_Action a)
  then show ?thesis using agree_answer [OF agree_put_action [OF sim]] by simp
next
  case (Close_Action i state t f)
  then show ?thesis using agree_answer [OF agree_close_action [OF assms(1) sim, of i state t f], where f = Closed]
    by (cases "close_action i state t f m") simp
next
  case (Put_Review r)
  then show ?thesis using agree_answer [OF agree_put_review [OF sim], where f = "\<lambda>_. Done"] assms(3) by simp
next
  case (Update_Review r)
  then have "agree db (sql_update_review db r s) (update_review r m)"
    using assms(3) by (intro agree_update_review [OF sim]) simp
  from agree_answer [OF this] Update_Review show ?thesis by simp
qed

lemma sim_run:
  assumes "backend_ok db" and "sim db s m" and "proper_run m ws"
  shows "fst (run_writes (sql_write db) ws s) = fst (run_writes mem_write ws m)
    \<and> sim db (snd (run_writes (sql_write db) ws s)) (snd (run_writes mem_write ws m))"
  using assms(2,3)
proof (induction ws arbitrary: s m)
  case (Cons w ws)
  have step: "fst (sql_write db w s) = fst (mem_write w m)" "sim db (snd (sql_write db w s)) (snd (mem_write w m))"
    using sim_write [OF assms(1) Cons.prems(1)] Cons.prems(2) by simp_all
  from Cons.IH [OF step(2)] Cons.prems(2) step(1) show ?case
    by (simp add: Let_def split_beta)
qed simp

section \<open>The queries\<close>

text \<open>Related states answer every query alike; the order among rows with equal sort keys is the database's.\<close>

definition answers :: "'a sql \<Rightarrow> sql_store \<Rightarrow> 'a \<Rightarrow> bool" where
  "answers q s a \<longleftrightarrow> q s = (Inr a, s)"

definition answers_sorted :: "'a list sql \<Rightarrow> sql_store \<Rightarrow> ('a \<Rightarrow> int) \<Rightarrow> 'a list \<Rightarrow> bool" where
  "answers_sorted q s key xs \<longleftrightarrow> (\<exists>ys. answers q s ys \<and> mset ys = mset xs \<and> map key ys = map key xs)"

text \<open>The two walks: the same layers in the same order, each token once; within a layer the order of the SQL
  walk is the database's.\<close>

definition same_walk :: "(string \<times> string) set \<Rightarrow> string \<Rightarrow> string list \<Rightarrow> string list \<Rightarrow> bool" where
  "same_walk R j ys zs \<longleftrightarrow> distinct ys \<and> distinct zs \<and> (\<exists>ls ks. ys = concat ls \<and> zs = concat ks
     \<and> map set ls = map (layer R j) [0..<length ls] \<and> map set ks = map set ls)"

definition queries_agree :: "database \<Rightarrow> sql_store \<Rightarrow> memory_store \<Rightarrow> bool" where
  "queries_agree db s m \<longleftrightarrow>
     (\<forall>j. answers (sql_get_token j) s (get_token m j) \<and> sql_is_revoked j s = (map_sum Agp id (fst (is_revoked j m)), s))
   \<and> (\<forall>js. answers (sql_revoked_among js) s (revoked_among m js)
        \<and> (\<exists>ys. answers (sql_children_of db js) s ys \<and> set ys = set (children_of m js)))
   \<and> (\<forall>j. \<exists>ys zs. answers (sql_descendants db j) s ys \<and> descendants_breadth_first m j = Some zs
        \<and> same_walk (mem_edges m) j ys zs)
   \<and> (\<forall>i. answers (sql_get_subject i) s (get_subject m i))
   \<and> (\<forall>is. \<exists>d. answers (sql_get_subjects is) s d \<and> map_of d = map_of (get_subjects m is))
   \<and> answers sql_audit_tail_hash s (audit_tail_hash m) \<and> answers sql_iter_audit_rows s (iter_audit_rows m)
   \<and> (\<forall>a j n. answers (sql_find_audit_rows a j n) s (find_audit_rows m a j (map_option int n)))
   \<and> answers sql_count_audit_rows s (count_audit_rows m)
   \<and> (\<forall>i. answers (sql_get_approval i) s (get_approval m i) \<and> answers (sql_get_action i) s (get_action m i)
        \<and> answers (sql_get_review i) s (get_review m i))
   \<and> (\<forall>x. answers_sorted (sql_list_approvals db x) s pa_created_at (list_approvals m x))
   \<and> (\<forall>js. distinct js \<longrightarrow> answers_sorted (sql_actions_for_review db js) s ar_started_at (actions_for_review m js))
   \<and> (\<forall>x. answers_sorted (sql_list_reviews db x) s av_revoked_at (list_reviews m x))"

lemma answers_session:
  assumes "sim db s m"
  shows "answers (sessionP (getsP f)) s (f s)"
  using session_open [OF assms] by (simp add: answers_def getsP_def)

lemma agree_points:
  assumes ok: "backend_ok db" and sim: "sim db s m"
  shows "answers (sql_get_token j) s (get_token m j)" "answers (sql_get_subject j) s (get_subject m j)"
    "answers (sql_get_approval j) s (get_approval m j)" "answers (sql_get_action j) s (get_action m j)"
    "answers (sql_get_review j) s (get_review m j)"
    "sql_is_revoked j s = (map_sum Agp id (fst (is_revoked j m)), s)"
proof -
  have review: "to_review (review_row_of db r) = Some r" if "dget (ms_reviews m) j = Some r" for r
    using that ok simD(10) [OF sim] by (simp add: no_clean_def)
  show "answers (sql_get_token j) s (get_token m j)" "answers (sql_get_subject j) s (get_subject m j)"
    "answers (sql_get_approval j) s (get_approval m j)" "answers (sql_get_action j) s (get_action m j)"
    "answers (sql_get_review j) s (get_review m j)"
    using ok review
    by (auto simp: answers_def sql_get_token_def sql_get_subject_def sql_get_approval_def sql_get_action_def
        sql_get_review_def sim_rows [OF sim] getsP_def bindP_def read_oneP_def ret_def get_token_def get_subject_def
        get_approval_def get_action_def get_review_def option.map_comp comp_def option.map_ident split: option.splits)
  show "sql_is_revoked j s = (map_sum Agp id (fst (is_revoked j m)), s)"
    using simD(11) [OF sim]
    by (auto simp: sql_is_revoked_def catchP_def is_revoked_def sim_rows [OF sim] getsP_def)
qed

lemma agree_edges:
  assumes ok: "backend_ok db" and sim: "sim db s m"
  shows "\<exists>ys. answers (sql_children_of db js) s ys \<and> set ys = set (children_of m js)"
    "\<exists>ys zs. answers (sql_descendants db j) s ys \<and> descendants_breadth_first m j = Some zs
       \<and> same_walk (mem_edges m) j ys zs"
proof -
  have edges: "set (sq_edges s) = mem_edges m"
    using sim_edges_set [OF simD(7) [OF sim]] by (simp add: mem_edges_def)
  have backend: "sql_backend db" using ok by (rule sql_backend.intro)
  have "set (edge_query db s js) = set (children_of m js)"
    using sql_backend.edge_query_edges [OF backend] mem_store.children_are_edges edges by metis
  then show "\<exists>ys. answers (sql_children_of db js) s ys \<and> set ys = set (children_of m js)"
    by (cases "js = []") (auto simp: answers_def sql_children_of_def session_open [OF sim] getsP_def ret_def children_of_def)
  obtain ys where ys: "bfs (edge_query db s) j = Some ys" "distinct ys"
    using sql_backend.sql_walk [OF backend] by blast
  obtain zs where zs: "bfs (children_of m) j = Some zs" "distinct zs"
    using mem_store.walk.bfs_levels [of m j] by blast
  have "child_lookup (edge_query db s) (mem_edges m)"
    using sql_backend.sql_child_lookup [OF backend, of s] by (simp add: edges)
  from child_lookup.bfs_layers [OF this ys(1)] obtain n1 where
    n1: "\<And>k. n1 \<le> k \<Longrightarrow> \<exists>ls. ys = concat ls \<and> map set ls = map (layer (mem_edges m) j) [0..<k]" by blast
  from mem_store.walk.bfs_layers [OF zs(1)] obtain n2 where
    n2: "\<And>k. n2 \<le> k \<Longrightarrow> \<exists>ks. zs = concat ks \<and> map set ks = map (layer (mem_edges m) j) [0..<k]" by blast
  obtain ls where ls: "ys = concat ls" "map set ls = map (layer (mem_edges m) j) [0..<max n1 n2]"
    using n1 [of "max n1 n2"] by auto
  obtain ks where ks: "zs = concat ks" "map set ks = map (layer (mem_edges m) j) [0..<max n1 n2]"
    using n2 [of "max n1 n2"] by auto
  have "length ls = max n1 n2" using arg_cong [OF ls(2), of length] by simp
  then have "same_walk (mem_edges m) j ys zs"
    unfolding same_walk_def using ys(2) zs(2) ls ks by (intro conjI exI [of _ ls] exI [of _ ks]) simp_all
  then show "\<exists>ys zs. answers (sql_descendants db j) s ys \<and> descendants_breadth_first m j = Some zs
       \<and> same_walk (mem_edges m) j ys zs"
    using ys zs unfolding descendants_breadth_first_def
    by (auto simp: answers_def sql_descendants_def session_open [OF sim])
qed

lemma agree_audit:
  assumes sim: "sim db s m"
  shows "answers sql_audit_tail_hash s (audit_tail_hash m)" "answers sql_iter_audit_rows s (iter_audit_rows m)"
    "answers (sql_find_audit_rows a j n) s (find_audit_rows m a j (map_option int n))"
    "answers sql_count_audit_rows s (count_audit_rows m)"
proof -
  have "filter (\<lambda>row. case j of None \<Rightarrow> True | Some j \<Rightarrow> ev_jti row = Some j)
        (filter (\<lambda>row. case a of None \<Rightarrow> True | Some a \<Rightarrow> ev_action row = a) (ms_audit m))
      = filter (\<lambda>row. (a = None \<or> Some (ev_action row) = a) \<and> (j = None \<or> ev_jti row = j)) (ms_audit m)"
    unfolding filter_filter by (rule filter_cong) (auto split: option.splits)
  then show "answers (sql_find_audit_rows a j n) s (find_audit_rows m a j (map_option int n))"
    by (cases n) (simp_all add: answers_def sql_find_audit_rows_def find_audit_rows_def sim_rows [OF sim] getsP_def
        slice_to_def Let_def del: filter_filter)
qed (simp_all add: answers_def sql_audit_tail_hash_def audit_tail_hash_def sql_iter_audit_rows_def iter_audit_rows_def
    sql_count_audit_rows_def count_audit_rows_def sim_rows [OF sim] getsP_def)

lemma agree_sets:
  assumes ok: "backend_ok db" and sim: "sim db s m"
  shows "answers (sql_revoked_among js) s (revoked_among m js)"
    "\<exists>d. answers (sql_get_subjects is) s d \<and> map_of d = map_of (get_subjects m is)"
proof -
  have "revoked_among m js = revoked_rows s \<inter> set js"
    by (auto simp: revoked_among_def sim_revoked [OF sim] mem_revoked_def)
  then show "answers (sql_revoked_among js) s (revoked_among m js)"
    by (auto simp: answers_def sql_revoked_among_def sim_rows [OF sim] getsP_def ret_def revoked_among_def)
  let ?d = "map (\<lambda>r. (su_subject_id r, to_subject r)) (filter (\<lambda>r. su_subject_id r \<in> set is) (sq_subjects s))"
  have *: "map_of (map (\<lambda>r. (su_subject_id r, to_subject r))
        (filter (\<lambda>r. su_subject_id r \<in> A) (table_of (subject_row_of db) d))) i = (if i \<in> A then dget d i else None)"
    if "\<forall>kv \<in> set d. sj_subject_id (snd kv) = fst kv" for d A i
    using that ok by (induction d) (auto simp: table_of_def)
  have "map_of ?d i = (if i \<in> set is then dget (ms_subjects m) i else None)" for i
    unfolding simD(14) [OF sim] using simD(3) [OF sim] by (intro *) (simp add: keyed_def)
  moreover have "map_of (List.map_filter (\<lambda>x. map_option (Pair x) (f x)) xs) i = (if i \<in> set xs then f i else None)"
    for f :: "string \<Rightarrow> subject option" and xs i
    by (induction xs) (auto simp: List.map_filter_simps split: option.splits)
  then have "map_of (get_subjects m is) i = (if i \<in> set is then dget (ms_subjects m) i else None)" for i
    by (simp add: get_subjects_def)
  ultimately have "map_of ?d = map_of (get_subjects m is)" by (intro ext) simp
  then show "\<exists>d. answers (sql_get_subjects is) s d \<and> map_of d = map_of (get_subjects m is)"
    by (cases "is = []") (auto simp: answers_def sql_get_subjects_def sim_rows [OF sim] getsP_def ret_def)
qed

text \<open>Two arrangements of the same rows, sorted by the same key, agree in their keys.\<close>

lemma sorted_keys:
  fixes key :: "'a \<Rightarrow> int"
  assumes "mset ys = mset xs" and "sorted (map key ys)" and "sorted (map key xs)"
  shows "map key ys = map key xs"
  using assms by (metis mset_map properties_for_sort)

lemma sorted_desc_keys:
  fixes key :: "'a \<Rightarrow> int"
  assumes "mset ys = mset xs"
  shows "mset (sort_desc_by key ys) = mset (sort_desc_by key xs)
    \<and> map key (sort_desc_by key ys) = map key (sort_desc_by key xs)"
proof -
  have "rev (map key (sort_desc_by key ys)) = rev (map key (sort_desc_by key xs))"
    using assms sort_desc_by_sorted by (metis mset_map mset_rev mset_sort_desc_by properties_for_sort)
  then show ?thesis using assms by simp
qed

lemma mset_scan:
  assumes "backend_ok db" and "table_of (row :: 'v \<Rightarrow> 'r) (d :: ('k, 'v) dict) = rows" and "mset scanned = mset rows"
    and "\<And>v. v \<in> snd ` set d \<Longrightarrow> back (row v) = v"
  shows "mset (map back scanned) = mset (map snd d)"
proof -
  have "mset (map back scanned) = mset (map back rows)" using assms(3) by (metis mset_map)
  also have "map back rows = map snd d"
    unfolding assms(2) [symmetric] table_of_def map_map by (intro map_cong refl) (simp add: assms(4))
  finally show ?thesis .
qed

lemma sort_desc_by_map: "sort_desc_by f (map g xs) = map g (sort_desc_by (f \<circ> g) xs)"
proof -
  have insort: "insort_key f (g x) (map g ys) = map g (insort_key (\<lambda>a. f (g a)) x ys)" for x ys
    by (induction ys) auto
  have "sort_key f (map g ys) = map g (sort_key (f \<circ> g) ys)" for ys
    by (induction ys) (simp_all add: insort comp_def)
  then show ?thesis by (simp add: sort_desc_by_def rev_map)
qed

lemma sort_key_map: "sort_key f (map g xs) = map g (sort_key (f \<circ> g) xs)"
proof -
  have insort: "insort_key f (g x) (map g ys) = map g (insort_key (\<lambda>a. f (g a)) x ys)" for x ys
    by (induction ys) auto
  show ?thesis by (induction xs) (simp_all add: insort comp_def)
qed

lemma sort_key_cong_on: "(\<And>x. x \<in> set xs \<Longrightarrow> f x = g x) \<Longrightarrow> sort_key f xs = sort_key g xs"
proof (induction xs)
  case (Cons x xs)
  have "insort_key f x ys = insort_key g x ys" if "set ys \<subseteq> set xs" for ys
    using that Cons.prems by (induction ys) auto
  then show ?case using Cons by simp
qed simp

lemma sort_desc_cong: "(\<And>x. x \<in> set xs \<Longrightarrow> f x = g x) \<Longrightarrow> sort_desc_by f xs = sort_desc_by g xs"
  unfolding sort_desc_by_def by (intro arg_cong [where f = rev] sort_key_cong_on) simp

lemma those_Some: "(\<And>x. x \<in> set xs \<Longrightarrow> f x = Some (g x)) \<Longrightarrow> those (map f xs) = Some (map g xs)"
  by (induction xs) auto

lemma scan_sets:
  assumes "backend_ok db"
  shows "mset (db_scan_approvals db a) = mset a" "mset (db_scan_actions db b) = mset b" "mset (db_scan_reviews db r) = mset r"
    "set (db_scan_actions db b) = set b" "set (db_scan_reviews db r) = set r"
  using assms by (auto simp: backend_ok_def) (metis set_mset_mset)+

lemma answers_sortedI:
  "answers q s ys \<Longrightarrow> mset ys = mset xs \<Longrightarrow> map key ys = map key xs \<Longrightarrow> answers_sorted q s key xs"
  by (auto simp: answers_sorted_def)

lemma agree_list_approvals:
  assumes ok: "backend_ok db" and sim: "sim db s m"
  shows "answers_sorted (sql_list_approvals db x) s pa_created_at (list_approvals m x)"
proof -
  let ?P = "\<lambda>a. case x of None \<Rightarrow> True | Some y \<Rightarrow> pa_status a = y"
  let ?rows = "db_scan_approvals db (sq_approvals s)"
  have "mset (map to_approval ?rows) = mset (map snd (ms_approvals m))"
    using ok by (intro mset_scan [OF ok simD(16) [OF sim, symmetric]]) (simp_all add: scan_sets)
  then have "mset (filter ?P (map to_approval ?rows)) = mset (filter ?P (map snd (ms_approvals m)))"
    by (metis mset_filter)
  from sorted_desc_keys [OF this, of pa_created_at]
  have "mset (sort_desc_by pa_created_at (filter ?P (map to_approval ?rows))) = mset (list_approvals m x)"
    "map pa_created_at (sort_desc_by pa_created_at (filter ?P (map to_approval ?rows))) = map pa_created_at (list_approvals m x)"
    by (cases x; simp add: list_approvals_def Let_def)+
  moreover have "filter ?P (map to_approval ?rows)
      = map to_approval (filter (\<lambda>r. case x of None \<Rightarrow> True | Some y \<Rightarrow> ap_status r = y) ?rows)"
    by (simp add: filter_map comp_def to_approval_def cong: option.case_cong)
  then have "map to_approval (sort_desc_by (utc_of \<circ> ap_created_at) (filter (\<lambda>r. case x of None \<Rightarrow> True | Some y \<Rightarrow> ap_status r = y) ?rows))
      = sort_desc_by pa_created_at (filter ?P (map to_approval ?rows))"
    by (simp add: sort_desc_by_map comp_def to_approval_def)
  ultimately show ?thesis unfolding sql_list_approvals_def
    by (intro answers_sortedI [OF answers_session [OF sim]]) simp_all
qed

text \<open>Rows read back with a conversion that is total on the table.\<close>

lemma convert_scan:
  assumes "mset scanned = mset (table_of row d)" and "\<And>v. v \<in> snd ` set d \<Longrightarrow> conv (row v) = Some v"
  shows "mset (map (the \<circ> conv) scanned) = mset (map snd d)"
    and "\<And>r. r \<in> set scanned \<Longrightarrow> conv r = Some (the (conv r)) \<and> row (the (conv r)) = r"
proof -
  have "set scanned = set (table_of row d)" using assms(1) by (metis set_mset_mset)
  then have "set scanned = row ` snd ` set d" by (simp add: table_of_def image_comp)
  then have image: "r \<in> row ` snd ` set d" if "r \<in> set scanned" for r using that by simp
  show "conv r = Some (the (conv r)) \<and> row (the (conv r)) = r" if "r \<in> set scanned" for r
    using image [OF that] by (rule imageE) (simp add: assms(2))
  have "mset (map (the \<circ> conv) scanned) = mset (map (the \<circ> conv) (table_of row d))" using assms(1) by (metis mset_map)
  also have "map (the \<circ> conv) (table_of row d) = map snd d"
    unfolding table_of_def map_map by (intro map_cong refl) (simp add: assms(2))
  finally show "mset (map (the \<circ> conv) scanned) = mset (map snd d)" .
qed

lemma readP_Some: "(\<And>r. r \<in> set rows \<Longrightarrow> conv r = Some (the (conv r))) \<Longrightarrow> readP conv rows s = (Inr (map (the \<circ> conv) rows), s)"
  using those_Some [of rows conv "the \<circ> conv"] by (simp add: readP_def ret_def)

lemma agree_list_reviews:
  assumes ok: "backend_ok db" and sim: "sim db s m"
  shows "answers_sorted (sql_list_reviews db x) s av_revoked_at (list_reviews m x)"
proof -
  let ?P = "\<lambda>r. case x of None \<Rightarrow> True | Some b \<Rightarrow> av_reviewed r = b"
  let ?Q = "\<lambda>r. case x of None \<Rightarrow> True | Some b \<Rightarrow> re_reviewed r = b"
  let ?rows = "db_scan_reviews db (sq_reviews s)" and ?conv = "the \<circ> to_review"
  have conv: "to_review (review_row_of db v) = Some v" if "v \<in> snd ` set (ms_reviews m)" for v
    using that ok simD(6,10) [OF sim] by (force simp: no_clean_def keyed_def wf_dict_dget_iff)
  have "mset ?rows = mset (table_of (review_row_of db) (ms_reviews m))"
    using ok by (simp add: scan_sets simD(18) [OF sim])
  note S = convert_scan [of ?rows "review_row_of db" "ms_reviews m" to_review, OF this conv]
  have scan: "mset (map ?conv ?rows) = mset (map snd (ms_reviews m))" by (rule S(1))
  have inv: "to_review r = Some (the (to_review r)) \<and> review_row_of db (the (to_review r)) = r" if "r \<in> set ?rows" for r
    using S(2) that by blast
  have row: "re_reviewed r = av_reviewed (the (to_review r))" "utc_of (re_revoked_at r) = av_revoked_at (the (to_review r))"
    if "r \<in> set ?rows" for r
    using arg_cong [OF conjunct2 [OF inv [OF that]], of re_reviewed]
      arg_cong [OF conjunct2 [OF inv [OF that]], of "\<lambda>r. utc_of (re_revoked_at r)"] ok
    by (simp_all add: review_row_of_def)
  have filter: "filter ?P (map ?conv ?rows) = map ?conv (filter ?Q ?rows)"
    unfolding filter_map by (intro arg_cong [where f = "map _"] filter_cong) (auto simp: row split: option.splits)
  have sort: "sort_desc_by av_revoked_at (map ?conv (filter ?Q ?rows))
      = map ?conv (sort_desc_by (utc_of \<circ> re_revoked_at) (filter ?Q ?rows))"
    unfolding sort_desc_by_map by (intro arg_cong [where f = "map ?conv"] sort_desc_cong) (simp add: row)
  have "mset (filter ?P (map ?conv ?rows)) = mset (filter ?P (map snd (ms_reviews m)))"
    using scan by (metis mset_filter)
  from sorted_desc_keys [OF this, of av_revoked_at]
  have keys: "mset (sort_desc_by av_revoked_at (filter ?P (map ?conv ?rows))) = mset (list_reviews m x)"
    "map av_revoked_at (sort_desc_by av_revoked_at (filter ?P (map ?conv ?rows))) = map av_revoked_at (list_reviews m x)"
    by (cases x; simp add: list_reviews_def Let_def)+
  have "answers (sql_list_reviews db x) s (sort_desc_by av_revoked_at (filter ?P (map ?conv ?rows)))"
    unfolding filter sort answers_def sql_list_reviews_def session_open [OF sim] bindP_def getsP_def
    using readP_Some [of "sort_desc_by (utc_of \<circ> re_revoked_at) (filter ?Q ?rows)" to_review s] inv by simp
  then show ?thesis using keys by (rule answers_sortedI)
qed

lemma memory_actions:
  assumes sim: "sim db s m" and "distinct js"
  shows "mset (List.map_filter (dget (ms_actions m)) (concat (map (dget_list (ms_actions_by_jti m)) js)))
    = mset (filter (\<lambda>a. ar_jti a \<in> set js) (map snd (ms_actions m)))"
proof -
  have lookup: "List.map_filter (dget (ms_actions m)) (map ar_action_id xs) = xs"
    if "set xs \<subseteq> snd ` set (ms_actions m)" for xs
    using that table_values [OF simD(5) [OF sim]] by (induction xs) (auto simp: List.map_filter_simps)
  have "List.map_filter f (xs @ ys) = List.map_filter f xs @ List.map_filter f ys" for f :: "string \<Rightarrow> action_record option" and xs ys
    by (simp add: List.map_filter_def)
  moreover have "filter_mset (\<lambda>a. ar_jti a = j \<or> ar_jti a \<in> A) M
      = filter_mset (\<lambda>a. ar_jti a = j) M + filter_mset (\<lambda>a. ar_jti a \<in> A) M" if "j \<notin> A" for j A and M :: "action_record multiset"
    using that by (induction M) auto
  moreover have "dget_list (ms_actions_by_jti m) j = map ar_action_id (filter (\<lambda>a. ar_jti a = j) (map snd (ms_actions m)))" for j
    using simD(9) [OF sim] by (simp add: sim_actions_def)
  moreover have "List.map_filter (dget (ms_actions m)) (map ar_action_id (filter P (map snd (ms_actions m))))
      = filter P (map snd (ms_actions m))" for P
    by (rule lookup) auto
  ultimately show ?thesis using assms(2) by (induction js) (simp_all add: List.map_filter_simps)
qed

lemma agree_actions_for_review:
  assumes ok: "backend_ok db" and sim: "sim db s m" and js: "distinct js"
  shows "answers_sorted (sql_actions_for_review db js) s ar_started_at (actions_for_review m js)"
proof (cases "js = []")
  case True
  then show ?thesis
    by (intro answers_sortedI [of _ _ "[]"])
      (simp_all add: answers_def sql_actions_for_review_def actions_for_review_def ret_def List.map_filter_simps)
next
  case False
  let ?Q = "\<lambda>r. ac_finished_at r = None \<or> ac_state r \<noteq> Some (completion_value CLEAN)"
  let ?rows = "db_scan_actions db (sq_actions s)" and ?conv = "the \<circ> to_action"
  let ?picked = "filter ?Q (sort_key (utc_of \<circ> ac_started_at) (filter (\<lambda>r. ac_jti r \<in> set js) ?rows))"
  have conv: "to_action (action_row_of db v) = Some v" for v using ok by simp
  have "mset ?rows = mset (table_of (action_row_of db) (ms_actions m))"
    using ok by (simp add: scan_sets simD(17) [OF sim])
  note S = convert_scan [of ?rows "action_row_of db" "ms_actions m" to_action, OF this conv]
  have inv: "to_action r = Some (the (to_action r)) \<and> action_row_of db (the (to_action r)) = r" if "r \<in> set ?rows" for r
    using S(2) that by blast
  have row: "ac_jti r = ar_jti (the (to_action r))" "utc_of (ac_started_at r) = ar_started_at (the (to_action r))"
    "?Q r \<longleftrightarrow> questionable (the (to_action r))" if "r \<in> set ?rows" for r
    using arg_cong [OF conjunct2 [OF inv [OF that]], of ac_jti] arg_cong [OF conjunct2 [OF inv [OF that]], of ?Q]
      arg_cong [OF conjunct2 [OF inv [OF that]], of "\<lambda>r. utc_of (ac_started_at r)"] ok
    by (auto simp: action_row_of_def questionable_def is_open_action_def)
  have "map ?conv ?picked = map ?conv (sort_key (ar_started_at \<circ> ?conv) (filter ?Q (filter (\<lambda>r. ac_jti r \<in> set js) ?rows)))"
    unfolding filter_sort by (intro arg_cong [where f = "map ?conv"] sort_key_cong_on) (simp add: row)
  also have "\<dots> = sort_key ar_started_at (map ?conv (filter ?Q (filter (\<lambda>r. ac_jti r \<in> set js) ?rows)))"
    by (simp add: sort_key_map)
  also have "map ?conv (filter ?Q (filter (\<lambda>r. ac_jti r \<in> set js) ?rows))
      = filter questionable (filter (\<lambda>a. ar_jti a \<in> set js) (map ?conv ?rows))"
    unfolding filter_map filter_filter by (intro arg_cong [where f = "map ?conv"] filter_cong) (auto simp: row)
  finally have eq: "map ?conv ?picked
      = sort_key ar_started_at (filter questionable (filter (\<lambda>a. ar_jti a \<in> set js) (map ?conv ?rows)))" .
  have "mset (filter questionable (filter (\<lambda>a. ar_jti a \<in> set js) (map ?conv ?rows)))
      = mset (filter questionable (List.map_filter (dget (ms_actions m)) (concat (map (dget_list (ms_actions_by_jti m)) js))))"
    using memory_actions [OF sim js] S(1) by (metis mset_filter)
  then have bag: "mset (map ?conv ?picked) = mset (actions_for_review m js)"
    unfolding eq actions_for_review_def by simp
  have "map ar_started_at (map ?conv ?picked) = map ar_started_at (actions_for_review m js)"
    by (rule sorted_keys [OF bag]) (simp_all only: eq actions_for_review_def sorted_sort_key)
  moreover have "answers (sql_actions_for_review db js) s (map ?conv ?picked)"
    using False readP_Some [of ?picked to_action s] inv
    by (simp add: answers_def sql_actions_for_review_def session_open [OF sim] bindP_def getsP_def)
  ultimately show ?thesis using bag by (intro answers_sortedI)
qed

lemma sim_queries: "backend_ok db \<Longrightarrow> sim db s m \<Longrightarrow> queries_agree db s m"
  unfolding queries_agree_def
  by (intro conjI allI impI agree_points agree_sets agree_edges agree_audit agree_list_approvals
      agree_actions_for_review agree_list_reviews)

section \<open>Properties\<close>

text \<open>C29: the SQL storage refines the in-memory storage. On any database that keeps instants and rows,
  whatever order it returns them in, the writes the library makes get the same answers from both, call
  by call, and afterwards every query of the protocol gets the same answer from both, up to order as
  follows: equal sets for \<open>children_of\<close> and the dictionary of subjects; for the walk over descendants the
  same layers in the same order, each token once, but within a layer the order is the database's and can
  differ from the in-memory one; equal records with equal sort keys position by position where the
  protocol asks for a sorted list. The run is \<open>proper_run\<close>: a bulk revocation lists no token twice (nor does
  the list given to \<open>actions_for_review\<close>), new subjects, approvals and reviews have fresh ids, audit rows
  distinct hashes, an update keeps the fields an update does not write, and a review is never of a
  clean action. \<open>close\<close> is not among the writes: closed, the database refuses every call, the in-memory
  storage only the revocation check.\<close>

theorem sql_refines_memory:
  assumes "backend_ok db" and "proper_run empty_store ws"
  shows "fst (run_writes (sql_write db) ws empty_database) = fst (run_writes mem_write ws empty_store)
    \<and> queries_agree db (snd (run_writes (sql_write db) ws empty_database)) (snd (run_writes mem_write ws empty_store))"
  using sim_run [OF assms(1) sim_empty assms(2)] sim_queries [OF assms(1)] by blast

definition example_token :: "string \<Rightarrow> string option \<Rightarrow> token_metadata" where
  "example_token j p = \<lparr>tm_jti = j, tm_subject_id = ''agent:1'', tm_parent_jti = p, tm_root_jti = ''r'', tm_depth = 0,
     tm_max_depth = 3, tm_scopes = [''read''], tm_delegation_chain = [], tm_issued_at = 0, tm_expires_at = 9,
     tm_approval_required = False, tm_approved_by = None\<rparr>"

definition example_writes :: "store_write list" where
  "example_writes = [Resolve_Subject ''u'' 0 ''h'' ''human'' ''alice'', Put_Token (example_token ''r'' None),
     Put_Token (example_token ''c'' (Some ''r'')), Put_Token (example_token ''c'' (Some ''r'')), Add_Edge ''r'' ''c'',
     Add_Edge ''r'' ''c'', Put_Action (example_action ''a'' ''c'' 3 None), Revoke_Many (''r'', None, 5) [''r'', ''c''],
     Close_Action ''a'' PARTIAL 6 None]"

theorem sql_refines_memory_witness:
  "fst (run_writes (sql_write sqlite) example_writes empty_database)
     = fst (run_writes mem_write example_writes empty_store)
   \<and> fst (sql_is_revoked ''c'' (snd (run_writes (sql_write sqlite) example_writes empty_database))) = Inr True"
proof -
  have proper: "proper_run empty_store example_writes"
    by (simp add: example_writes_def empty_store_def)
  let ?s = "snd (run_writes (sql_write sqlite) example_writes empty_database)"
    and ?m = "snd (run_writes mem_write example_writes empty_store)"
  have "queries_agree sqlite ?s ?m" using sql_refines_memory [OF backend_ok_sqlite proper] by blast
  then have "fst (sql_is_revoked ''c'' ?s) = map_sum Agp id (fst (is_revoked ''c'' ?m))"
    unfolding queries_agree_def by (metis fst_conv)
  moreover have "fst (is_revoked ''c'' ?m) = Inr True"
    by (simp add: example_writes_def empty_store_def is_revoked_def put_token_def add_edge_def put_action_def
        get_or_create_subject_def close_action_def Let_def example_token_def example_action_def dget_list_def)
  ultimately show ?thesis using sql_refines_memory [OF backend_ok_sqlite proper] by simp
qed

end
