(* ===== verification/Agp_Langgraph.thy ===== *)
theory Agp_Langgraph
  imports Firewall_Demo
begin

text \<open>
  \<open>agperms/integrations/langgraph.py\<close>: the guard of graph nodes. A graph state is a dictionary of JSON
  values; the token entry is a string or absent. A node is a function of the graph state that may use
  the firewall and may raise.
\<close>

type_synonym graph_state = "(string, json) dict"
type_synonym 'r node = "graph_state \<Rightarrow> 'r fw"

definition TOKEN_KEY :: string where "TOKEN_KEY = ''agperms_token''"

text \<open>\<open>state.get(TOKEN_KEY)\<close>.\<close>

definition state_token :: "graph_state \<Rightarrow> string option" where
  "state_token state = (case dget state TOKEN_KEY of Some (JStr t) \<Rightarrow> Some t | _ \<Rightarrow> None)"


text \<open>The wrapped node: \<open>require\<close> and then the node, or the node inside an action block.\<close>

definition require_scope ::
  "env \<Rightarrow> (agp_error \<Rightarrow> string) \<Rightarrow> string \<Rightarrow> bool \<Rightarrow> string \<Rightarrow> 'r node \<Rightarrow> 'r node" where
  "require_scope e show_exc scope checkpoint node_name node_fn state =
     (let token = state_token state in
      if \<not> checkpoint then bindP (require e token scope) (\<lambda>_. node_fn state)
      else with_action e show_exc (str_or token '''') scope node_name None
        (\<lambda>h w. case node_fn state w of (r, w') \<Rightarrow> ((r, h), w')))"



section \<open>Properties\<close>

lemma wp_require_refused:
  assumes "\<nexists>c. verifiable e w tok scope c"
  shows "wp (require e tok scope) (\<lambda>_ _. False) (\<lambda>_ t. ledger_of t = ledger_of w) w"
  unfolding require_def wp_bindP
  by (rule wp_verify) (use assms in \<open>auto simp: wp_simps\<close>)

lemma verifiable_str_or [simp]: "verifiable e w (Some (str_or tok '''')) scope c = verifiable e w tok scope c"
  by (auto simp: verifiable_def str_or_def split: option.splits list.splits)

text \<open>A refused node never runs. If the capability in the graph state does not verify for the scope
  (missing, forged, expired, revoked or without the scope), the wrapped node raises, whatever the node is,
  with and without checkpointing: the outcome does not depend on the node, and no token, edge,
  revocation or approval has changed.\<close>

theorem refused_node_never_runs:
  assumes "\<nexists>c. verifiable e w (state_token state) scope c"
  shows "\<exists>x t. (\<forall>node_fn. require_scope e show_exc scope checkpoint node_name node_fn state w = (Inl x, t))
    \<and> ledger_of t = ledger_of w"
proof -
  let ?tok = "if checkpoint then Some (str_or (state_token state) '''') else state_token state"
  have "\<nexists>c. verifiable e w ?tok scope c" using assms by simp
  from wp_require_refused [OF this] obtain x t where run: "require e ?tok scope w = (Inl x, t)" "ledger_of t = ledger_of w"
    by (cases "require e ?tok scope w") (auto simp: wp_def split: sum.splits)
  then have "require_scope e show_exc scope checkpoint node_name node_fn state w = (Inl x, t)" for node_fn :: "'a node"
    by (auto simp: require_scope_def Let_def bindP_def with_action_def action_enter_def split: if_splits)
  with run(2) show ?thesis by blast
qed
















definition demo_state :: graph_state where
  "demo_state = [(''topic'', JStr ''invoices''), (TOKEN_KEY, JStr run_token)]"

lemma demo_state_token [simp]: "state_token demo_state = Some run_token"
  by (simp add: state_token_def demo_state_def TOKEN_KEY_def)


theorem refused_node_never_runs_witness:
  "\<exists>x t. require_scope run_env (\<lambda>_. '''') ''send_email'' True ''send'' (\<lambda>state. ret (Suc 0)) [] run_minted = (Inl x, t)"
proof -
  have "\<nexists>c. verifiable run_env run_minted (state_token []) ''send_email'' c"
    by (simp add: verifiable_def state_token_def str_or_def)
  from refused_node_never_runs [OF this] show ?thesis by blast
qed




end
