(* ===== verification/Adf_Client.thy ===== *)
theory Adf_Client
  imports Agp_Models
begin

text \<open>
  The LangGraph adapter of the service: \<open>langgraph_adf_adapter/adf_client.py\<close> and
  \<open>langgraph_adf_adapter/guard.py\<close>. The HTTP library and the network are the \<open>transport\<close>, an argument: a
  call takes a URL, headers and a JSON body to the reply, or to \<open>None\<close> when httpx raises an
  \<open>HTTPError\<close>, and changes the
  state \<open>'w\<close> at the other end. The answers are not validated by the client, so the fields of its results
  are JSON values. Exceptions are values; the texts of \<open>ADFError\<close> are left out. The locale
  \<open>checkpoint_api\<close> says what the guard relies on.
\<close>

section \<open>Replies and errors\<close>

text \<open>\<open>rp_body\<close> is \<open>None\<close> when the body is not JSON.\<close>

record reply =
  rp_status :: nat
  rp_body :: "json option"

record 'w transport =
  tr_post :: "string \<Rightarrow> (string \<times> string) list \<Rightarrow> json \<Rightarrow> 'w \<Rightarrow> reply option \<times> 'w"
  tr_get :: "string \<Rightarrow> (string \<times> string) list \<Rightarrow> 'w \<Rightarrow> reply option \<times> 'w"

record parked_reply =
  pr_approval_id :: json
  pr_requested_scopes :: "json list"
  pr_sensitive_scopes :: "json list"
  pr_message :: json
  pr_expires_at :: json

record delegated_token =
  dt_token :: json
  dt_jti :: json
  dt_scopes :: "json list"
  dt_depth :: json
  dt_expires_at :: json
  dt_approval_required :: json
  dt_approved_by :: json

record adf_verify_result =
  av_valid :: bool
  av_reason :: json
  av_agent_id :: json
  av_jti :: json
  av_remaining_scopes :: "json list"
  av_depth :: json

datatype adf_error =
    ADFError
  | ADFDenied string "nat option" "(string, json) dict"
  | PendingApprovalRequired parked_reply
  | AdfHttpxError
  | AdfJSONDecodeError
  | AdfAttributeError
  | AdfKeyError
  | AdfTypeError
  | AdfNodeError string
  \<comment> \<open>the two exceptions of the client, the guard's, then those of httpx, of the json module and of
     Python, and one of the caller's node\<close>

type_synonym ('w, 'a) adf = "('w, adf_error, 'a) prog"

section \<open>Reading a decoded body\<close>

text \<open>\<open>data.get(k)\<close>, \<open>data[k]\<close>, \<open>list(x)\<close>, \<open>a or b\<close> on whatever the JSON was.\<close>

definition py_get :: "json \<Rightarrow> string \<Rightarrow> json \<Rightarrow> adf_error + json" where
  "py_get data k dflt = (case data of JObj kvs \<Rightarrow> Inr (case dget kvs k of None \<Rightarrow> dflt | Some v \<Rightarrow> v)
     | _ \<Rightarrow> Inl AdfAttributeError)"

definition py_index :: "json \<Rightarrow> string \<Rightarrow> adf_error + json" where
  "py_index data k = (case data of JObj kvs \<Rightarrow> (case dget kvs k of None \<Rightarrow> Inl AdfKeyError | Some v \<Rightarrow> Inr v)
     | _ \<Rightarrow> Inl AdfTypeError)"

definition py_list :: "json \<Rightarrow> adf_error + json list" where
  "py_list x = (case x of JList xs \<Rightarrow> Inr xs | JStr s \<Rightarrow> Inr (map (\<lambda>c. JStr [c]) s) | JObj kvs \<Rightarrow> Inr (map (JStr \<circ> fst) kvs)
     | _ \<Rightarrow> Inl AdfTypeError)"

definition py_or :: "json \<Rightarrow> json \<Rightarrow> json" where
  "py_or a b = (if py_bool a then a else b)"

text \<open>The property \<open>denied_scopes\<close> of an \<open>ADFDenied\<close>.\<close>

definition adf_denied_scopes :: "(string, json) dict \<Rightarrow> adf_error + json list" where
  "adf_denied_scopes payload = (case py_get (JObj payload) ''denied_scopes'' (JList []) of Inl x \<Rightarrow> Inl x | Inr v \<Rightarrow> py_list v)"

section \<open>\<open>ADFClient\<close>\<close>

record 'w adf_client =
  cl_base_url :: string
  cl_api :: string
  cl_admin_key :: "string option"
  cl_transport :: "'w transport"

definition new_client :: "string \<Rightarrow> string option \<Rightarrow> 'w transport \<Rightarrow> 'w adf_client" where
  "new_client checkpoint_url key tp = (let base = rev (dropWhile (\<lambda>c. c = CHR ''/'') (rev checkpoint_url))
     in \<lparr>cl_base_url = base, cl_api = base @ ''/api/v1'', cl_admin_key = key, cl_transport = tp\<rparr>)"

definition sendA :: "('w \<Rightarrow> reply option \<times> 'w) \<Rightarrow> adf_error \<Rightarrow> ('w, reply) adf" where
  "sendA call on_error w = (case call w of (None, w') \<Rightarrow> (Inl on_error, w') | (Some r, w') \<Rightarrow> (Inr r, w'))"

definition body_json :: "reply \<Rightarrow> ('w, json) adf" where
  "body_json r = (case rp_body r of None \<Rightarrow> raise AdfJSONDecodeError | Some j \<Rightarrow> ret j)"

definition cl_headers :: "'w adf_client \<Rightarrow> bool \<Rightarrow> ('w, (string \<times> string) list) adf" where
  "cl_headers c admin = (if \<not> admin then ret []
     else if str_or (cl_admin_key c) '''' = '''' then raise ADFError
     else ret [(''X-Admin-Key'', str_or (cl_admin_key c) '''')])"

definition raise_for_denial :: "reply \<Rightarrow> ('w, 'a) adf" where
  "raise_for_denial r = (case rp_body r of
     None \<Rightarrow> raise ADFError
   | Some body \<Rightarrow>
       let detail = (case body of JObj kvs \<Rightarrow> (case dget kvs ''detail'' of None \<Rightarrow> body | Some d \<Rightarrow> d) | _ \<Rightarrow> body) in
       case detail of
         JObj kvs \<Rightarrow>
           let field = (\<lambda>k. case dget kvs k of None \<Rightarrow> JNull | Some v \<Rightarrow> v);
               reason = py_or (field ''error'') (py_or (field ''reason'') (JStr (py_repr detail)))
           in raise (ADFDenied (py_str reason) (Some (rp_status r)) kvs)
       | _ \<Rightarrow> raise (ADFDenied (py_str detail) (Some (rp_status r)) []))"

definition cl_post :: "'w adf_client \<Rightarrow> string \<Rightarrow> json \<Rightarrow> bool \<Rightarrow> ('w, json) adf" where
  "cl_post c path body admin = bindP (cl_headers c admin) (\<lambda>hs.
     bindP (sendA (tr_post (cl_transport c) (cl_api c @ path) hs body) ADFError) (\<lambda>r.
     if 400 \<le> rp_status r \<and> path \<noteq> ''/tokens/verify'' then raise_for_denial r else body_json r))"

definition cl_get :: "'w adf_client \<Rightarrow> string \<Rightarrow> bool \<Rightarrow> ('w, json) adf" where
  "cl_get c path admin = bindP (cl_headers c admin) (\<lambda>hs.
     bindP (sendA (tr_get (cl_transport c) (cl_api c @ path) hs) ADFError) (\<lambda>r.
     if 400 \<le> rp_status r then raise_for_denial r else body_json r))"

definition invalid_because :: "json \<Rightarrow> adf_verify_result" where
  "invalid_because reason = \<lparr>av_valid = False, av_reason = reason, av_agent_id = JNull, av_jti = JNull,
     av_remaining_scopes = [], av_depth = JNull\<rparr>"

definition cl_verify :: "'w adf_client \<Rightarrow> json \<Rightarrow> string \<Rightarrow> ('w, adf_verify_result) adf" where
  "cl_verify c token required_scope =
     (if \<not> py_bool token then ret (invalid_because (JStr ''missing_token''))
      else bindP (cl_post c ''/tokens/verify'' (JObj [(''token'', token), (''required_scope'', JStr required_scope)]) False) (\<lambda>data.
        bindP (liftP (py_get data ''valid'' JNull)) (\<lambda>valid.
        if \<not> py_bool valid then
          bindP (liftP (py_get data ''reason'' (JStr ''denied''))) (\<lambda>reason. ret (invalid_because reason))
        else
          bindP (liftP (py_get data ''agent_id'' JNull)) (\<lambda>agent_id.
          bindP (liftP (py_get data ''jti'' JNull)) (\<lambda>jti.
          bindP (liftP (py_get data ''remaining_scopes'' (JList []))) (\<lambda>scopes.
          bindP (liftP (py_list scopes)) (\<lambda>remaining.
          bindP (liftP (py_get data ''depth'' JNull)) (\<lambda>depth.
          ret \<lparr>av_valid = True, av_reason = JNull, av_agent_id = agent_id, av_jti = jti,
            av_remaining_scopes = remaining, av_depth = depth\<rparr>))))))))"

datatype delegate_reply = ClParked parked_reply | ClDelegated delegated_token

definition read_parked :: "json \<Rightarrow> ('w, parked_reply) adf" where
  "read_parked body =
     bindP (liftP (py_index body ''approval_id'')) (\<lambda>approval_id.
     bindP (liftP (py_get body ''requested_scopes'' (JList []))) (\<lambda>requested.
     bindP (liftP (py_list requested)) (\<lambda>requested_scopes.
     bindP (liftP (py_get body ''sensitive_scopes'' (JList []))) (\<lambda>sensitive.
     bindP (liftP (py_list sensitive)) (\<lambda>sensitive_scopes.
     bindP (liftP (py_get body ''message'' (JStr ''pending approval''))) (\<lambda>msg.
     bindP (liftP (py_get body ''expires_at'' (JStr ''''))) (\<lambda>expires_at.
     ret \<lparr>pr_approval_id = approval_id, pr_requested_scopes = requested_scopes, pr_sensitive_scopes = sensitive_scopes,
       pr_message = msg, pr_expires_at = expires_at\<rparr>)))))))"

definition read_delegated :: "json \<Rightarrow> ('w, delegated_token) adf" where
  "read_delegated body =
     bindP (liftP (py_index body ''token'')) (\<lambda>token.
     bindP (liftP (py_index body ''jti'')) (\<lambda>jti.
     bindP (liftP (py_index body ''scopes'')) (\<lambda>xs.
     bindP (liftP (py_list xs)) (\<lambda>scopes.
     bindP (liftP (py_index body ''depth'')) (\<lambda>depth.
     bindP (liftP (py_index body ''expires_at'')) (\<lambda>expires_at.
     bindP (liftP (py_get body ''approval_required'' (JBool False))) (\<lambda>approval_required.
     bindP (liftP (py_get body ''approved_by'' JNull)) (\<lambda>approved_by.
     ret \<lparr>dt_token = token, dt_jti = jti, dt_scopes = scopes, dt_depth = depth, dt_expires_at = expires_at,
       dt_approval_required = approval_required, dt_approved_by = approved_by\<rparr>))))))))"

text \<open>\<open>delegate\<close> calls httpx directly: its exceptions are not turned into \<open>ADFError\<close>.\<close>

definition cl_delegate :: "'w adf_client \<Rightarrow> json \<Rightarrow> string \<Rightarrow> string list \<Rightarrow> int \<Rightarrow> ('w, delegate_reply) adf" where
  "cl_delegate c parent_token child_agent_id requested_scopes ttl_seconds =
     bindP (sendA (tr_post (cl_transport c) (cl_api c @ ''/tokens/delegate'')
         [(''Authorization'', ''Bearer '' @ py_str parent_token)]
         (JObj [(''child_agent_id'', JStr child_agent_id), (''requested_scopes'', json_strs requested_scopes),
            (''ttl_seconds'', JInt ttl_seconds)])) AdfHttpxError) (\<lambda>r.
     if rp_status r = 202 then bindP (body_json r) (\<lambda>body. bindP (read_parked body) (\<lambda>p. ret (ClParked p)))
     else if rp_status r = 201 then bindP (body_json r) (\<lambda>body. bindP (read_delegated body) (\<lambda>d. ret (ClDelegated d)))
     else raise_for_denial r)"

text \<open>\<open>status in {"denied", "expired"}\<close> hashes the status, which a list or an object cannot be.\<close>

definition in_decided :: "json \<Rightarrow> adf_error + bool" where
  "in_decided status = (case status of JList _ \<Rightarrow> Inl AdfTypeError | JObj _ \<Rightarrow> Inl AdfTypeError
     | _ \<Rightarrow> Inr (status = JStr ''denied'' \<or> status = JStr ''expired''))"

definition data_dict :: "json \<Rightarrow> (string, json) dict" where
  "data_dict data = (case data of JObj kvs \<Rightarrow> kvs | _ \<Rightarrow> [])"

definition cl_collect_approved :: "'w adf_client \<Rightarrow> json \<Rightarrow> ('w, delegated_token option) adf" where
  "cl_collect_approved c approval_id =
     bindP (cl_get c (''/tokens/pending/'' @ py_str approval_id) False) (\<lambda>data.
     bindP (liftP (py_get data ''status'' JNull)) (\<lambda>status.
     bindP (liftP (py_get data ''token'' JNull)) (\<lambda>token.
     if status \<noteq> JStr ''approved'' \<or> \<not> py_bool token then
       bindP (liftP (in_decided status)) (\<lambda>decided.
       if decided then
         bindP (liftP (py_get data ''message'' (JStr ''''))) (\<lambda>msg.
         raise (ADFDenied (''delegation '' @ py_str status @ '': '' @ py_str msg) None (data_dict data)))
       else ret None)
     else
       bindP (liftP (py_index data ''jti'')) (\<lambda>jti.
       bindP (liftP (py_get data ''scopes'' (JList []))) (\<lambda>xs.
       bindP (liftP (py_list xs)) (\<lambda>scopes.
       bindP (liftP (py_get data ''depth'' (JInt (- 1)))) (\<lambda>depth.
       bindP (liftP (py_get data ''expires_at'' JNull)) (\<lambda>expires_at.
       ret (Some \<lparr>dt_token = token, dt_jti = jti, dt_scopes = scopes, dt_depth = depth,
         dt_expires_at = py_or expires_at (JStr ''''), dt_approval_required = JBool True, dt_approved_by = JNull\<rparr>))))))))) "

definition cl_chain :: "'w adf_client \<Rightarrow> string \<Rightarrow> ('w, json) adf" where
  "cl_chain c jti = cl_get c (''/audit/chain/'' @ jti) False"

definition cl_health :: "'w adf_client \<Rightarrow> ('w, json) adf" where
  "cl_health c = cl_get c ''/health'' False"

definition cl_mint_root :: "'w adf_client \<Rightarrow> string \<Rightarrow> string list \<Rightarrow> int \<Rightarrow> int option \<Rightarrow> ('w, delegated_token) adf" where
  "cl_mint_root c human_id scopes ttl_seconds max_depth =
     bindP (cl_post c ''/tokens/root'' (JObj ([(''human_id'', JStr human_id), (''scopes'', json_strs scopes),
         (''ttl_seconds'', JInt ttl_seconds)] @ (case max_depth of None \<Rightarrow> [] | Some d \<Rightarrow> [(''max_depth'', JInt d)]))) True) (\<lambda>data.
     bindP (liftP (py_index data ''token'')) (\<lambda>token.
     bindP (liftP (py_index data ''jti'')) (\<lambda>jti.
     bindP (liftP (py_index data ''scopes'')) (\<lambda>xs.
     bindP (liftP (py_list xs)) (\<lambda>scopes'.
     bindP (liftP (py_index data ''expires_at'')) (\<lambda>expires_at.
     ret \<lparr>dt_token = token, dt_jti = jti, dt_scopes = scopes', dt_depth = JInt 0, dt_expires_at = expires_at,
       dt_approval_required = JBool False, dt_approved_by = JNull\<rparr>))))))"

definition cl_approve :: "'w adf_client \<Rightarrow> json \<Rightarrow> ('w, json) adf" where
  "cl_approve c approval_id = cl_post c ''/tokens/approve''
     (JObj [(''approval_id'', approval_id), (''decision'', JStr ''approve'')]) True"

definition cl_deny_approval :: "'w adf_client \<Rightarrow> json \<Rightarrow> ('w, json) adf" where
  "cl_deny_approval c approval_id = cl_post c ''/tokens/deny''
     (JObj [(''approval_id'', approval_id), (''decision'', JStr ''deny'')]) True"

definition cl_revoke :: "'w adf_client \<Rightarrow> string \<Rightarrow> string option \<Rightarrow> ('w, json) adf" where
  "cl_revoke c jti reason = cl_post c ''/tokens/revoke'' (JObj [(''jti'', JStr jti), (''reason'', json_of_opt reason)]) True"

section \<open>\<open>ADFGuard\<close>\<close>

type_synonym adf_state = "(string, json) dict"
type_synonym ('w, 'r) adf_node = "adf_state \<Rightarrow> ('w, 'r) adf"

definition ADF_TOKEN_KEY :: string where "ADF_TOKEN_KEY = ''adf_token''"
definition ADF_AGENT_KEY :: string where "ADF_AGENT_KEY = ''adf_agent_id''"

definition state_get :: "adf_state \<Rightarrow> string \<Rightarrow> json" where
  "state_get state k = (case dget state k of None \<Rightarrow> JNull | Some v \<Rightarrow> v)"

definition adf_require_scope :: "'w adf_client \<Rightarrow> string \<Rightarrow> string \<Rightarrow> ('w, 'r) adf_node \<Rightarrow> ('w, 'r) adf_node" where
  "adf_require_scope c scope node_name node_fn state =
     bindP (cl_verify c (state_get state ADF_TOKEN_KEY) scope) (\<lambda>res.
     if \<not> av_valid res then
       raise (ADFDenied (''ADF denied node '' @ repr_str node_name @ '': scope '' @ repr_str scope @ '' -- '' @ py_str (av_reason res))
         None [(''required_scope'', JStr scope), (''reason'', av_reason res)])
     else node_fn state)"

definition adf_state_with :: "adf_state \<Rightarrow> string \<Rightarrow> delegated_token \<Rightarrow> adf_state" where
  "adf_state_with state agent_id d = dset ''adf_depth'' (dt_depth d) (dset ''adf_scopes'' (JList (dt_scopes d))
     (dset ADF_AGENT_KEY (JStr agent_id) (dset ADF_TOKEN_KEY (dt_token d) state)))"

definition adf_delegate_for_node :: "'w adf_client \<Rightarrow> adf_state \<Rightarrow> string \<Rightarrow> string list \<Rightarrow> int \<Rightarrow> ('w, adf_state) adf" where
  "adf_delegate_for_node c parent_state child_agent_id requested_scopes ttl_seconds =
     (let parent_token = state_get parent_state ADF_TOKEN_KEY in
      if \<not> py_bool parent_token then
        raise (ADFDenied ''no ADF token in graph state; the entry node must inject one'' None [(''missing_key'', JStr ADF_TOKEN_KEY)])
      else bindP (cl_delegate c parent_token child_agent_id requested_scopes ttl_seconds) (\<lambda>r. case r of
          ClParked p \<Rightarrow> raise (PendingApprovalRequired p)
        | ClDelegated d \<Rightarrow> ret (adf_state_with parent_state child_agent_id d)))"

definition adf_delegate_with_approval ::
  "'w adf_client \<Rightarrow> adf_state \<Rightarrow> string \<Rightarrow> string list \<Rightarrow> int \<Rightarrow> bool \<Rightarrow> ('w, adf_state) adf" where
  "adf_delegate_with_approval c parent_state child_agent_id requested_scopes ttl_seconds approve_as_human =
     catchP (adf_delegate_for_node c parent_state child_agent_id requested_scopes ttl_seconds) (\<lambda>x. case x of
       PendingApprovalRequired p \<Rightarrow>
         if \<not> approve_as_human then raise x
         else bindP (cl_approve c (pr_approval_id p)) (\<lambda>_.
           bindP (cl_collect_approved c (pr_approval_id p)) (\<lambda>token. case token of
             None \<Rightarrow> raise (ADFDenied ''approval was granted but no token could be collected'' None
               [(''approval_id'', pr_approval_id p)])
           | Some d \<Rightarrow> ret (adf_state_with parent_state child_agent_id d)))
     | _ \<Rightarrow> raise x)"

text \<open>What an exception carries as an \<open>ADFDenied\<close> (\<open>PendingApprovalRequired\<close> is one): reason, status and payload.\<close>

fun as_denied :: "adf_error \<Rightarrow> (string \<times> nat option \<times> (string, json) dict) option" where
  "as_denied (ADFDenied reason status payload) = Some (reason, status, payload)"
| "as_denied (PendingApprovalRequired p) = Some (''human approval required for scopes '' @ py_repr (JList (pr_sensitive_scopes p)),
     Some 202, [(''approval_id'', pr_approval_id p), (''sensitive_scopes'', JList (pr_sensitive_scopes p))])"
| "as_denied _ = None"

section \<open>Weakest preconditions\<close>

lemma wp_sendA [wp_simps]: "wp (sendA call x) Q X w = (case call w of (None, w') \<Rightarrow> X x w' | (Some r, w') \<Rightarrow> Q r w')"
  by (simp add: wp_def sendA_def split: prod.splits option.splits)

lemma py_bool_simps [simp]:
  "\<not> py_bool JNull" "py_bool (JBool b) = b" "py_bool (JStr s) = (s \<noteq> '''')" "py_bool (JInt i) = (i \<noteq> 0)"
  by (simp_all add: py_bool_def)

section \<open>What the guard relies on\<close>

text \<open>The interface at the other end: states \<open>inv\<close> it can be in, and what a positive answer to a
  verification promises of the state it was asked in.\<close>

locale checkpoint_api =
  fixes tp :: "'w transport" and api :: string
    and inv :: "'w \<Rightarrow> bool" and accepts :: "string \<Rightarrow> string \<Rightarrow> 'w \<Rightarrow> bool"
  assumes verify_keeps: "inv w \<Longrightarrow> tr_post tp (api @ ''/tokens/verify'') [] (JObj [(''token'', t), (''required_scope'', JStr s)]) w = (r, w') \<Longrightarrow>
      inv w'"
    and verify_earned: "inv w \<Longrightarrow> tr_post tp (api @ ''/tokens/verify'') [] (JObj [(''token'', t), (''required_scope'', JStr s)]) w
        = (Some \<lparr>rp_status = n, rp_body = Some (JObj kvs)\<rparr>, w') \<Longrightarrow> dget kvs ''valid'' = Some v \<Longrightarrow> py_bool v \<Longrightarrow>
      \<exists>tok. t = JStr tok \<and> accepts tok s w"
begin

lemma verify_valid:
  assumes "inv w" and "cl_transport c = tp" and "cl_api c = api"
  shows "wp (cl_verify c t s) (\<lambda>r w'. inv w' \<and> (av_valid r \<longrightarrow> (\<exists>tok. t = JStr tok \<and> accepts tok s w))) (\<lambda>_. inv) w"
proof -
  obtain r w' where run: "tr_post tp (api @ ''/tokens/verify'') [] (JObj [(''token'', t), (''required_scope'', JStr s)]) w = (r, w')"
    by fastforce
  have keeps: "inv w'" using verify_keeps [OF assms(1) run] .
  have earned: "\<exists>tok. t = JStr tok \<and> accepts tok s w"
    if "r = Some rp" "rp_body rp = Some (JObj kvs)" "dget kvs ''valid'' = Some v" "py_bool v" for rp kvs v
    using verify_earned [OF assms(1), of t s "rp_status rp" kvs w' v] run that by simp
  show ?thesis
    using run keeps earned assms(1)
    by (simp add: cl_verify_def cl_post_def cl_headers_def body_json_def py_get_def py_list_def invalid_because_def assms wp_simps
        split: option.splits json.splits)
qed

text \<open>A node whose token is not accepted ends in an exception, the same whatever the node is.\<close>

lemma guard_refuses:
  assumes "inv w" and "cl_transport c = tp" and "cl_api c = api"
    and "\<nexists>tok. state_get state ADF_TOKEN_KEY = JStr tok \<and> accepts tok scope w"
  shows "\<exists>x t. (\<forall>node_fn. adf_require_scope c scope node_name node_fn state w = (Inl x, t)) \<and> inv t"
proof -
  have wp: "wp (cl_verify c (state_get state ADF_TOKEN_KEY) scope) (\<lambda>r w'. inv w' \<and> \<not> av_valid r) (\<lambda>_. inv) w"
    by (rule wp_mono [OF verify_valid [OF assms(1-3)]]) (use assms(4) in blast)+
  show ?thesis
  proof (cases "cl_verify c (state_get state ADF_TOKEN_KEY) scope w")
    case (Pair r t)
    then show ?thesis using wp
      by (cases r) (auto simp: adf_require_scope_def bindP_def wp_def raise_def)
  qed
qed

end

end
