(* ===== verification/Service_State.thy ===== *)
theory Service_State
  imports Service_Config Agp_Audit
begin

text \<open>
  The state of the checkpoint service (\<open>src/checkpoint_service\<close>): the tables of \<open>models/audit.py\<close> in
  Postgres, the Redis cache, and what one process keeps in memory; with \<open>db/session.py\<close> (the
  transaction of a request) and \<open>db/redis_client.py\<close> (degrading when Redis fails).

  One process serves one request at a time here: \<open>sv_db\<close> are the committed rows, \<open>sv_tx\<close> what the
  session of the request sees, its own flushed changes included. The audit log is written through
  sessions of its own, on Postgres over a connection of its own, so its rows are committed at once, and
  nothing else with them. (On SQLite \<open>db/session.py\<close> gives every session the same connection, so that the
  commit of an audit row also commits what the request has flushed; that configuration, for development,
  is not modelled.) SQLAlchemy, Postgres and Redis are not part of
  the repository; what they may decide is the environment \<open>E\<close>: whether the n-th interaction finds the
  commit accepted (\<open>se_commit\<close>) or Redis answering (\<open>se_redis_up\<close>), the order of the rows of a query
  (\<open>se_scan\<close>), and whether the length of a \<open>String(n)\<close> column is enforced (\<open>se_widths\<close>: Postgres does,
  SQLite does not; modelled for the audit table). pydantic's validation of a claim set and of a chain entry are \<open>se_claims\<close> and \<open>se_entry\<close>.
  \<open>utils.py\<close> repeats \<open>agperms/_time.py\<close>, and the rows of the tables have the fields of the library's
  records (\<open>token_metadata\<close>, \<open>pending_approval\<close>, \<open>subject\<close>, \<open>revocation\<close>, \<open>audit_row\<close>), which are
  used for them; times read back from a table are instants, which is what \<open>as_utc\<close> makes of them.
\<close>

section \<open>Environment and errors\<close>

record svc_env =
  se_env :: env
  se_claims :: "json \<Rightarrow> claims option"
  se_entry :: "json \<Rightarrow> chain_entry option"
  se_commit :: "nat \<Rightarrow> bool"
  se_widths :: bool
  se_redis_up :: "nat \<Rightarrow> bool"
  se_scan :: "(string \<times> string) list \<Rightarrow> (string \<times> string) list"

text \<open>What is assumed of pydantic and of the database: a model's dump validates to the model it came from,
  a query returns the rows there are.\<close>

definition svc_backend_ok :: "svc_env \<Rightarrow> bool" where
  "svc_backend_ok E \<longleftrightarrow> (\<forall>c. se_claims E (to_payload c) = Some c) \<and> (\<forall>x. se_entry E (entry_to_dict x) = Some x)
     \<and> (\<forall>xs. set (se_scan E xs) = set xs)"

datatype svc_error =
    SvcTokenError string
  | SvcParentTokenInvalid string
  | SvcRootChainBroken string
  | SvcScopeEscalationDenied "string list" "string list" "string list"
  | SvcDepthLimitExceeded int int
  | SvcRateLimitExceeded string int int
  | SvcCircuitOpen string
  | SvcKeyError
  | SvcValueError
  | SvcRuntimeError
  | SvcTypeError
  | SvcIntegrityError
  | SvcOperationalError
  | SvcDataError
  | SvcRedisError
  | SvcDiverges
  \<comment> \<open>the service's exceptions, Python's, SQLAlchemy's (constraint violated, commit failed, value too
     long), a client
     exception of Redis, and a walk that would not end\<close>

section \<open>State\<close>

record tables =
  tb_tokens :: "(string, token_metadata) dict"
  tb_edges :: "(string \<times> string) list"
  tb_revocations :: "revocation list"
  tb_approvals :: "(string, pending_approval) dict"
  tb_subjects :: "subject list"

record redis =
  rd_revoked :: "string set"
  rd_edges :: "(string \<times> string) set"
  rd_ready :: bool
  rd_windows :: buckets

record service =
  sv_settings :: settings
  sv_db :: tables
  sv_tx :: tables
  sv_audit :: "audit_row list"
  sv_buffer :: "audit_event list"
  sv_tail :: "string option"
  sv_redis :: redis
  sv_available :: bool
  sv_rate :: buckets
  sv_breaker :: breaker
  sv_anomaly :: baselines
  sv_tick :: nat

type_synonym 'a svc = "(service, svc_error, 'a) prog"

definition empty_tables :: tables where
  "empty_tables = \<lparr>tb_tokens = [], tb_edges = [], tb_revocations = [], tb_approvals = [], tb_subjects = []\<rparr>"

definition empty_redis :: redis where
  "empty_redis = \<lparr>rd_revoked = {}, rd_edges = {}, rd_ready = False, rd_windows = []\<rparr>"

text \<open>A fresh process on a new database and an empty Redis, not yet connected.\<close>

definition new_service :: "settings \<Rightarrow> service" where
  "new_service st = \<lparr>sv_settings = st, sv_db = empty_tables, sv_tx = empty_tables, sv_audit = [], sv_buffer = [],
     sv_tail = None, sv_redis = empty_redis, sv_available = False, sv_rate = [], sv_breaker = new_breaker,
     sv_anomaly = [], sv_tick = 0\<rparr>"

section \<open>Readings\<close>

definition tickS :: "service \<Rightarrow> service" where
  "tickS w = w\<lparr>sv_tick := Suc (sv_tick w)\<rparr>"

definition nowS :: "svc_env \<Rightarrow> instant svc" where
  "nowS E w = (Inr (e_clock (se_env E) (sv_tick w)), tickS w)"

definition now_tsS :: "svc_env \<Rightarrow> int svc" where
  "now_tsS E w = (Inr (ts_of (e_clock (se_env E) (sv_tick w))), tickS w)"

definition perfS :: "svc_env \<Rightarrow> int svc" where
  "perfS E w = (Inr (e_perf (se_env E) (sv_tick w)), tickS w)"

definition uuidS :: "svc_env \<Rightarrow> string svc" where
  "uuidS E w = (Inr (e_uuid4 (se_env E) (sv_tick w)), tickS w)"

section \<open>The session\<close>

text \<open>A query of the session, and a flushed change of it.\<close>

definition queryS :: "(tables \<Rightarrow> 'a) \<Rightarrow> 'a svc" where
  "queryS f = getsP (\<lambda>w. f (sv_tx w))"

definition flushS :: "(tables \<Rightarrow> tables) \<Rightarrow> unit svc" where
  "flushS f = updP (\<lambda>w. w\<lparr>sv_tx := f (sv_tx w)\<rparr>)"

definition begin_tx :: "service \<Rightarrow> service" where
  "begin_tx w = w\<lparr>sv_tx := sv_db w\<rparr>"

definition commit_tx :: "service \<Rightarrow> service" where
  "commit_tx w = w\<lparr>sv_db := sv_tx w\<rparr>"

definition rollback_tx :: "service \<Rightarrow> service" where
  "rollback_tx w = w\<lparr>sv_tx := sv_db w\<rparr>"

definition session_scope :: "svc_env \<Rightarrow> 'a svc \<Rightarrow> 'a svc" where
  "session_scope E body w = (case body (begin_tx w) of
     (Inl x, t) \<Rightarrow> (Inl x, rollback_tx t)
   | (Inr a, t) \<Rightarrow> if se_commit E (sv_tick t) then (Inr a, tickS (commit_tx t))
       else (Inl SvcOperationalError, tickS (rollback_tx t)))"

text \<open>The connection options \<open>init_engine\<close> chooses by the URL.\<close>

record engine_options =
  eo_static_pool :: bool
  eo_pool_pre_ping :: bool
  eo_connect_timeout :: "int option"
  eo_prepare_threshold_off :: bool
  eo_pool :: "(int \<times> int \<times> int) option"
  eo_foreign_keys_pragma :: bool

definition is_sqlite :: "string \<Rightarrow> bool" where
  "is_sqlite url = prefix ''sqlite'' url"

definition svc_is_transaction_pooler :: "string \<Rightarrow> bool" where
  "svc_is_transaction_pooler url = (let lowered = map lower_char url in sublist ''pooler.supabase.com'' lowered
     \<or> sublist '':6543/'' lowered \<or> sublist ''pgbouncer=true'' lowered)"

definition init_engine :: "string \<Rightarrow> engine_options" where
  "init_engine url =
     (if is_sqlite url then \<lparr>eo_static_pool = True, eo_pool_pre_ping = False, eo_connect_timeout = None,
        eo_prepare_threshold_off = False, eo_pool = None, eo_foreign_keys_pragma = True\<rparr>
      else if svc_is_transaction_pooler url then \<lparr>eo_static_pool = False, eo_pool_pre_ping = True,
        eo_connect_timeout = Some 30, eo_prepare_threshold_off = True, eo_pool = Some (5, 5, 1800),
        eo_foreign_keys_pragma = False\<rparr>
      else \<lparr>eo_static_pool = False, eo_pool_pre_ping = True, eo_connect_timeout = Some 30,
        eo_prepare_threshold_off = False, eo_pool = None, eo_foreign_keys_pragma = False\<rparr>)"

section \<open>Redis\<close>

text \<open>A command (or a pipeline, one transaction of the server): it takes effect or raises.\<close>

definition redisS :: "svc_env \<Rightarrow> (redis \<Rightarrow> 'a \<times> redis) \<Rightarrow> 'a svc" where
  "redisS E f w = (if se_redis_up E (sv_tick w)
     then (case f (sv_redis w) of (a, r) \<Rightarrow> (Inr a, (tickS w)\<lparr>sv_redis := r\<rparr>))
     else (Inl SvcRedisError, tickS w))"

definition init_redis :: "svc_env \<Rightarrow> service \<Rightarrow> service" where
  "init_redis E w = (tickS w)\<lparr>sv_available := se_redis_up E (sv_tick w)\<rparr>"

definition mark_unavailable :: "service \<Rightarrow> service" where
  "mark_unavailable w = w\<lparr>sv_available := False\<rparr>"

definition close_redis :: "service \<Rightarrow> service" where
  "close_redis w = w\<lparr>sv_available := False\<rparr>"

text \<open>A write to Redis that is skipped when Redis is marked unavailable; an exception marks it so.\<close>

definition mirrorS :: "svc_env \<Rightarrow> (redis \<Rightarrow> redis) \<Rightarrow> unit svc" where
  "mirrorS E f = bindP (getsP sv_available) (\<lambda>available.
     if \<not> available then ret ()
     else catchP (redisS E (\<lambda>r. ((), f r))) (\<lambda>_. updP mark_unavailable))"

section \<open>Weakest preconditions\<close>

lemma wp_readings [wp_simps]:
  "wp (nowS E) Q X w = Q (e_clock (se_env E) (sv_tick w)) (tickS w)"
  "wp (now_tsS E) Q' X w = Q' (ts_of (e_clock (se_env E) (sv_tick w))) (tickS w)"
  "wp (perfS E) Q' X w = Q' (e_perf (se_env E) (sv_tick w)) (tickS w)"
  "wp (uuidS E) Q'' X w = Q'' (e_uuid4 (se_env E) (sv_tick w)) (tickS w)"
  by (simp_all add: wp_def nowS_def now_tsS_def perfS_def uuidS_def)

lemma wp_queryS [wp_simps]: "wp (queryS f) Q X w = Q (f (sv_tx w)) w"
  by (simp add: queryS_def wp_simps)

lemma wp_flushS [wp_simps]: "wp (flushS f) Q X w = Q () (w\<lparr>sv_tx := f (sv_tx w)\<rparr>)"
  by (simp add: flushS_def wp_simps)

lemma wp_redisS [wp_simps]: "wp (redisS E f) Q X w = (if se_redis_up E (sv_tick w)
    then Q (fst (f (sv_redis w))) ((tickS w)\<lparr>sv_redis := snd (f (sv_redis w))\<rparr>) else X SvcRedisError (tickS w))"
  by (simp add: wp_def redisS_def split: prod.splits)

lemma wp_session_scope [wp_simps]: "wp (session_scope E body) Q X w =
    wp body (\<lambda>a t. if se_commit E (sv_tick t) then Q a (tickS (commit_tx t)) else X SvcOperationalError (tickS (rollback_tx t)))
      (\<lambda>x t. X x (rollback_tx t)) (begin_tx w)"
  by (simp add: wp_def session_scope_def split: prod.splits sum.splits)

lemma tickS_simps [simp]:
  "sv_settings (tickS w) = sv_settings w" "sv_db (tickS w) = sv_db w" "sv_tx (tickS w) = sv_tx w"
  "sv_audit (tickS w) = sv_audit w" "sv_buffer (tickS w) = sv_buffer w" "sv_tail (tickS w) = sv_tail w"
  "sv_redis (tickS w) = sv_redis w" "sv_available (tickS w) = sv_available w" "sv_rate (tickS w) = sv_rate w"
  "sv_breaker (tickS w) = sv_breaker w" "sv_anomaly (tickS w) = sv_anomaly w" "sv_tick (tickS w) = Suc (sv_tick w)"
  by (simp_all add: tickS_def)

end
