(* ===== verification/Service_Audit.thy ===== *)
theory Service_Audit
  imports Service_State
begin

text \<open>
  \<open>checkpoint_service/engine/audit_logger.py\<close>: the hash-chained log of the service. \<open>verify_success\<close> events
  wait in a buffer, everything else is written before the call returns. The content of a row and its
  hash are computed as in the library (the functions are repeated word for word), so they are
  \<open>canonical_content\<close>, \<open>compute_row_hash\<close> and \<open>chain_rows\<close>; new is that a write can fail, and the buffer. The
  ids of the rows count up without gaps; the column \<open>ts\<close>, which no hash covers, is left out.
\<close>

section \<open>Writing\<close>

text \<open>\<open>String(n)\<close> columns of \<open>audit_log\<close>.\<close>

definition fits :: "nat \<Rightarrow> string option \<Rightarrow> bool" where
  "fits n s = (case s of None \<Rightarrow> True | Some t \<Rightarrow> length t \<le> n)"

definition fits_columns :: "audit_event \<Rightarrow> bool" where
  "fits_columns ev \<longleftrightarrow> length (ev_event_ts ev) \<le> 40 \<and> length (ev_action ev) \<le> 64 \<and> fits 200 (ev_actor_id ev)
     \<and> fits 64 (ev_actor_hash ev) \<and> fits 64 (ev_jti ev) \<and> fits 64 (ev_parent_jti ev) \<and> fits 64 (ev_root_jti ev)
     \<and> fits 128 (ev_required_scope ev) \<and> fits 32 (ev_decision ev) \<and> fits 200 (ev_reason ev)"

text \<open>The hash of the newest row, or the genesis hash.\<close>

definition tail_row_hash :: "service \<Rightarrow> string" where
  "tail_row_hash w = (if sv_audit w = [] then GENESIS_HASH else aw_row_hash (last (sv_audit w)))"

definition load_tail :: "service \<Rightarrow> service" where
  "load_tail w = w\<lparr>sv_tail := Some (tail_row_hash w)\<rparr>"

text \<open>\<open>_write_batch\<close>: the tail is read once and cached; it moves on only when the commit succeeded.\<close>

definition write_batch :: "svc_env \<Rightarrow> audit_event list \<Rightarrow> unit svc" where
  "write_batch E events w0 = (let
     w = (if sv_tail w0 = None then load_tail w0 else w0);
     (rows, prev) = chain_rows (se_env E) (the (sv_tail w)) events
   in if se_widths E \<and> \<not> list_all fits_columns events then (Inl SvcDataError, tickS w)
      else if \<not> se_commit E (sv_tick w) then (Inl SvcOperationalError, tickS w)
      else (Inr (), (tickS w)\<lparr>sv_audit := sv_audit w @ number_rows (length (sv_audit w) + 1) rows, sv_tail := Some prev\<rparr>))"

text \<open>\<open>flush\<close>: the buffer is emptied before the rows are written.\<close>

definition audit_flush :: "svc_env \<Rightarrow> nat svc" where
  "audit_flush E = bindP (getsP sv_buffer) (\<lambda>pending.
     bindP (updP (\<lambda>w. w\<lparr>sv_buffer := []\<rparr>)) (\<lambda>_.
     if pending = [] then ret 0 else bindP (write_batch E pending) (\<lambda>_. ret (length pending))))"

definition BUFFERABLE :: "string set" where
  "BUFFERABLE = {''verify_success''}"

definition audit_log :: "svc_env \<Rightarrow> bool \<Rightarrow> audit_event \<Rightarrow> unit svc" where
  "audit_log E force_sync ev =
     (if \<not> force_sync \<and> ev_action ev \<in> BUFFERABLE then
        bindP (updP (\<lambda>w. w\<lparr>sv_buffer := sv_buffer w @ [ev]\<rparr>)) (\<lambda>_.
        bindP (getsP (\<lambda>w. st_audit_buffer_max_size (sv_settings w) \<le> int (length (sv_buffer w)))) (\<lambda>should_flush.
        whenP should_flush (bindP (audit_flush E) (\<lambda>_. ret ()))))
      else write_batch E [ev])"

text \<open>\<open>self._audit.log(AuditEvent(...))\<close>; the event takes its time stamp when it is built.\<close>

definition auditS :: "svc_env \<Rightarrow> audit_event \<Rightarrow> unit svc" where
  "auditS E ev = bindP (nowS E) (\<lambda>now. audit_log E False (ev\<lparr>ev_event_ts := iso now\<rparr>))"

text \<open>The background task (one round of \<open>_flush_loop\<close>), \<open>start\<close> and \<open>stop\<close>.\<close>

definition audit_flush_round :: "svc_env \<Rightarrow> service \<Rightarrow> service" where
  "audit_flush_round E w = snd (audit_flush E w)"

definition audit_start :: "service \<Rightarrow> service" where
  "audit_start w = load_tail w"

definition audit_stop :: "svc_env \<Rightarrow> nat svc" where
  "audit_stop E = audit_flush E"

section \<open>Verifying\<close>

definition svc_verify_integrity :: "svc_env \<Rightarrow> service \<Rightarrow> integrity_report" where
  "svc_verify_integrity E w = verify_rows (se_env E) 0 GENESIS_HASH (sv_audit w)"

section \<open>The log is a chain, whatever fails\<close>

definition svc_audit_ok :: "svc_env \<Rightarrow> service \<Rightarrow> bool" where
  "svc_audit_ok E w \<longleftrightarrow> agp_chain.linked (se_env E) GENESIS_HASH (sv_audit w)
     \<and> (sv_tail w = None \<or> sv_tail w = Some (tail_row_hash w))"

lemma tail_row_hash_chain: "tail_row_hash w = agp_chain.tail_hash GENESIS_HASH (sv_audit w)"
  by (simp add: tail_row_hash_def agp_chain.tail_hash_def)

lemma svc_audit_ok_intact: "svc_audit_ok E w \<Longrightarrow> ir_intact (svc_verify_integrity E w)"
  by (simp add: svc_audit_ok_def svc_verify_integrity_def verify_rows_intact)

definition next_prev :: "service \<Rightarrow> string" where
  "next_prev w = (case sv_tail w of None \<Rightarrow> tail_row_hash w | Some t \<Rightarrow> t)"

definition write_fails :: "svc_env \<Rightarrow> audit_event list \<Rightarrow> service \<Rightarrow> bool" where
  "write_fails E evs w \<longleftrightarrow> se_widths E \<and> \<not> list_all fits_columns evs \<or> \<not> se_commit E (sv_tick w)"

definition written :: "svc_env \<Rightarrow> audit_event list \<Rightarrow> service \<Rightarrow> service" where
  "written E evs w = (case chain_rows (se_env E) (next_prev w) evs of (rows, prev) \<Rightarrow>
     (tickS w)\<lparr>sv_audit := sv_audit w @ number_rows (length (sv_audit w) + 1) rows, sv_tail := Some prev\<rparr>)"

text \<open>What a write does, by outcome.\<close>

lemma wp_write_batch [wp_simps]:
  "wp (write_batch E evs) Q X w = (if write_fails E evs w
     then (if se_widths E \<and> \<not> list_all fits_columns evs then X SvcDataError else X SvcOperationalError)
       ((tickS w)\<lparr>sv_tail := Some (next_prev w)\<rparr>)
     else Q () (written E evs w))"
  by (cases w; cases "sv_tail w")
    (auto simp: wp_def write_batch_def write_fails_def written_def next_prev_def load_tail_def Let_def tickS_def split: prod.splits)

lemma svc_audit_ok_written: "svc_audit_ok E w \<Longrightarrow> svc_audit_ok E (written E evs w)"
proof -
  assume inv: "svc_audit_ok E w"
  obtain rows prev where c: "chain_rows (se_env E) (next_prev w) evs = (rows, prev)" by fastforce
  have "next_prev w = agp_chain.tail_hash GENESIS_HASH (sv_audit w)"
    using inv by (auto simp: next_prev_def svc_audit_ok_def tail_row_hash_chain split: option.splits)
  with chain_rows_linked [OF c] inv c show ?thesis
    by (simp add: written_def svc_audit_ok_def tail_row_hash_chain agp_chain.linked_append
        linked_number_rows tail_number_rows)
qed

lemma svc_audit_ok_failed: "svc_audit_ok E w \<Longrightarrow> svc_audit_ok E ((tickS w)\<lparr>sv_tail := Some (next_prev w)\<rparr>)"
  by (auto simp: svc_audit_ok_def next_prev_def tail_row_hash_def split: option.splits)

text \<open>The rows of a batch carry the events in order.\<close>

lemma chain_rows_payload: "chain_rows e p evs = (rows, t) \<Longrightarrow> map event_payload rows = map event_payload evs"
proof (induction evs arbitrary: p rows)
  case (Cons ev evs)
  obtain rows' t' where "chain_rows e (compute_row_hash e p ev) evs = (rows', t')" by fastforce
  then show ?case using Cons by (auto simp: event_payload_def row_of_def)
qed simp

lemma number_rows_payload: "map event_payload (number_rows n rows) = map event_payload rows"
  by (induction rows arbitrary: n) (simp_all add: event_payload_def)

lemma written_payload: "\<exists>rows. sv_audit (written E evs w) = sv_audit w @ rows \<and> map event_payload rows = map event_payload evs"
  using chain_rows_payload [of "se_env E" "next_prev w" evs]
  by (auto simp: written_def number_rows_payload split: prod.splits)

section \<open>Properties\<close>

text \<open>What makes a flush raise: there is something to write, and the write is refused.\<close>

definition flush_fails :: "svc_env \<Rightarrow> service \<Rightarrow> bool" where
  "flush_fails E w \<longleftrightarrow> sv_buffer w \<noteq> [] \<and> write_fails E (sv_buffer w) w"

text \<open>C36: a flush of the buffer is all or nothing, and nothing means lost. When the write succeeds every
  buffered event is a row, in order, and the count is returned; when it fails (a commit that is not
  accepted, or one event among them too long for its column) the exception propagates, no event is a row,
  and the buffer is empty all the same, so a later flush cannot write them either.\<close>

theorem failed_flush_loses_events:
  "case audit_flush E w of
     (Inr n, t) \<Rightarrow> \<not> flush_fails E w \<and> n = length (sv_buffer w) \<and> sv_buffer t = []
       \<and> (\<exists>rows. sv_audit t = sv_audit w @ rows \<and> map event_payload rows = map event_payload (sv_buffer w))
   | (Inl x, t) \<Rightarrow> flush_fails E w \<and> sv_buffer t = [] \<and> sv_audit t = sv_audit w"
proof -
  let ?u = "w\<lparr>sv_buffer := []\<rparr>"
  have same: "write_fails E (sv_buffer w) ?u = write_fails E (sv_buffer w) w"
    "sv_buffer (written E (sv_buffer w) ?u) = []" "sv_audit ?u = sv_audit w"
    by (simp_all add: write_fails_def written_def split: prod.splits)
  have "wp (audit_flush E)
     (\<lambda>n t. \<not> flush_fails E w \<and> n = length (sv_buffer w) \<and> sv_buffer t = []
       \<and> (\<exists>rows. sv_audit t = sv_audit w @ rows \<and> map event_payload rows = map event_payload (sv_buffer w)))
     (\<lambda>_ t. flush_fails E w \<and> sv_buffer t = [] \<and> sv_audit t = sv_audit w) w"
    using written_payload [of E "sv_buffer w" ?u] same
    by (simp add: audit_flush_def flush_fails_def wp_simps)
  then show ?thesis by (simp add: wp_def split: prod.splits sum.splits)
qed

end
