(* ===== verification/Redis_Windows.thy ===== *)
theory Redis_Windows
  imports Window_Cache
begin

text \<open>
  Sliding windows in Redis: \<open>RedisWindowCache\<close> of \<open>agperms/_guardrails.py\<close>, and the same pipeline in the
  rate limiter of the service. A sorted set is the list of its scores in the order they were added (the
  members carry a random suffix, so two hits at the same time are two members). The pipeline is one
  transaction of the server. The expiry of a key (a second past the window) only removes what the next
  hit would remove, and is left out. Key patterns are meant literally: namespaces and prefixes without
  the wildcard characters of \<open>SCAN\<close>.
\<close>

section \<open>The pipeline\<close>

definition zset_hit :: "string \<Rightarrow> int \<Rightarrow> instant \<Rightarrow> buckets \<Rightarrow> nat \<times> buckets" where
  "zset_hit key window now b = (let
     kept = filter (\<lambda>t. \<not> (0 \<le> t \<and> t \<le> now - usec window)) (bucket_of b key) @ [now]
   in (length kept, dset key kept b))"

definition zset_count :: "string \<Rightarrow> instant \<Rightarrow> instant \<Rightarrow> buckets \<Rightarrow> nat" where
  "zset_count key lo hi b = length (filter (\<lambda>t. lo \<le> t \<and> t \<le> hi) (bucket_of b key))"

section \<open>\<open>RedisWindowCache\<close>\<close>

definition ns_key :: "string \<Rightarrow> string \<Rightarrow> string" where
  "ns_key ns key = ns @ '':'' @ key"

definition rw_hit :: "string \<Rightarrow> string \<Rightarrow> int \<Rightarrow> instant \<Rightarrow> buckets \<Rightarrow> nat \<times> buckets" where
  "rw_hit ns key window now b = zset_hit (ns_key ns key) window now b"

definition rw_count :: "string \<Rightarrow> string \<Rightarrow> int \<Rightarrow> instant \<Rightarrow> buckets \<Rightarrow> nat" where
  "rw_count ns key window now b = zset_count (ns_key ns key) (now - usec window) now b"

definition rw_clear :: "string \<Rightarrow> string \<Rightarrow> buckets \<Rightarrow> buckets" where
  "rw_clear ns pre b = filter (\<lambda>(k, _). \<not> prefix (ns_key ns pre) k) b"

definition rw_keys :: "string \<Rightarrow> string \<Rightarrow> buckets \<Rightarrow> string list" where
  "rw_keys ns pre b = map (drop (length ns + 1)) (filter (prefix (ns_key ns pre)) (map fst b))"

section \<open>It satisfies the interface of a window cache\<close>

text \<open>Every hit that no window so far has left behind is still in the set.\<close>

definition zs_tracks :: "int \<Rightarrow> buckets \<Rightarrow> string \<Rightarrow> instant list \<Rightarrow> bool" where
  "zs_tracks w b k h \<longleftrightarrow> (\<forall>P. (\<forall>t. P t \<longrightarrow> (\<forall>u \<in> set h. u - usec w < t)) \<longrightarrow>
     length (filter P h) \<le> length (filter P (bucket_of b k)))"

lemma length_filter_mono: "(\<And>x. P x \<Longrightarrow> Q x) \<Longrightarrow> length (filter P xs) \<le> length (filter Q xs)"
  by (induction xs) (auto intro: le_SucI)

lemma bucket_of_zset_hit:
  "bucket_of (snd (zset_hit k w now b)) k' =
     (if k' = k then filter (\<lambda>t. \<not> (0 \<le> t \<and> t \<le> now - usec w)) (bucket_of b k) @ [now] else bucket_of b k')"
  by (simp add: zset_hit_def bucket_of_def Let_def)

lemma zs_tracks_hit:
  assumes tr: "zs_tracks w b k h"
  shows "zs_tracks w (snd (zset_hit k w now b)) k (h @ [now])"
  unfolding zs_tracks_def
proof (intro allI impI)
  fix P assume P: "\<forall>t. P t \<longrightarrow> (\<forall>u \<in> set (h @ [now]). u - usec w < t)"
  then have "length (filter P h) \<le> length (filter P (bucket_of b k))"
    using tr by (simp add: zs_tracks_def)
  moreover have "filter P (filter (\<lambda>t. \<not> (0 \<le> t \<and> t \<le> now - usec w)) (bucket_of b k)) = filter P (bucket_of b k)"
    unfolding filter_filter using P by (intro filter_cong) fastforce+
  ultimately show "length (filter P (h @ [now])) \<le> length (filter P (bucket_of (snd (zset_hit k w now b)) k))"
    by (simp add: bucket_of_zset_hit)
qed

lemma zs_tracks_count:
  assumes tr: "zs_tracks w b k h" and le: "\<forall>t \<in> set h. t \<le> now"
  shows "length (filter (\<lambda>t. now - usec w < t) (h @ [now])) \<le> fst (zset_hit k w now b)"
proof -
  have "length (filter (\<lambda>t. now - usec w < t) h) \<le> length (filter (\<lambda>t. now - usec w < t) (bucket_of b k))"
    by (rule tr [unfolded zs_tracks_def, rule_format]) (use le in force)
  also have "\<dots> \<le> length (filter (\<lambda>t. \<not> (0 \<le> t \<and> t \<le> now - usec w)) (bucket_of b k))"
    by (rule length_filter_mono) auto
  finally show ?thesis by (simp add: zset_hit_def Let_def)
qed

interpretation redis_window: window_cache zset_hit zs_tracks "[]"
proof
  show "zs_tracks w [] k []" for w k by (simp add: zs_tracks_def)
  show "zs_tracks w (snd (zset_hit k' w now b)) k h" if "zs_tracks w b k h" "k' \<noteq> k" for w b k h k' now
    using that by (simp add: zs_tracks_def bucket_of_zset_hit)
qed (rule zs_tracks_hit zs_tracks_count, assumption+)+

text \<open>Namespaces keep two caches on one server apart.\<close>

definition rw_tracks :: "string \<Rightarrow> int \<Rightarrow> buckets \<Rightarrow> string \<Rightarrow> instant list \<Rightarrow> bool" where
  "rw_tracks ns w b k h \<longleftrightarrow> zs_tracks w b (ns_key ns k) h"

interpretation redis_cache: window_cache "rw_hit ns" "rw_tracks ns" "[]" for ns
proof
  show "rw_tracks ns w [] k []" for w k by (simp add: rw_tracks_def redis_window.tracks_empty)
  show "rw_tracks ns w (snd (rw_hit ns k' w now b)) k h" if "rw_tracks ns w b k h" "k' \<noteq> k" for w b k h k' now
    using that by (simp add: rw_tracks_def rw_hit_def redis_window.hit_other ns_key_def)
qed (unfold rw_tracks_def rw_hit_def, (rule zs_tracks_hit zs_tracks_count, assumption+)+)

end
