(* ===== verification/Service_Guardrails.thy ===== *)
theory Service_Guardrails
  imports Service_Audit Redis_Windows
begin

text \<open>
  \<open>checkpoint_service/engine/guardrails.py\<close>: the rate limiter (windows in Redis, in the process once
  Redis failed), the circuit breaker and the log-only anomaly detector. The breaker and the detector
  repeat the library's over the service's settings; \<open>config_of\<close> carries the facts over. The subjects are
  opaque ids, which do not contain the prefix of the rate keys.
\<close>

section \<open>Rate limiter\<close>

definition RATE_KEY_PREFIX :: string where
  "RATE_KEY_PREFIX = ''adf:rate:''"

definition svc_limit_for :: "settings \<Rightarrow> string \<Rightarrow> int" where
  "svc_limit_for st act = (if act = ''delegate'' then st_rate_limit_delegate_per_min st
     else st_rate_limit_verify_per_min st)"

definition svc_rate_key :: "string \<Rightarrow> string \<Rightarrow> string" where
  "svc_rate_key act subject_id = RATE_KEY_PREFIX @ act @ '':'' @ subject_id"

text \<open>The count in Redis; \<open>None\<close> when Redis is marked unavailable or fails now.\<close>

definition redis_count :: "svc_env \<Rightarrow> string \<Rightarrow> instant \<Rightarrow> nat option svc" where
  "redis_count E key now = bindP (getsP sv_available) (\<lambda>available.
     if \<not> available then ret None
     else catchP (bindP (redisS E (\<lambda>r. case zset_hit key 60 now (rd_windows r) of (n, b) \<Rightarrow> (n, r\<lparr>rd_windows := b\<rparr>)))
                   (\<lambda>n. ret (Some n)))
            (\<lambda>_. bindP (updP mark_unavailable) (\<lambda>_. ret None)))"

definition local_count :: "string \<Rightarrow> instant \<Rightarrow> nat svc" where
  "local_count key now = bindP (getsP (\<lambda>w. lw_hit key 60 now (sv_rate w))) (\<lambda>(n, b).
     bindP (updP (\<lambda>w. w\<lparr>sv_rate := b\<rparr>)) (\<lambda>_. ret n))"

definition svc_rate_check :: "svc_env \<Rightarrow> string \<Rightarrow> string \<Rightarrow> unit svc" where
  "svc_rate_check E subject_id act = bindP (getsP sv_settings) (\<lambda>st.
     if svc_is_exempt st (Some subject_id) then ret ()
     else bindP (nowS E) (\<lambda>now.
       bindP (redis_count E (svc_rate_key act subject_id) now) (\<lambda>in_redis.
       bindP (case in_redis of Some n \<Rightarrow> ret n | None \<Rightarrow> local_count (svc_rate_key act subject_id) now) (\<lambda>count.
       if svc_limit_for st act < int count then raise (SvcRateLimitExceeded subject_id (svc_limit_for st act) 60)
       else ret ()))))"

definition local_snapshot :: "instant \<Rightarrow> buckets \<Rightarrow> (string, nat) dict" where
  "local_snapshot now b = fold (\<lambda>(key, bucket) out.
     let live = length (filter (\<lambda>ts. now - usec 60 \<le> ts) bucket) in
     if live \<noteq> 0 then dset (drop (length RATE_KEY_PREFIX) key) live out else out) b []"

definition redis_snapshot :: "instant \<Rightarrow> buckets \<Rightarrow> (string, nat) dict" where
  "redis_snapshot now b = fold (\<lambda>key out. dset (drop (length RATE_KEY_PREFIX) key) (zset_count key (now - usec 60) now b) out)
     (filter (prefix RATE_KEY_PREFIX) (map fst b)) []"

definition svc_rate_snapshot :: "svc_env \<Rightarrow> (string, nat) dict svc" where
  "svc_rate_snapshot E = bindP (nowS E) (\<lambda>now. bindP (getsP sv_available) (\<lambda>available.
     if \<not> available then getsP (\<lambda>w. local_snapshot now (sv_rate w))
     else catchP (redisS E (\<lambda>r. (redis_snapshot now (rd_windows r), r)))
       (\<lambda>_. bindP (updP mark_unavailable) (\<lambda>_. getsP (\<lambda>w. local_snapshot now (sv_rate w))))))"

definition svc_rate_reset :: "svc_env \<Rightarrow> unit svc" where
  "svc_rate_reset E = bindP (updP (\<lambda>w. w\<lparr>sv_rate := []\<rparr>)) (\<lambda>_.
     mirrorS E (\<lambda>r. r\<lparr>rd_windows := filter (\<lambda>(k, _). \<not> prefix RATE_KEY_PREFIX k) (rd_windows r)\<rparr>))"

section \<open>Circuit breaker\<close>

definition svc_breaker_record ::
  "settings \<Rightarrow> bool \<Rightarrow> string option \<Rightarrow> bool \<Rightarrow> instant \<Rightarrow> breaker \<Rightarrow> string option \<times> breaker" where
  "svc_breaker_record st error0 subject_id policy_denial now br =
     (if svc_is_exempt st subject_id then (None, br)
      else let
        error = (if policy_denial \<and> \<not> st_circuit_count_policy_denials st then False else error0);
        window = st_circuit_window_seconds st;
        events = pop_old_by fst (now - usec window) (br_events br @ [(now, error)]);
        samples = length events;
        errors = length (filter snd events);
        rate = (if samples \<noteq> 0 then real errors / real samples else 0);
        tripped = (if br_open br then None
          else if st_circuit_min_samples st \<le> int samples \<and> st_circuit_error_rate_threshold st \<le> rate
            then Some (''error_rate '' @ fmt_pct rate @ '' >= threshold ''
              @ fmt_pct (st_circuit_error_rate_threshold st) @ '' over '' @ str_nat samples
              @ '' samples in '' @ str_int window @ ''s'')
          else if st_circuit_volume_ceiling st < int samples
            then Some (''call volume '' @ str_nat samples @ '' exceeded ceiling ''
              @ str_int (st_circuit_volume_ceiling st) @ '' in '' @ str_int window @ ''s'')
          else None);
        br' = br\<lparr>br_events := events\<rparr>
      in (tripped, case tripped of None \<Rightarrow> br'
            | Some _ \<Rightarrow> br'\<lparr>br_open := True, br_opened_at := Some now, br_reason := tripped\<rparr>))"

text \<open>\<open>record\<close> with the callback the container installs; an exception of the callback is swallowed.\<close>

definition circuitS :: "svc_env \<Rightarrow> bool \<Rightarrow> string option \<Rightarrow> bool \<Rightarrow> unit svc" where
  "circuitS E error subject_id policy_denial = bindP (nowS E) (\<lambda>now.
     bindP (getsP (\<lambda>w. svc_breaker_record (sv_settings w) error subject_id policy_denial now (sv_breaker w))) (\<lambda>(tripped, br).
     bindP (updP (\<lambda>w. w\<lparr>sv_breaker := br\<rparr>)) (\<lambda>_.
     case tripped of None \<Rightarrow> ret ()
     | Some why \<Rightarrow> catchP (auditS E (blank_event\<lparr>ev_action := ''circuit_opened'', ev_decision := Some ''deny'',
         ev_reason := Some why,
         ev_detail := Some (JObj [(''break_glass_endpoint'', JStr ''POST /api/v1/admin/circuit/reset'')])\<rparr>))
         (\<lambda>_. ret ()))))"

definition is_open :: "breaker \<Rightarrow> bool" where
  "is_open br = br_open br"

definition circuit_checkS :: "unit svc" where
  "circuit_checkS = bindP (getsP sv_breaker) (\<lambda>br.
     if is_open br then raise (SvcCircuitOpen (str_or (br_reason br) ''circuit_open'')) else ret ())"

record svc_circuit_state = circuit_state +
  cs_volume :: nat

definition svc_breaker_state :: "settings \<Rightarrow> instant \<Rightarrow> breaker \<Rightarrow> svc_circuit_state" where
  "svc_breaker_state st now br = (let cutoff = now - usec (st_circuit_window_seconds st);
     live = filter (\<lambda>(ts, _). cutoff \<le> ts) (br_events br);
     samples = length live; errors = length (filter snd live)
   in \<lparr>cs_open = br_open br, cs_opened_at = br_opened_at br, cs_reason = br_reason br,
       cs_error_rate = (if samples \<noteq> 0 then real errors / real samples else 0),
       cs_samples = samples, cs_errors = errors, cs_volume = samples\<rparr>)"

definition svc_breaker_reset :: "breaker \<Rightarrow> breaker" where
  "svc_breaker_reset br = br\<lparr>br_open := False, br_opened_at := None, br_reason := None, br_events := []\<rparr>"

section \<open>Anomaly detector\<close>

definition svc_interval_finding :: "settings \<Rightarrow> baseline \<Rightarrow> real \<Rightarrow> string list" where
  "svc_interval_finding st bl interval =
     (if st_anomaly_min_baseline_samples st \<le> int (length (bl_intervals bl)) then
        let (mean, std) = mean_std (bl_intervals bl) in
        if is_low_outlier interval mean std (st_anomaly_sigma_threshold st) then
          [''delegation interval '' @ fmt_fixed 3 interval @ ''s is well below baseline mean ''
           @ fmt_fixed 3 mean @ ''s (std '' @ fmt_fixed 3 std @ '')'']
        else []
      else [])"

definition svc_scope_finding :: "settings \<Rightarrow> baseline \<Rightarrow> nat \<Rightarrow> string list" where
  "svc_scope_finding st bl scope_count =
     (if st_anomaly_min_baseline_samples st \<le> int (length (bl_scope_counts bl)) then
        let (mean, std) = mean_std (bl_scope_counts bl) in
        if is_high_outlier (real scope_count) mean std (st_anomaly_sigma_threshold st) then
          [''requested '' @ str_nat scope_count @ '' scopes vs baseline mean '' @ fmt_fixed 2 mean
           @ '' (std '' @ fmt_fixed 2 std @ '') -- sigma above baseline'']
        else []
      else [])"

definition svc_observe_delegation ::
  "settings \<Rightarrow> string \<Rightarrow> nat \<Rightarrow> instant \<Rightarrow> baselines \<Rightarrow> string option \<times> baselines" where
  "svc_observe_delegation st subject_id scope_count now bls = (let
     bl = (case dget bls subject_id of None \<Rightarrow> new_baseline | Some bl \<Rightarrow> bl);
     interval = map_option (\<lambda>t. real_of_int (now - t) / 1000000) (bl_last_seen bl);
     f1 = (case interval of None \<Rightarrow> [] | Some i \<Rightarrow> svc_interval_finding st bl i);
     ints = (case interval of None \<Rightarrow> bl_intervals bl | Some i \<Rightarrow> push100 i (bl_intervals bl));
     findings = f1 @ svc_scope_finding st bl scope_count;
     bl' = bl\<lparr>bl_last_seen := Some now, bl_intervals := ints,
              bl_scope_counts := push100 (real scope_count) (bl_scope_counts bl)\<rparr>
   in (if findings = [] then None else Some (join ''; '' findings), dset subject_id bl' bls))"

definition observeS :: "svc_env \<Rightarrow> string \<Rightarrow> nat \<Rightarrow> string option svc" where
  "observeS E subject_id n = bindP (nowS E) (\<lambda>now.
     bindP (getsP (\<lambda>w. svc_observe_delegation (sv_settings w) subject_id n now (sv_anomaly w))) (\<lambda>(finding, b).
     bindP (updP (\<lambda>w. w\<lparr>sv_anomaly := b\<rparr>)) (\<lambda>_. ret finding)))"

definition svc_anomaly_reset :: "service \<Rightarrow> service" where
  "svc_anomaly_reset w = w\<lparr>sv_anomaly := []\<rparr>"

section \<open>The breaker is the library's\<close>

lemma breaker_record_config_of: "svc_breaker_record st = breaker_record (config_of st)"
  unfolding svc_breaker_record_def breaker_record_def is_exempt_config_of config_of_sel by (rule refl)

lemma breaker_state_config_of: "circuit_state.truncate (svc_breaker_state st now br) = breaker_state (config_of st) now br"
  by (simp add: svc_breaker_state_def breaker_state_def Let_def circuit_state.defs)

section \<open>Rate-limited runs\<close>

text \<open>A run of calls (subject, operation), with the time each call read and whether it was let through.\<close>

fun svc_rate_run :: "svc_env \<Rightarrow> (string \<times> string) list \<Rightarrow> service \<Rightarrow> (string \<times> string \<times> instant \<times> bool) list" where
  "svc_rate_run E [] w = []"
| "svc_rate_run E ((s, act) # calls) w = (case svc_rate_check E s act w of
     (r, w') \<Rightarrow> (s, act, e_clock (se_env E) (sv_tick w), r = Inr ()) # svc_rate_run E calls w')"

text \<open>One check: through Redis if it is usable and answers, else in the process, for good.\<close>

lemma rate_check_redis:
  fixes E act s w
  assumes "\<not> svc_is_exempt (sv_settings w) (Some s)" and "sv_available w" and "se_redis_up E (Suc (sv_tick w))"
  defines "hit \<equiv> zset_hit (svc_rate_key act s) 60 (e_clock (se_env E) (sv_tick w)) (rd_windows (sv_redis w))"
  shows "(fst (svc_rate_check E s act w) = Inr () \<longleftrightarrow> int (fst hit) \<le> svc_limit_for (sv_settings w) act)
    \<and> snd (svc_rate_check E s act w) = w\<lparr>sv_tick := sv_tick w + 2, sv_redis := (sv_redis w)\<lparr>rd_windows := snd hit\<rparr>\<rparr>"
  using assms by (simp add: svc_rate_check_def redis_count_def bindP_def getsP_def nowS_def catchP_def redisS_def ret_def
      raise_def tickS_def split: prod.splits)

lemma rate_check_local:
  fixes E act s w
  assumes "\<not> svc_is_exempt (sv_settings w) (Some s)" and "\<not> (sv_available w \<and> se_redis_up E (Suc (sv_tick w)))"
  defines "hit \<equiv> lw_hit (svc_rate_key act s) 60 (e_clock (se_env E) (sv_tick w)) (sv_rate w)"
  shows "(fst (svc_rate_check E s act w) = Inr () \<longleftrightarrow> int (fst hit) \<le> svc_limit_for (sv_settings w) act)
    \<and> (\<exists>n > sv_tick w. snd (svc_rate_check E s act w) = w\<lparr>sv_tick := n, sv_available := False, sv_rate := snd hit\<rparr>)"
  using assms by (cases w) (auto simp: svc_rate_check_def redis_count_def local_count_def bindP_def getsP_def nowS_def catchP_def redisS_def
      ret_def raise_def updP_def mark_unavailable_def tickS_def split: prod.splits)

lemma rate_check_exempt: "svc_is_exempt (sv_settings w) (Some s) \<Longrightarrow> svc_rate_check E s act w = (Inr (), w)"
  by (simp add: svc_rate_check_def bindP_def getsP_def ret_def)

lemma svc_rate_run_Cons: "svc_rate_run E ((s, act) # calls) w
    = (s, act, e_clock (se_env E) (sv_tick w), fst (svc_rate_check E s act w) = Inr ())
      # svc_rate_run E calls (snd (svc_rate_check E s act w))"
  by (simp split: prod.splits)

lemma passed_Cons: "passed s act lo hi ((s', act', t, ok) # tr)
    = (if ok \<and> s' = s \<and> act' = act \<and> lo < t \<and> t \<le> hi then 1 else 0) + passed s act lo hi tr"
  by (simp add: passed_def)

context window_cache
begin

lemma admitted_Cons: "admitted_in k bud lo hi (admits w ((k', bud', now) # calls) c)
    = (if int (fst (hit k' w now c)) \<le> bud' \<and> k' = k \<and> bud' = bud \<and> lo < now \<and> now \<le> hi then 1 else 0)
      + admitted_in k bud lo hi (admits w calls (snd (hit k' w now c)))"
  by (simp add: admitted_in_def)

end

text \<open>A run splits into calls counted in Redis and calls counted in the process.\<close>

lemma rate_run_split:
  assumes clock: "clock_forward (se_env E)" and "\<not> svc_is_exempt (sv_settings w) (Some s)"
  shows "\<exists>cs1 cs2. sorted (map (\<lambda>x. snd (snd x)) cs1) \<and> sorted (map (\<lambda>x. snd (snd x)) cs2)
    \<and> (\<forall>x \<in> set (cs1 @ cs2). e_clock (se_env E) (sv_tick w) \<le> snd (snd x))
    \<and> (cs1 = [] \<or> sv_available w) \<and> (cs2 = [] \<or> \<not> sv_available w \<or> (\<exists>n. \<not> se_redis_up E n))
    \<and> passed s act lo hi (svc_rate_run E calls w)
       \<le> redis_window.admitted_in (svc_rate_key act s) (svc_limit_for (sv_settings w) act) lo hi
            (redis_window.admits 60 cs1 (rd_windows (sv_redis w)))
         + local_window.admitted_in (svc_rate_key act s) (svc_limit_for (sv_settings w) act) lo hi
            (local_window.admits 60 cs2 (sv_rate w))"
  using assms(2)
proof (induction calls arbitrary: w)
  case Nil
  show ?case by (rule exI [of _ "[]"], rule exI [of _ "[]"]) (simp add: passed_def)
next
  case (Cons call calls)
  obtain s' act' where call: "call = (s', act')" by (cases call) auto
  let ?now = "e_clock (se_env E) (sv_tick w)" and ?st = "sv_settings w"
  let ?call = "(svc_rate_key act' s', svc_limit_for ?st act', ?now)"
  have forward: "?now \<le> e_clock (se_env E) n" if "sv_tick w < n" for n
    using clock that unfolding clock_forward_def by (simp add: monoD)
  show ?case
  proof (cases "svc_is_exempt ?st (Some s')")
    case True
    then have "s' \<noteq> s" using Cons.prems by auto
    then show ?thesis using Cons.IH [OF Cons.prems] by (simp add: call rate_check_exempt [OF True] passed_Cons)
  next
    case not_exempt: False
    show ?thesis
    proof (cases "sv_available w \<and> se_redis_up E (Suc (sv_tick w))")
      case True
      note run = rate_check_redis [OF not_exempt conjunct1 [OF True] conjunct2 [OF True], of act']
      let ?w = "snd (svc_rate_check E s' act' w)"
      have w: "sv_settings ?w = ?st" "sv_available ?w" "sv_rate ?w = sv_rate w" "sv_tick w < sv_tick ?w"
        "rd_windows (sv_redis ?w) = snd (zset_hit (svc_rate_key act' s') 60 ?now (rd_windows (sv_redis w)))"
        using run True by simp_all
      obtain cs1 cs2 where cs: "sorted (map (\<lambda>x. snd (snd x)) cs1)" "sorted (map (\<lambda>x. snd (snd x)) cs2)"
        "\<forall>x \<in> set (cs1 @ cs2). e_clock (se_env E) (sv_tick ?w) \<le> snd (snd x)"
        "cs2 = [] \<or> \<not> sv_available ?w \<or> (\<exists>n. \<not> se_redis_up E n)"
        "passed s act lo hi (svc_rate_run E calls ?w)
           \<le> redis_window.admitted_in (svc_rate_key act s) (svc_limit_for ?st act) lo hi
                (redis_window.admits 60 cs1 (rd_windows (sv_redis ?w)))
             + local_window.admitted_in (svc_rate_key act s) (svc_limit_for ?st act) lo hi
                (local_window.admits 60 cs2 (sv_rate ?w))"
        using Cons.IH [of ?w] Cons.prems unfolding w(1) by auto
      have later: "\<forall>x \<in> set (cs1 @ cs2). ?now \<le> snd (snd x)"
        using cs(3) forward [OF w(4)] by fastforce
      show ?thesis
      proof (rule exI [of _ "?call # cs1"], rule exI [of _ cs2], intro conjI)
        show "passed s act lo hi (svc_rate_run E (call # calls) w)
           \<le> redis_window.admitted_in (svc_rate_key act s) (svc_limit_for ?st act) lo hi
                (redis_window.admits 60 (?call # cs1) (rd_windows (sv_redis w)))
             + local_window.admitted_in (svc_rate_key act s) (svc_limit_for ?st act) lo hi
                (local_window.admits 60 cs2 (sv_rate w))"
          using cs(5) unfolding redis_window.admitted_Cons w(3,5) call svc_rate_run_Cons passed_Cons conjunct1 [OF run]
          by (simp only: split: if_split) auto
      qed (use cs later True w in auto)
    next
      case False
      note run = rate_check_local [OF not_exempt False, of act']
      let ?w = "snd (svc_rate_check E s' act' w)"
      have w: "sv_settings ?w = ?st" "\<not> sv_available ?w" "sv_tick w < sv_tick ?w" "sv_redis ?w = sv_redis w"
        "sv_rate ?w = snd (lw_hit (svc_rate_key act' s') 60 ?now (sv_rate w))"
        using run by auto
      obtain cs2 where cs: "sorted (map (\<lambda>x. snd (snd x)) cs2)"
        "\<forall>x \<in> set cs2. e_clock (se_env E) (sv_tick ?w) \<le> snd (snd x)"
        "passed s act lo hi (svc_rate_run E calls ?w)
           \<le> local_window.admitted_in (svc_rate_key act s) (svc_limit_for ?st act) lo hi
                (local_window.admits 60 cs2 (sv_rate ?w))"
        using Cons.IH [of ?w] Cons.prems w(2) unfolding w(1) by (auto simp: redis_window.admitted_in_def)
      have later: "\<forall>x \<in> set cs2. ?now \<le> snd (snd x)"
        using cs(2) forward [OF w(3)] by fastforce
      show ?thesis
      proof (rule exI [of _ "[]"], rule exI [of _ "?call # cs2"], intro conjI)
        show "passed s act lo hi (svc_rate_run E (call # calls) w)
           \<le> redis_window.admitted_in (svc_rate_key act s) (svc_limit_for ?st act) lo hi
                (redis_window.admits 60 [] (rd_windows (sv_redis w)))
             + local_window.admitted_in (svc_rate_key act s) (svc_limit_for ?st act) lo hi
                (local_window.admits 60 (?call # cs2) (sv_rate w))"
          using cs(3) unfolding local_window.admitted_Cons w(5) call svc_rate_run_Cons passed_Cons conjunct1 [OF run]
          by (simp only: split: if_split) auto
      qed (use cs later False in auto)
    qed
  qed
qed

section \<open>Properties\<close>

text \<open>C34: the service's rate limit through an outage of Redis. Whatever Redis does and however the calls
  of all subjects are spaced and mixed, no 60-second window lets more than the configured number of calls
  of a non-exempt subject pass as long as Redis answers (or never did), and never more than twice that
  when Redis fails on the way and the process goes on with windows of its own.\<close>

theorem svc_rate_limit_survives_outage:
  assumes "clock_forward (se_env E)" and "\<not> svc_is_exempt (sv_settings w) (Some s)"
    and "rd_windows (sv_redis w) = []" and "sv_rate w = []"
  shows "int (passed s act (hi - 60000000) hi (svc_rate_run E calls w))
    \<le> (if sv_available w \<and> (\<exists>n. \<not> se_redis_up E n) then 2 else 1) * max 0 (svc_limit_for (sv_settings w) act)"
proof -
  obtain cs1 cs2 where cs: "sorted (map (\<lambda>x. snd (snd x)) cs1)" "sorted (map (\<lambda>x. snd (snd x)) cs2)"
    "cs1 = [] \<or> sv_available w" "cs2 = [] \<or> \<not> sv_available w \<or> (\<exists>n. \<not> se_redis_up E n)"
    "passed s act (hi - 60000000) hi (svc_rate_run E calls w)
       \<le> redis_window.admitted_in (svc_rate_key act s) (svc_limit_for (sv_settings w) act) (hi - 60000000) hi
            (redis_window.admits 60 cs1 [])
         + local_window.admitted_in (svc_rate_key act s) (svc_limit_for (sv_settings w) act) (hi - 60000000) hi
            (local_window.admits 60 cs2 [])"
    using rate_run_split [OF assms(1,2), of act "hi - 60000000" hi calls] assms(3,4) by auto
  have "hi - usec 60 = hi - 60000000" by (simp add: usec_def)
  with redis_window.admitted_bound [OF cs(1) [folded comp_def], of "svc_rate_key act s" "svc_limit_for (sv_settings w) act" hi 60]
    local_window.admitted_bound [OF cs(2) [folded comp_def], of "svc_rate_key act s" "svc_limit_for (sv_settings w) act" hi 60] cs(3,4,5)
  show ?thesis by (auto simp: redis_window.admitted_in_def local_window.admitted_in_def)
qed

definition demo_svc_env :: svc_env where
  "demo_svc_env = \<lparr>se_env = demo_env (\<lambda>_. None), se_claims = (\<lambda>_. None), se_entry = (\<lambda>_. None), se_commit = (\<lambda>_. True),
     se_widths = True, se_redis_up = (\<lambda>n. n < 3), se_scan = (\<lambda>xs. xs)\<rparr>"

theorem svc_rate_limit_survives_outage_witness:
  "int (passed ''agent'' ''verify'' (60000000 - 60000000) 60000000
     (svc_rate_run demo_svc_env (replicate 5 (''agent'', ''verify''))
       ((new_service (default_settings\<lparr>st_rate_limit_verify_per_min := 1\<rparr>))\<lparr>sv_available := True\<rparr>))) \<le> 2"
  using svc_rate_limit_survives_outage [of demo_svc_env
      "(new_service (default_settings\<lparr>st_rate_limit_verify_per_min := 1\<rparr>))\<lparr>sv_available := True\<rparr>" "''agent''" "''verify''"
      60000000 "replicate 5 (''agent'', ''verify'')"]
  by (simp add: demo_svc_env_def new_service_def empty_redis_def svc_is_exempt_def default_settings_def svc_limit_for_def
      split: if_splits)

text \<open>the documented edge of counting policy denials. With \<open>circuit_count_policy_denials\<close> on (the default
  of the service, unlike the library's), the refusals of one single client open the breaker for every
  client: enough of them within the window do, however the firewall was right to refuse each.\<close>

theorem denials_open_the_breaker:
  assumes "st_circuit_count_policy_denials st" and "\<not> svc_is_exempt st (Some s)"
    and "st_circuit_error_rate_threshold st \<le> 1"
    and "st_circuit_min_samples st \<le> int (length (ts @ [now]))" and "sorted (ts @ [now])"
    and "list_all (\<lambda>t. now - usec (st_circuit_window_seconds st) \<le> t) (ts @ [now])"
  shows "br_open (fold (\<lambda>t br. snd (svc_breaker_record st True (Some s) True t br)) (ts @ [now]) new_breaker)"
proof -
  let ?c = "config_of st" and ?outs = "map (\<lambda>t. (True, Some s, True, t)) ts"
  let ?br = "breaker_run ?c (?outs @ [(True, Some s, True, now)]) new_breaker"
  have eff: "effective ?c (?outs @ [(True, Some s, True, now)]) = map (\<lambda>t. (t, True)) (ts @ [now])"
    using assms(1,2) by (simp add: effective_def comp_def)
  have "sorted (times (?outs @ [(True, Some s, True, now)]))"
    using assms(5) by (simp add: times_def comp_def)
  from breaker_events_after [OF this, where c = ?c] have ev: "br_events ?br = map (\<lambda>t. (t, True)) (ts @ [now])"
    using assms(2,6) unfolding eff by (simp add: list_all_iff filter_map comp_def)
  then have "br_open ?br"
    using assms(2,3,4) unfolding breaker_run_snoc
    by (subst breaker_record_open) (simp_all add: Let_def filter_map comp_def)
  moreover have "?br = fold (\<lambda>t br. snd (svc_breaker_record st True (Some s) True t br)) (ts @ [now]) new_breaker"
    by (simp add: breaker_run_def breaker_record_config_of fold_map comp_def)
  ultimately show ?thesis by simp
qed

theorem denials_open_the_breaker_witness:
  "br_open (fold (\<lambda>t br. snd (svc_breaker_record default_settings True (Some ''mallory'') True t br))
     (replicate 19 0 @ [0]) new_breaker)"
  by (rule denials_open_the_breaker) (simp_all add: default_settings_def svc_is_exempt_def usec_def list_all_iff sorted_append)

end
