(* ===== verification/Service_Revocation.thy ===== *)
theory Service_Revocation
  imports Service_Guardrails
begin

text \<open>
  \<open>checkpoint_service/engine/revocation.py\<close>: revocations and edges in Postgres, mirrored in a Redis cache
  that a readiness sentinel declares complete. A unique-key violation by a transaction still open
  elsewhere is not modelled.
\<close>

section \<open>The store\<close>

definition revoked_in :: "tables \<Rightarrow> string set" where
  "revoked_in t = rv_jti ` set (tb_revocations t)"

definition record_edge :: "svc_env \<Rightarrow> string \<Rightarrow> string \<Rightarrow> unit svc" where
  "record_edge E parent_jti child_jti = bindP (queryS (\<lambda>t. (parent_jti, child_jti) \<in> set (tb_edges t))) (\<lambda>duplicate.
     bindP (if duplicate then updP rollback_tx
            else flushS (\<lambda>t. t\<lparr>tb_edges := tb_edges t @ [(parent_jti, child_jti)]\<rparr>)) (\<lambda>_.
     mirrorS E (\<lambda>r. r\<lparr>rd_edges := insert (parent_jti, child_jti) (rd_edges r)\<rparr>)))"

definition child_query :: "svc_env \<Rightarrow> tables \<Rightarrow> string list \<Rightarrow> string list" where
  "child_query E t level = map snd (filter (\<lambda>x. fst x \<in> set level) (se_scan E (tb_edges t)))"

definition collect_subtree :: "svc_env \<Rightarrow> string \<Rightarrow> string list svc" where
  "collect_subtree E jti = bindP (queryS (\<lambda>t. bfs (child_query E t) jti)) (\<lambda>order.
     case order of None \<Rightarrow> raise SvcDiverges | Some js \<Rightarrow> ret js)"

definition cache_add :: "svc_env \<Rightarrow> string list \<Rightarrow> unit svc" where
  "cache_add E jtis = (if jtis = [] then ret ()
     else mirrorS E (\<lambda>r. r\<lparr>rd_revoked := rd_revoked r \<union> set jtis\<rparr>))"

definition new_revocations :: "string list \<Rightarrow> string \<Rightarrow> string option \<Rightarrow> instant \<Rightarrow> tables \<Rightarrow> tables" where
  "new_revocations targets jti reason now t = t\<lparr>tb_revocations := tb_revocations t @
     map (\<lambda>target. \<lparr>rv_jti = target, rv_revoked_at = now, rv_root = jti, rv_reason = reason\<rparr>)
       (filter (\<lambda>target. target \<notin> revoked_in t) targets)\<rparr>"

definition svc_revoke_subtree :: "svc_env \<Rightarrow> string \<Rightarrow> string option \<Rightarrow> (string list \<times> int) svc" where
  "svc_revoke_subtree E jti reason = bindP (perfS E) (\<lambda>started.
     bindP (collect_subtree E jti) (\<lambda>targets.
     bindP (nowS E) (\<lambda>now.
     bindP (flushS (new_revocations targets jti reason now)) (\<lambda>_.
     bindP (cache_add E targets) (\<lambda>_.
     bindP (perfS E) (\<lambda>ended. ret (targets, ended - started)))))))"

text \<open>\<open>rebuild_cache\<close>: one pipeline, whose last command sets the sentinel.\<close>

definition rebuild_cache :: "svc_env \<Rightarrow> nat svc" where
  "rebuild_cache E = bindP (getsP sv_available) (\<lambda>available.
     if \<not> available then ret 0
     else bindP (queryS tb_revocations) (\<lambda>revoked. bindP (queryS tb_edges) (\<lambda>edges.
       catchP (bindP (redisS E (\<lambda>r. ((), r\<lparr>rd_revoked := rv_jti ` set revoked, rd_edges := rd_edges r \<union> set edges,
                 rd_ready := True\<rparr>))) (\<lambda>_. ret (length revoked)))
         (\<lambda>_. bindP (updP mark_unavailable) (\<lambda>_. ret 0)))))"

text \<open>\<open>is_revoked(jti, session)\<close>; the flag says whether a session was passed.\<close>

definition svc_is_revoked :: "svc_env \<Rightarrow> string \<Rightarrow> bool \<Rightarrow> bool svc" where
  "svc_is_revoked E jti has_session = bindP (getsP sv_available) (\<lambda>available.
     bindP (if \<not> available then ret None
       else catchP (bindP (redisS E (\<lambda>r. (rd_ready r, r))) (\<lambda>ready.
           if ready then bindP (redisS E (\<lambda>r. (jti \<in> rd_revoked r, r))) (\<lambda>b. ret (Some b))
           else if has_session then bindP (rebuild_cache E) (\<lambda>_. bindP (queryS (\<lambda>t. jti \<in> revoked_in t)) (\<lambda>b. ret (Some b)))
           else ret None))
         (\<lambda>_. bindP (updP mark_unavailable) (\<lambda>_. ret None))) (\<lambda>answer.
     case answer of Some b \<Rightarrow> ret b
     | None \<Rightarrow> if has_session then queryS (\<lambda>t. jti \<in> revoked_in t) else raise SvcRuntimeError))"

definition svc_revoked_among :: "string list \<Rightarrow> string set svc" where
  "svc_revoked_among jtis = (if jtis = [] then ret {} else queryS (\<lambda>t. revoked_in t \<inter> set jtis))"

section \<open>The walk\<close>

locale edge_scan =
  fixes E :: svc_env
  assumes scan_set: "set (se_scan E xs) = set xs"

sublocale edge_scan \<subseteq> svc_edges: edge_store "child_query E" "\<lambda>t. set (tb_edges t)"
  by standard (force simp: child_query_def scan_set)+

context edge_scan
begin

lemma collect_total:
  "\<exists>ts. bfs (child_query E t) j = Some ts \<and> distinct ts \<and> set ts = (set (tb_edges t))\<^sup>* `` {j}"
  using svc_edges.walk.bfs_levels [of t j] by blast

end

interpretation insertion_order: edge_scan demo_svc_env
  by standard (simp add: demo_svc_env_def)

lemma edge_scan_backend: "svc_backend_ok E \<Longrightarrow> edge_scan E"
  by (simp add: svc_backend_ok_def edge_scan_def)

lemma revoked_in_new [simp]: "revoked_in (new_revocations ts j reason now t) = revoked_in t \<union> set ts"
  by (auto simp: revoked_in_def new_revocations_def image_Un image_image)

lemma new_revocations_frame [simp]:
  "tb_tokens (new_revocations ts j reason now t) = tb_tokens t" "tb_edges (new_revocations ts j reason now t) = tb_edges t"
  "tb_approvals (new_revocations ts j reason now t) = tb_approvals t"
  "tb_subjects (new_revocations ts j reason now t) = tb_subjects t"
  by (simp_all add: new_revocations_def)

section \<open>The cache\<close>

text \<open>What a process may rely on: while it uses Redis, a cache with the sentinel holds every committed
  revocation.\<close>

definition cache_ok :: "service \<Rightarrow> bool" where
  "cache_ok w \<longleftrightarrow> \<not> sv_available w \<or> \<not> rd_ready (sv_redis w) \<or> revoked_in (sv_db w) \<subseteq> rd_revoked (sv_redis w)"

text \<open>Only the Redis side, the flag and the counter change.\<close>

definition redis_only :: "service \<Rightarrow> service \<Rightarrow> bool" where
  "redis_only w t \<longleftrightarrow> (\<exists>r a n. t = w\<lparr>sv_redis := r, sv_available := a, sv_tick := n\<rparr> \<and> sv_tick w \<le> n)"

lemma redis_only_refl [simp]: "redis_only w w"
  unfolding redis_only_def by (rule exI [of _ "sv_redis w"], rule exI [of _ "sv_available w"], rule exI [of _ "sv_tick w"]) simp

lemma redis_onlyD:
  "redis_only w t \<Longrightarrow> sv_settings t = sv_settings w \<and> sv_db t = sv_db w \<and> sv_tx t = sv_tx w \<and> sv_audit t = sv_audit w
    \<and> sv_buffer t = sv_buffer w \<and> sv_tail t = sv_tail w \<and> sv_rate t = sv_rate w \<and> sv_breaker t = sv_breaker w
    \<and> sv_anomaly t = sv_anomaly w \<and> sv_tick w \<le> sv_tick t"
  by (auto simp: redis_only_def)

text \<open>With a session \<open>is_revoked\<close> always answers; the answer is yes for every committed revocation, and a
  yes comes from the tables or from a cache with the sentinel.\<close>

lemma wp_is_revoked:
  assumes "cache_ok w" and "revoked_in (sv_db w) \<subseteq> revoked_in (sv_tx w)"
    and "\<And>b t. redis_only w t \<Longrightarrow> cache_ok t \<Longrightarrow> (j \<in> revoked_in (sv_db w) \<Longrightarrow> b) \<Longrightarrow>
        (b \<Longrightarrow> j \<in> revoked_in (sv_tx w) \<or> j \<in> rd_revoked (sv_redis w)) \<Longrightarrow> Q b t"
  shows "wp (svc_is_revoked E j True) Q X w"
  using assms(1,2)
  by (cases w) (auto simp: svc_is_revoked_def rebuild_cache_def wp_simps tickS_def mark_unavailable_def cache_ok_def revoked_in_def redis_only_def
      intro!: assms(3))

section \<open>Properties\<close>

text \<open>A read-only request of another thread or process, on a session of its own.\<close>

definition other_session :: "'a svc \<Rightarrow> 'a svc" where
  "other_session m w = (case m (begin_tx w) of (r, t) \<Rightarrow> (r, t\<lparr>sv_tx := sv_tx w\<rparr>))"

lemmas run_defs = bindP_def getsP_def updP_def ret_def raise_def catchP_def queryS_def flushS_def perfS_def nowS_def
  redisS_def mirrorS_def tickS_def mark_unavailable_def begin_tx_def commit_tx_def

lemma collect_subtree_run:
  assumes "\<forall>xs. set (se_scan E xs) = set xs"
  obtains ts where "\<And>w. sv_tx w = t \<Longrightarrow> collect_subtree E j w = (Inr ts, w)" and "set ts = (set (tb_edges t))\<^sup>* `` {j}"
    and "j \<in> set ts" and "ts \<noteq> []"
proof -
  have "edge_scan E" using assms by (simp add: edge_scan_def)
  from edge_scan.collect_total [OF this]
  obtain ts where "bfs (child_query E t) j = Some ts" "set ts = (set (tb_edges t))\<^sup>* `` {j}" by blast
  then show thesis by (intro that [of ts]) (auto simp: collect_subtree_def run_defs)
qed

text \<open>C35: the cache can lose a revocation for good. \<open>revoke_subtree\<close> adds the tokens to the cache before the
  request commits; if another request rebuilds the cache from the committed rows in between (it does when
  it finds no sentinel, and every process does at its start), the revocation is committed afterwards, but
  the cache, sentinel and all, does not hold it: with Redis up the revoked token is reported as not revoked.\<close>

theorem rebuild_race_fails_open:
  fixes E w j reason
  defines "w1 \<equiv> snd (svc_revoke_subtree E j reason (begin_tx w))"
  defines "w2 \<equiv> snd (other_session (rebuild_cache E) w1)"
  assumes "\<forall>xs. set (se_scan E xs) = set xs" and "\<forall>n. se_redis_up E n"
    and "sv_available w" and "j \<notin> revoked_in (sv_db w)"
  shows "j \<in> revoked_in (sv_db (commit_tx w2))
    \<and> fst (svc_is_revoked E j True (begin_tx (commit_tx w2))) = Inr False"
proof -
  obtain ts where ts: "\<And>u. sv_tx u = sv_db w \<Longrightarrow> collect_subtree E j u = (Inr ts, u)" "j \<in> set ts" "ts \<noteq> []"
    using collect_subtree_run [OF assms(3)] by metis
  have w1: "sv_tx w1 = new_revocations ts j reason (e_clock (se_env E) (Suc (sv_tick w))) (sv_db w)" "sv_db w1 = sv_db w"
    "sv_available w1"
    using assms(4,5) by (simp_all add: w1_def svc_revoke_subtree_def cache_add_def run_defs ts)
  then have w2: "sv_tx w2 = sv_tx w1" "sv_available w2" "rd_ready (sv_redis w2)" "j \<notin> rd_revoked (sv_redis w2)"
    using assms(4,6) by (simp_all add: w2_def other_session_def rebuild_cache_def run_defs revoked_in_def)
  then show ?thesis
    using assms(4) w1 ts(2) by (simp add: svc_is_revoked_def run_defs)
qed

theorem rebuild_race_fails_open_witness:
  "\<exists>w2 :: service. ''r'' \<in> revoked_in (sv_db (commit_tx w2))
     \<and> fst (svc_is_revoked (demo_svc_env\<lparr>se_redis_up := (\<lambda>_. True)\<rparr>) ''r'' True (begin_tx (commit_tx w2))) = Inr False"
proof -
  let ?E = "demo_svc_env\<lparr>se_redis_up := (\<lambda>_. True)\<rparr>" and ?w = "(new_service default_settings)\<lparr>sv_available := True\<rparr>"
  have "\<forall>xs. set (se_scan ?E xs) = set xs" "\<forall>n. se_redis_up ?E n" "sv_available ?w" "''r'' \<notin> revoked_in (sv_db ?w)"
    by (simp_all add: demo_svc_env_def new_service_def empty_tables_def revoked_in_def)
  from rebuild_race_fails_open [OF this] show ?thesis by blast
qed

text \<open>Degrading is private to a process. When the write to the cache fails, the revoking process falls
  back to the tables and answers right; another process, which still trusts the cache and its sentinel,
  reports the token as not revoked as soon as Redis answers again.\<close>

theorem failed_mirror_hides_revocation:
  fixes E w j reason
  defines "w1 \<equiv> commit_tx (snd (svc_revoke_subtree E j reason (begin_tx w)))"
  assumes "\<forall>xs. set (se_scan E xs) = set xs" and "\<forall>n. se_redis_up E n = (n \<noteq> sv_tick w + 2)"
    and "sv_available w" and "rd_ready (sv_redis w)" and "j \<notin> rd_revoked (sv_redis w)"
  shows "j \<in> revoked_in (sv_db w1) \<and> fst (svc_is_revoked E j True (begin_tx w1)) = Inr True
    \<and> fst (svc_is_revoked E j True (begin_tx (w1\<lparr>sv_available := True\<rparr>))) = Inr False"
proof -
  obtain ts where ts: "\<And>u. sv_tx u = sv_db w \<Longrightarrow> collect_subtree E j u = (Inr ts, u)" "j \<in> set ts" "ts \<noteq> []"
    using collect_subtree_run [OF assms(2)] by metis
  have "sv_db w1 = new_revocations ts j reason (e_clock (se_env E) (Suc (sv_tick w))) (sv_db w)"
    "\<not> sv_available w1" "sv_redis w1 = sv_redis w" "sv_tick w + 2 < sv_tick w1"
    using assms(3,4) by (simp_all add: w1_def svc_revoke_subtree_def cache_add_def run_defs ts)
  then show ?thesis
    using assms(3,5,6) ts(2) by (simp add: svc_is_revoked_def run_defs)
qed

theorem failed_mirror_hides_revocation_witness:
  "\<exists>w1 :: service. ''r'' \<in> revoked_in (sv_db w1)
     \<and> fst (svc_is_revoked (demo_svc_env\<lparr>se_redis_up := (\<lambda>n. n \<noteq> 2)\<rparr>) ''r'' True (begin_tx (w1\<lparr>sv_available := True\<rparr>))) = Inr False"
proof -
  let ?E = "demo_svc_env\<lparr>se_redis_up := (\<lambda>n. n \<noteq> 2)\<rparr>"
    and ?w = "(new_service default_settings)\<lparr>sv_available := True, sv_redis := empty_redis\<lparr>rd_ready := True\<rparr>\<rparr>"
  have "\<forall>xs. set (se_scan ?E xs) = set xs" "\<forall>n. se_redis_up ?E n = (n \<noteq> sv_tick ?w + 2)" "sv_available ?w"
    "rd_ready (sv_redis ?w)" "''r'' \<notin> rd_revoked (sv_redis ?w)"
    by (simp_all add: demo_svc_env_def new_service_def empty_redis_def numeral_2_eq_2)
  from failed_mirror_hides_revocation [OF this] show ?thesis by blast
qed

end
