(* ===== verification/Service_Tokens.thy ===== *)
theory Service_Tokens
  imports Service_Revocation Agp_Tokens
begin

text \<open>
  \<open>checkpoint_service/engine/token_engine.py\<close>, \<open>engine/subjects.py\<close> and the scope validator of
  \<open>models/token.py\<close>. The claim set has the fields of the library's (\<open>claims\<close>, \<open>chain_entry\<close>), and
  \<open>model_dump\<close> of it is \<open>to_payload\<close>; reading one back is pydantic's \<open>se_claims\<close>.
\<close>

section \<open>Scopes of a request\<close>

text \<open>The loop of \<open>_normalise_scopes\<close>; \<open>None\<close> is its \<open>ValueError\<close>.\<close>

fun clean_scopes :: "string list \<Rightarrow> string list \<Rightarrow> string list option" where
  "clean_scopes cleaned [] = Some cleaned"
| "clean_scopes cleaned (s # ss) = (let scope = strip s in
     if scope = '''' then None
     else if scope \<notin> set cleaned then clean_scopes (cleaned @ [scope]) ss
     else clean_scopes cleaned ss)"

definition normalise_scopes :: "string list \<Rightarrow> string list option" where
  "normalise_scopes v = map_option sort (clean_scopes [] v)"

lemma clean_scopes_None: "clean_scopes cleaned ss = None \<longleftrightarrow> '''' \<in> strip ` set ss"
  by (induction cleaned ss rule: clean_scopes.induct) (auto simp: Let_def)

lemma clean_scopes_Some:
  "clean_scopes cleaned ss = Some ys \<Longrightarrow> distinct cleaned \<Longrightarrow> distinct ys \<and> set ys = set cleaned \<union> strip ` set ss"
  by (induction cleaned ss rule: clean_scopes.induct) (auto simp: Let_def split: if_splits)

section \<open>The token engine\<close>

record minted_token =
  mt_token :: string
  mt_claims :: claims

definition mt_jti :: "minted_token \<Rightarrow> string" where
  "mt_jti m = c_jti (mt_claims m)"

definition claims_expires_at :: "claims \<Rightarrow> instant" where
  "claims_expires_at c = from_ts (c_exp c)"

definition expires_at_iso :: "minted_token \<Rightarrow> string" where
  "expires_at_iso m = iso (claims_expires_at (mt_claims m))"

definition svc_encode :: "svc_env \<Rightarrow> settings \<Rightarrow> claims \<Rightarrow> string" where
  "svc_encode E st c = e_jwt_encode (se_env E) (to_payload c) (st_jwt_secret st) (st_jwt_algorithm st)"

definition minted_of :: "svc_env \<Rightarrow> settings \<Rightarrow> claims \<Rightarrow> minted_token" where
  "minted_of E st c = \<lparr>mt_token = svc_encode E st c, mt_claims = c\<rparr>"

definition root_claims :: "settings \<Rightarrow> string \<Rightarrow> int \<Rightarrow> string \<Rightarrow> string list \<Rightarrow> int \<Rightarrow> int \<Rightarrow> claims" where
  "root_claims st jti now subject_id scopes ttl_seconds max_depth =
     \<lparr>c_jti = jti, c_sub = subject_id, c_iss = st_issuer st, c_issued_for = subject_id, c_scopes = sorted_set scopes,
      c_depth = 0, c_max_depth = max_depth, c_iat = now, c_exp = now + ttl_seconds, c_root_jti = jti,
      c_delegation_chain = [], c_approval_required = False, c_approved_by = None\<rparr>"

definition mint_rootS :: "svc_env \<Rightarrow> string \<Rightarrow> string list \<Rightarrow> int \<Rightarrow> int \<Rightarrow> minted_token svc" where
  "mint_rootS E subject_id scopes ttl_seconds max_depth = bindP (uuidS E) (\<lambda>jti. bindP (now_tsS E) (\<lambda>now.
     getsP (\<lambda>w. minted_of E (sv_settings w) (root_claims (sv_settings w) jti now subject_id scopes ttl_seconds max_depth))))"

definition svc_chain_entry_for :: "instant \<Rightarrow> claims \<Rightarrow> chain_entry" where
  "svc_chain_entry_for now c = \<lparr>ce_agent_id = c_sub c, ce_jti = c_jti c, ce_scopes = sorted_set (c_scopes c), ce_ts = iso now\<rparr>"

definition child_claims ::
  "settings \<Rightarrow> string \<Rightarrow> int \<Rightarrow> instant \<Rightarrow> claims \<Rightarrow> string \<Rightarrow> string list \<Rightarrow> int \<Rightarrow> bool \<Rightarrow> string option \<Rightarrow> claims" where
  "child_claims st jti now now' parent child_subject_id scopes expiry approval_required approved_by =
     \<lparr>c_jti = jti, c_sub = child_subject_id, c_iss = st_issuer st, c_issued_for = ''agent:'' @ c_jti parent,
      c_scopes = sorted_set scopes, c_depth = c_depth parent + 1, c_max_depth = c_max_depth parent, c_iat = now,
      c_exp = expiry, c_root_jti = c_root_jti parent,
      c_delegation_chain = c_delegation_chain parent @ [svc_chain_entry_for now' parent],
      c_approval_required = approval_required, c_approved_by = approved_by\<rparr>"

definition mint_childS ::
  "svc_env \<Rightarrow> claims \<Rightarrow> string \<Rightarrow> string list \<Rightarrow> int \<Rightarrow> bool \<Rightarrow> string option \<Rightarrow> minted_token svc" where
  "mint_childS E parent child_subject_id scopes expiry approval_required approved_by =
     bindP (now_tsS E) (\<lambda>now. bindP (nowS E) (\<lambda>now'. bindP (uuidS E) (\<lambda>jti.
       getsP (\<lambda>w. minted_of E (sv_settings w) (child_claims (sv_settings w) jti now now' parent child_subject_id scopes
         expiry approval_required approved_by)))))"

fun svc_jwt_reason :: "jwt_error \<Rightarrow> string" where
  "svc_jwt_reason ExpiredSignatureError = REASON_EXPIRED"
| "svc_jwt_reason InvalidSignatureError = REASON_INVALID_SIGNATURE"
| "svc_jwt_reason DecodeError = REASON_INVALID_SIGNATURE"
| "svc_jwt_reason OtherInvalidTokenError = REASON_MALFORMED"

definition svc_decode :: "svc_env \<Rightarrow> settings \<Rightarrow> instant \<Rightarrow> string \<Rightarrow> bool \<Rightarrow> string + claims" where
  "svc_decode E st now token verify_exp = (case e_jwt_decode (se_env E) token (st_jwt_secret st) (st_jwt_algorithm st)
       (st_issuer st) verify_exp [''jti'', ''sub'', ''exp'', ''iat''] now of
     Inl x \<Rightarrow> Inl (svc_jwt_reason x)
   | Inr payload \<Rightarrow> (case se_claims E payload of None \<Rightarrow> Inl REASON_MALFORMED | Some c \<Rightarrow> Inr c))"

definition decodeS :: "svc_env \<Rightarrow> string \<Rightarrow> claims svc" where
  "decodeS E token w = (case svc_decode E (sv_settings w) (e_clock (se_env E) (sv_tick w)) token False of
     Inl reason \<Rightarrow> (Inl (SvcTokenError reason), tickS w) | Inr c \<Rightarrow> (Inr c, tickS w))"

lemma wp_decodeS [wp_simps]: "wp (decodeS E token) Q X w =
    (case svc_decode E (sv_settings w) (e_clock (se_env E) (sv_tick w)) token False of
       Inl reason \<Rightarrow> X (SvcTokenError reason) (tickS w) | Inr c \<Rightarrow> Q c (tickS w))"
  by (simp add: wp_def decodeS_def split: sum.splits)

lemma wp_mint_rootS [wp_simps]: "wp (mint_rootS E sub scopes ttl md) Q X w =
    Q (minted_of E (sv_settings w) (root_claims (sv_settings w) (e_uuid4 (se_env E) (sv_tick w))
         (ts_of (e_clock (se_env E) (Suc (sv_tick w)))) sub scopes ttl md)) (tickS (tickS w))"
  by (simp add: mint_rootS_def wp_simps)

lemma wp_mint_childS [wp_simps]: "wp (mint_childS E parent sub scopes x appr by_whom) Q X w =
    Q (minted_of E (sv_settings w) (child_claims (sv_settings w) (e_uuid4 (se_env E) (sv_tick w + 2))
         (ts_of (e_clock (se_env E) (sv_tick w))) (e_clock (se_env E) (Suc (sv_tick w))) parent sub scopes x appr by_whom))
      (tickS (tickS (tickS w)))"
  by (simp add: mint_childS_def wp_simps)

lemma minted_of_simps [simp]: "mt_claims (minted_of E st c) = c" "mt_token (minted_of E st c) = svc_encode E st c"
  "mt_jti (minted_of E st c) = c_jti c"
  by (simp_all add: minted_of_def mt_jti_def)

text \<open>A token the engine minted decodes to the claims it was minted with.\<close>

lemma svc_decode_encode:
  assumes "jwt_roundtrip (se_env E) (st_jwt_secret st) (st_jwt_algorithm st) (to_payload c)"
    and "svc_backend_ok E" and "c_iss c = st_issuer st" and "from_ts (c_iat c) \<le> now"
  shows "svc_decode E st now (svc_encode E st c) False = Inr c"
proof -
  have "json_get (to_payload c) ''iss'' = Some (JStr (c_iss c))" "json_get (to_payload c) ''iat'' = Some (JInt (c_iat c))"
    and "\<forall>r \<in> set [''jti'', ''sub'', ''exp'', ''iat'']. json_get (to_payload c) r \<noteq> None"
    by (simp_all add: to_payload_def json_get_def)
  moreover have "1000000 * c_iat c \<le> now" using assms(4) by (simp add: from_ts_def)
  ultimately have "e_jwt_decode (se_env E) (svc_encode E st c) (st_jwt_secret st) (st_jwt_algorithm st) (st_issuer st) False
      [''jti'', ''sub'', ''exp'', ''iat''] now = Inr (to_payload c)"
    using assms(1,3) unfolding jwt_roundtrip_def svc_encode_def by metis
  then show ?thesis using assms(2) by (simp add: svc_decode_def svc_backend_ok_def)
qed

section \<open>The subject registry\<close>

definition find_subject_row :: "string \<Rightarrow> string \<Rightarrow> subject list \<Rightarrow> subject option" where
  "find_subject_row digest kind rows = List.find (\<lambda>s. sj_identifier_hash s = digest \<and> sj_kind s = kind) rows"

definition add_subjects :: "subject list \<Rightarrow> tables \<Rightarrow> tables" where
  "add_subjects rows t = t\<lparr>tb_subjects := tb_subjects t @ rows\<rparr>"

definition note_exempt :: "string \<Rightarrow> string \<Rightarrow> unit svc" where
  "note_exempt identifier subject_id =
     updP (\<lambda>w. w\<lparr>sv_settings := svc_register_exempt_subject identifier subject_id (sv_settings w)\<rparr>)"

text \<open>The rows \<open>others\<close> are committed by other connections between the lookup and the insertion.\<close>

definition resolve_or_create :: "svc_env \<Rightarrow> subject list \<Rightarrow> string \<Rightarrow> string \<Rightarrow> subject svc" where
  "resolve_or_create E others identifier kind =
     (if kind \<notin> {''human'', ''agent''} then raise SvcValueError
      else bindP (getsP (\<lambda>w. hash_identifier (se_env E) identifier (st_pii_salt (sv_settings w)))) (\<lambda>digest.
        bindP (queryS (\<lambda>t. find_subject_row digest kind (tb_subjects t))) (\<lambda>existing.
        case existing of
          Some s \<Rightarrow> bindP (note_exempt identifier (sj_subject_id s)) (\<lambda>_. ret s)
        | None \<Rightarrow> bindP (uuidS E) (\<lambda>uuid. bindP (nowS E) (\<lambda>now.
            let record = \<lparr>sj_subject_id = kind @ '':'' @ uuid, sj_identifier_hash = digest, sj_kind = kind,
                  sj_display_label = identifier, sj_created_at = now\<rparr> in
            bindP (updP (\<lambda>w. w\<lparr>sv_db := add_subjects others (sv_db w), sv_tx := add_subjects others (sv_tx w)\<rparr>)) (\<lambda>_.
            if find_subject_row digest kind others \<noteq> None then
              bindP (updP rollback_tx) (\<lambda>_.
              bindP (queryS (\<lambda>t. find_subject_row digest kind (tb_subjects t))) (\<lambda>found.
              case found of None \<Rightarrow> raise SvcIntegrityError
              | Some s \<Rightarrow> bindP (note_exempt identifier (sj_subject_id s)) (\<lambda>_. ret s)))
            else bindP (flushS (add_subjects [record])) (\<lambda>_.
              bindP (note_exempt identifier (sj_subject_id record)) (\<lambda>_. ret record))))))))"

definition label_for :: "string \<Rightarrow> string option svc" where
  "label_for subject_id = queryS (\<lambda>t. map_option sj_display_label
     (List.find (\<lambda>s. sj_subject_id s = subject_id) (tb_subjects t)))"

definition labels_for :: "string list \<Rightarrow> (string, string) dict svc" where
  "labels_for subject_ids = (if subject_ids = [] then ret [] else queryS (\<lambda>t.
     fold (\<lambda>s out. dset (sj_subject_id s) (sj_display_label s) out)
       (filter (\<lambda>s. sj_subject_id s \<in> set subject_ids) (tb_subjects t)) []))"

section \<open>Properties\<close>

text \<open>C39: the scopes of a request are put in canonical form. The validator refuses a list exactly when one of
  its scopes is blank; otherwise the result is strictly ascending and holds exactly the stripped scopes.\<close>

theorem normalise_scopes_canonical:
  "case normalise_scopes v of None \<Rightarrow> '''' \<in> strip ` set v
   | Some ys \<Rightarrow> '''' \<notin> strip ` set v \<and> set ys = strip ` set v \<and> sorted ys \<and> distinct ys"
proof (cases "clean_scopes [] v")
  case None
  then show ?thesis using clean_scopes_None [of "[]" v] by (simp add: normalise_scopes_def)
next
  case (Some ys)
  then show ?thesis
    using clean_scopes_Some [OF Some] clean_scopes_None [of "[]" v] by (auto simp: normalise_scopes_def)
qed

end
