(* ===== verification/Service_Engine.thy ===== *)
theory Service_Engine
  imports Service_Tokens
begin

text \<open>
  \<open>checkpoint_service/engine/delegation_engine.py\<close>: the enforcement checkpoint, every method a program on
  the service. A method only flushes; its request commits (\<open>session_scope\<close>). Audit rows are committed at
  once. The concurrent insertion of a subject (\<open>others\<close> of \<open>resolve_or_create\<close>) does not occur within one
  request at a time.
\<close>

section \<open>Results\<close>

record verify_outcome =
  vo_valid :: bool
  vo_reason :: "string option"
  vo_claims :: "claims option"
  vo_latency_us :: int

record pending_created =
  pc_approval_id :: string
  pc_requested_scopes :: "string list"
  pc_sensitive_scopes :: "string list"
  pc_expires_at :: string

datatype delegate_result = Minted minted_token | PendingApprovalCreated pending_created

section \<open>Internals\<close>

fun any_revokedS :: "svc_env \<Rightarrow> string list \<Rightarrow> bool svc" where
  "any_revokedS E [] = ret False"
| "any_revokedS E (j # js) = bindP (svc_is_revoked E j True) (\<lambda>b. if b then ret True else any_revokedS E js)"

definition decode_live_parent :: "svc_env \<Rightarrow> string \<Rightarrow> claims svc" where
  "decode_live_parent E parent_token =
     bindP (catchP (decodeS E parent_token) (\<lambda>x. case x of SvcTokenError reason \<Rightarrow> raise (SvcParentTokenInvalid reason)
       | _ \<Rightarrow> raise x)) (\<lambda>claims.
     bindP (now_tsS E) (\<lambda>now.
     if c_exp claims < now then raise (SvcParentTokenInvalid REASON_EXPIRED)
     else bindP (any_revokedS E (c_jti claims # map ce_jti (c_delegation_chain claims))) (\<lambda>dead.
       if dead then raise (SvcParentTokenInvalid REASON_REVOKED) else ret claims)))"

definition svc_assert_root_alive :: "svc_env \<Rightarrow> claims \<Rightarrow> unit svc" where
  "svc_assert_root_alive E parent = bindP (queryS (\<lambda>t. dget (tb_tokens t) (c_root_jti parent))) (\<lambda>found.
     case found of
       None \<Rightarrow> raise (SvcRootChainBroken ''chain does not terminate at a known root token'')
     | Some m \<Rightarrow>
         if tm_depth m \<noteq> 0 then raise (SvcRootChainBroken ''chain root is not a depth-0 token'')
         else bindP (nowS E) (\<lambda>now.
           if tm_expires_at m < now then raise (SvcRootChainBroken ''root token has expired'')
           else bindP (svc_is_revoked E (c_root_jti parent) True) (\<lambda>b.
             if b then raise (SvcRootChainBroken ''root token has been revoked'') else ret ())))"

definition svc_meta_of :: "claims \<Rightarrow> string option \<Rightarrow> token_metadata" where
  "svc_meta_of c parent_jti = \<lparr>tm_jti = c_jti c, tm_subject_id = c_sub c, tm_parent_jti = parent_jti,
     tm_root_jti = c_root_jti c, tm_depth = c_depth c, tm_max_depth = c_max_depth c, tm_scopes = c_scopes c,
     tm_delegation_chain = map entry_to_dict (c_delegation_chain c), tm_issued_at = from_ts (c_iat c),
     tm_expires_at = from_ts (c_exp c), tm_approval_required = c_approval_required c,
     tm_approved_by = c_approved_by c\<rparr>"

text \<open>A second row with the same primary key violates the constraint.\<close>

definition svc_persist_token :: "minted_token \<Rightarrow> string option \<Rightarrow> unit svc" where
  "svc_persist_token minted parent_jti = bindP (queryS (\<lambda>t. dget (tb_tokens t) (mt_jti minted))) (\<lambda>old.
     if old \<noteq> None then raise SvcIntegrityError
     else flushS (\<lambda>t. t\<lparr>tb_tokens := dset (mt_jti minted) (svc_meta_of (mt_claims minted) parent_jti) (tb_tokens t)\<rparr>))"

definition claims_from_record :: "svc_env \<Rightarrow> settings \<Rightarrow> token_metadata \<Rightarrow> claims option" where
  "claims_from_record E st m = map_option (\<lambda>chain. \<lparr>c_jti = tm_jti m, c_sub = tm_subject_id m, c_iss = st_issuer st,
       c_issued_for = (case tm_parent_jti m of None \<Rightarrow> tm_subject_id m | Some p \<Rightarrow> ''agent:'' @ p),
       c_scopes = tm_scopes m, c_depth = tm_depth m, c_max_depth = tm_max_depth m,
       c_iat = ts_of (tm_issued_at m), c_exp = ts_of (tm_expires_at m), c_root_jti = tm_root_jti m,
       c_delegation_chain = chain, c_approval_required = tm_approval_required m,
       c_approved_by = tm_approved_by m\<rparr>) (those (map (se_entry E) (tm_delegation_chain m)))"

definition store_approval :: "pending_approval \<Rightarrow> unit svc" where
  "store_approval record = flushS (\<lambda>t. t\<lparr>tb_approvals := dset (pa_approval_id record) record (tb_approvals t)\<rparr>)"

section \<open>Minting\<close>

definition svc_mint_root :: "svc_env \<Rightarrow> string \<Rightarrow> string list \<Rightarrow> int \<Rightarrow> int option \<Rightarrow> minted_token svc" where
  "svc_mint_root E human_id scopes ttl_seconds max_depth =
     bindP (resolve_or_create E [] human_id ''human'') (\<lambda>subject.
     bindP (getsP sv_settings) (\<lambda>st.
     let effective_depth = (case max_depth of Some d \<Rightarrow> if d \<noteq> 0 then d else st_max_delegation_depth st
           | None \<Rightarrow> st_max_delegation_depth st);
         ttl = min ttl_seconds (st_max_ttl_seconds st) in
     bindP (mint_rootS E (sj_subject_id subject) scopes ttl effective_depth) (\<lambda>minted.
     bindP (svc_persist_token minted None) (\<lambda>_.
     bindP (auditS E (blank_event\<lparr>ev_action := ''root_token_minted'', ev_actor_id := Some (sj_subject_id subject),
       ev_actor_hash := Some (sj_identifier_hash subject), ev_jti := Some (mt_jti minted),
       ev_root_jti := Some (mt_jti minted), ev_scopes := Some (c_scopes (mt_claims minted)), ev_depth := Some 0,
       ev_decision := Some ''allow'',
       ev_detail := Some (JObj [(''ttl_seconds'', JInt ttl), (''max_depth'', JInt effective_depth)])\<rparr>)) (\<lambda>_.
     ret minted)))))"

text \<open>The approval gate of a sensitive delegation.\<close>

definition create_pending_approval :: "svc_env \<Rightarrow> claims \<Rightarrow> string \<Rightarrow> string list \<Rightarrow> int \<Rightarrow> pending_created svc" where
  "create_pending_approval E parent child_agent_id requested_scopes ttl_seconds =
     bindP (getsP (\<lambda>w. sort (filter (\<lambda>s. s \<in> st_sensitive_scopes (sv_settings w)) requested_scopes))) (\<lambda>sensitive.
     bindP (resolve_or_create E [] child_agent_id ''agent'') (\<lambda>child_subject.
     bindP (uuidS E) (\<lambda>approval_id.
     bindP (now_tsS E) (\<lambda>now_ts.
     bindP (getsP (\<lambda>w. min (now_ts + st_approval_timeout_seconds (sv_settings w)) (c_exp parent))) (\<lambda>expires_at.
     bindP (nowS E) (\<lambda>created.
     bindP (queryS (\<lambda>t. dget (tb_approvals t) approval_id)) (\<lambda>old.
     if old \<noteq> None then raise SvcIntegrityError else
     bindP (store_approval \<lparr>pa_approval_id = approval_id, pa_parent_jti = c_jti parent,
         pa_parent_subject_id = c_sub parent, pa_child_agent_id = child_agent_id,
         pa_child_subject_id = sj_subject_id child_subject, pa_requested_scopes = requested_scopes,
         pa_sensitive_scopes = sensitive, pa_ttl_seconds = ttl_seconds, pa_parent_exp = c_exp parent,
         pa_status = ''pending'', pa_created_at = created, pa_expires_at = from_ts expires_at,
         pa_decided_at = None, pa_approved_by = None, pa_child_jti = None, pa_child_token = None,
         pa_collected = False\<rparr>) (\<lambda>_.
     bindP (auditS E (blank_event\<lparr>ev_action := ''approval_pending'', ev_actor_id := Some (c_sub parent),
       ev_parent_jti := Some (c_jti parent), ev_root_jti := Some (c_root_jti parent),
       ev_scopes := Some requested_scopes, ev_decision := Some ''pending'',
       ev_reason := Some (''sensitive scopes require human approval: '' @ py_repr (json_strs sensitive)),
       ev_depth := Some (c_depth parent + 1),
       ev_detail := Some (JObj [(''approval_id'', JStr approval_id), (''child_agent_id'', JStr child_agent_id)])\<rparr>)) (\<lambda>_.
     ret \<lparr>pc_approval_id = approval_id, pc_requested_scopes = requested_scopes, pc_sensitive_scopes = sensitive,
       pc_expires_at = iso (from_ts expires_at)\<rparr>)))))))))"

text \<open>
  \<open>delegate\<close> in three parts: the checks, what follows once they passed (anomaly flag, expiry, approval
  gate), and the minting itself.
\<close>

definition svc_delegate_issue :: "svc_env \<Rightarrow> claims \<Rightarrow> string \<Rightarrow> string list \<Rightarrow> int \<Rightarrow> minted_token svc" where
  "svc_delegate_issue E parent child_agent_id requested_scopes child_exp =
     bindP (resolve_or_create E [] child_agent_id ''agent'') (\<lambda>child_subject.
     bindP (mint_childS E parent (sj_subject_id child_subject) requested_scopes child_exp False None) (\<lambda>minted.
     bindP (svc_persist_token minted (Some (c_jti parent))) (\<lambda>_.
     bindP (record_edge E (c_jti parent) (mt_jti minted)) (\<lambda>_.
     bindP (auditS E (blank_event\<lparr>ev_action := ''token_minted'', ev_actor_id := Some (c_sub parent),
       ev_jti := Some (mt_jti minted), ev_parent_jti := Some (c_jti parent),
       ev_root_jti := Some (c_root_jti (mt_claims minted)), ev_scopes := Some (c_scopes (mt_claims minted)),
       ev_decision := Some ''allow'', ev_depth := Some (c_depth (mt_claims minted)),
       ev_detail := Some (JObj [(''child_agent_id'', JStr child_agent_id),
         (''child_subject_id'', JStr (sj_subject_id child_subject)), (''exp'', JInt (c_exp (mt_claims minted)))])\<rparr>)) (\<lambda>_.
     bindP (circuitS E False (Some (c_sub parent)) False) (\<lambda>_.
     ret minted))))))"

definition svc_delegate_granted :: "svc_env \<Rightarrow> claims \<Rightarrow> string \<Rightarrow> string list \<Rightarrow> int \<Rightarrow> delegate_result svc" where
  "svc_delegate_granted E parent child_agent_id requested_scopes ttl_seconds =
     bindP (observeS E (c_sub parent) (length requested_scopes)) (\<lambda>anomaly.
     bindP (case anomaly of None \<Rightarrow> ret () | Some finding \<Rightarrow>
       auditS E (blank_event\<lparr>ev_action := ''anomaly_detected'', ev_actor_id := Some (c_sub parent),
         ev_parent_jti := Some (c_jti parent), ev_root_jti := Some (c_root_jti parent),
         ev_scopes := Some requested_scopes, ev_decision := Some ''flag'', ev_reason := Some finding,
         ev_detail := Some (JObj [(''child_agent_id'', JStr child_agent_id), (''auto_blocked'', JBool False)])\<rparr>)) (\<lambda>_.
     bindP (now_tsS E) (\<lambda>now_ts.
     let child_exp = min (now_ts + ttl_seconds) (c_exp parent) in
     bindP (getsP (\<lambda>w. filter (\<lambda>s. s \<in> st_sensitive_scopes (sv_settings w)) requested_scopes)) (\<lambda>sensitive.
     if sensitive \<noteq> [] then
       bindP (create_pending_approval E parent child_agent_id requested_scopes ttl_seconds) (\<lambda>pending.
       bindP (circuitS E False (Some (c_sub parent)) False) (\<lambda>_.
       ret (PendingApprovalCreated pending)))
     else bindP (svc_delegate_issue E parent child_agent_id requested_scopes child_exp) (\<lambda>minted. ret (Minted minted))))))"

definition svc_delegate :: "svc_env \<Rightarrow> string \<Rightarrow> string \<Rightarrow> string list \<Rightarrow> int \<Rightarrow> delegate_result svc" where
  "svc_delegate E parent_token child_agent_id requested_scopes ttl_seconds =
     bindP circuit_checkS (\<lambda>_.
     bindP (decode_live_parent E parent_token) (\<lambda>parent.
     bindP (svc_rate_check E (c_sub parent) ''delegate'') (\<lambda>_.
     bindP (svc_assert_root_alive E parent) (\<lambda>_.
     let denied = filter (\<lambda>s. s \<notin> scope_set parent) requested_scopes; child_depth = c_depth parent + 1 in
     if denied \<noteq> [] then
       bindP (auditS E (blank_event\<lparr>ev_action := ''scope_escalation_denied'', ev_actor_id := Some (c_sub parent),
         ev_parent_jti := Some (c_jti parent), ev_root_jti := Some (c_root_jti parent),
         ev_scopes := Some requested_scopes, ev_denied_scopes := Some denied, ev_decision := Some ''deny'',
         ev_reason := Some ''requested scopes exceed parent grant'', ev_depth := Some (c_depth parent + 1),
         ev_detail := Some (JObj [(''child_agent_id'', JStr child_agent_id)])\<rparr>)) (\<lambda>_.
       bindP (circuitS E True (Some (c_sub parent)) True) (\<lambda>_.
       raise (SvcScopeEscalationDenied requested_scopes (sorted_set (c_scopes parent)) denied)))
     else if c_max_depth parent < child_depth then
       bindP (auditS E (blank_event\<lparr>ev_action := ''depth_limit_exceeded'', ev_actor_id := Some (c_sub parent),
         ev_parent_jti := Some (c_jti parent), ev_root_jti := Some (c_root_jti parent),
         ev_scopes := Some requested_scopes, ev_decision := Some ''deny'',
         ev_reason := Some (''depth '' @ str_int child_depth @ '' exceeds max_depth '' @ str_int (c_max_depth parent)),
         ev_depth := Some child_depth,
         ev_detail := Some (JObj [(''child_agent_id'', JStr child_agent_id)])\<rparr>)) (\<lambda>_.
       bindP (circuitS E True (Some (c_sub parent)) True) (\<lambda>_.
       raise (SvcDepthLimitExceeded child_depth (c_max_depth parent))))
     else svc_delegate_granted E parent child_agent_id requested_scopes ttl_seconds))))"

section \<open>Verification\<close>

text \<open>A refusal before the token is authenticated, and one after.\<close>

definition outcomeS :: "svc_env \<Rightarrow> int \<Rightarrow> string option \<Rightarrow> claims option \<Rightarrow> verify_outcome svc" where
  "outcomeS E started reason claims = bindP (perfS E) (\<lambda>ended.
     ret \<lparr>vo_valid = False, vo_reason = reason, vo_claims = claims, vo_latency_us = ended - started\<rparr>)"

definition svc_verify_deny :: "svc_env \<Rightarrow> int \<Rightarrow> string \<Rightarrow> claims \<Rightarrow> string \<Rightarrow> verify_outcome svc" where
  "svc_verify_deny E started required_scope claims reason =
     bindP (circuitS E True (Some (c_sub claims)) True) (\<lambda>_.
     bindP (auditS E (blank_event\<lparr>ev_action := ''verify_denied'', ev_actor_id := Some (c_sub claims),
       ev_jti := Some (c_jti claims), ev_root_jti := Some (c_root_jti claims), ev_required_scope := Some required_scope,
       ev_scopes := Some (c_scopes claims), ev_decision := Some ''deny'', ev_reason := Some reason,
       ev_depth := Some (c_depth claims)\<rparr>)) (\<lambda>_.
     outcomeS E started (Some reason) (Some claims)))"

definition svc_verify_claims :: "svc_env \<Rightarrow> int \<Rightarrow> string \<Rightarrow> claims \<Rightarrow> verify_outcome svc" where
  "svc_verify_claims E started required_scope claims =
     bindP (svc_rate_check E (c_sub claims) ''verify'') (\<lambda>_.
     bindP (now_tsS E) (\<lambda>now.
     if c_exp claims < now then svc_verify_deny E started required_scope claims REASON_EXPIRED
     else bindP (any_revokedS E (c_jti claims # map ce_jti (c_delegation_chain claims))) (\<lambda>dead.
       if dead then svc_verify_deny E started required_scope claims REASON_REVOKED
       else if required_scope \<notin> scope_set claims then svc_verify_deny E started required_scope claims REASON_SCOPE_NOT_GRANTED
       else bindP (circuitS E False (Some (c_sub claims)) False) (\<lambda>_.
         bindP (perfS E) (\<lambda>ended.
         bindP (auditS E (blank_event\<lparr>ev_action := ''verify_success'', ev_actor_id := Some (c_sub claims),
           ev_jti := Some (c_jti claims), ev_root_jti := Some (c_root_jti claims),
           ev_required_scope := Some required_scope, ev_scopes := Some (c_scopes claims),
           ev_decision := Some ''allow'', ev_depth := Some (c_depth claims),
           ev_latency_us := Some (ended - started)\<rparr>)) (\<lambda>_.
         ret \<lparr>vo_valid = True, vo_reason = None, vo_claims = Some claims, vo_latency_us = ended - started\<rparr>))))))"

definition svc_verify :: "svc_env \<Rightarrow> string \<Rightarrow> string \<Rightarrow> verify_outcome svc" where
  "svc_verify E token required_scope = bindP (perfS E) (\<lambda>started. bindP (getsP sv_breaker) (\<lambda>br.
     if is_open br then outcomeS E started (Some REASON_CIRCUIT_OPEN) None
     else bindP (catchP (bindP (decodeS E token) (\<lambda>c. ret (Inr c)))
         (\<lambda>x. case x of SvcTokenError reason \<Rightarrow> ret (Inl reason) | _ \<Rightarrow> raise x)) (\<lambda>decoded.
       case decoded of
         Inl reason \<Rightarrow>
           bindP (circuitS E True None True) (\<lambda>_.
           bindP (auditS E (blank_event\<lparr>ev_action := ''verify_denied'', ev_required_scope := Some required_scope,
             ev_decision := Some ''deny'', ev_reason := Some reason\<rparr>)) (\<lambda>_.
           outcomeS E started (Some reason) None))
       | Inr claims \<Rightarrow> svc_verify_claims E started required_scope claims)))"

section \<open>Approvals\<close>

definition svc_load_pending :: "svc_env \<Rightarrow> string \<Rightarrow> pending_approval svc" where
  "svc_load_pending E approval_id = bindP (queryS (\<lambda>t. dget (tb_approvals t) approval_id)) (\<lambda>found.
     case found of None \<Rightarrow> raise SvcKeyError
     | Some record \<Rightarrow>
         if pa_status record = ''pending'' then
           bindP (nowS E) (\<lambda>now.
             if pa_expires_at record < now then
               bindP (nowS E) (\<lambda>decided.
               bindP (store_approval (record\<lparr>pa_status := ''expired'', pa_decided_at := Some decided\<rparr>)) (\<lambda>_.
               raise SvcValueError))
             else ret record)
         else raise SvcValueError)"

text \<open>The minting part of \<open>approve\<close>, once the parent has been found alive.\<close>

definition svc_approve_issue :: "svc_env \<Rightarrow> pending_approval \<Rightarrow> token_metadata \<Rightarrow> string \<Rightarrow> (pending_approval \<times> minted_token) svc" where
  "svc_approve_issue E record parent_record approver_id =
     bindP (getsP (\<lambda>w. claims_from_record E (sv_settings w) parent_record)) (\<lambda>rebuilt.
     case rebuilt of None \<Rightarrow> raise SvcValueError
     | Some parent_claims \<Rightarrow>
       bindP (now_tsS E) (\<lambda>now.
       let child_exp = min (now + pa_ttl_seconds record) (pa_parent_exp record) in
       bindP (mint_childS E parent_claims (pa_child_subject_id record) (pa_requested_scopes record) child_exp
         True (Some approver_id)) (\<lambda>minted.
       bindP (svc_persist_token minted (Some (pa_parent_jti record))) (\<lambda>_.
       bindP (record_edge E (pa_parent_jti record) (mt_jti minted)) (\<lambda>_.
       bindP (nowS E) (\<lambda>decided.
       let record' = record\<lparr>pa_status := ''approved'', pa_decided_at := Some decided, pa_approved_by := Some approver_id,
             pa_child_jti := Some (mt_jti minted), pa_child_token := Some (mt_token minted)\<rparr> in
       bindP (store_approval record') (\<lambda>_.
       bindP (auditS E (blank_event\<lparr>ev_action := ''approval_granted'', ev_actor_id := Some approver_id,
         ev_jti := Some (mt_jti minted), ev_parent_jti := Some (pa_parent_jti record),
         ev_root_jti := Some (c_root_jti (mt_claims minted)), ev_scopes := Some (c_scopes (mt_claims minted)),
         ev_decision := Some ''allow'', ev_depth := Some (c_depth (mt_claims minted)),
         ev_detail := Some (JObj [(''approval_id'', JStr (pa_approval_id record)),
           (''child_agent_id'', JStr (pa_child_agent_id record)),
           (''sensitive_scopes'', json_strs (pa_sensitive_scopes record))])\<rparr>)) (\<lambda>_.
       ret (record', minted)))))))))"

definition svc_approve :: "svc_env \<Rightarrow> string \<Rightarrow> string \<Rightarrow> (pending_approval \<times> minted_token) svc" where
  "svc_approve E approval_id approver_id = bindP (svc_load_pending E approval_id) (\<lambda>record.
     bindP (queryS (\<lambda>t. dget (tb_tokens t) (pa_parent_jti record))) (\<lambda>found.
     case found of None \<Rightarrow> raise (SvcRootChainBroken ''parent token record not found'')
     | Some parent_record \<Rightarrow>
       bindP (svc_is_revoked E (pa_parent_jti record) True) (\<lambda>dead.
       if dead then
         bindP (nowS E) (\<lambda>decided.
         bindP (store_approval (record\<lparr>pa_status := ''denied'', pa_decided_at := Some decided,
           pa_approved_by := Some approver_id\<rparr>)) (\<lambda>_.
         bindP (auditS E (blank_event\<lparr>ev_action := ''approval_rejected'', ev_actor_id := Some approver_id,
           ev_parent_jti := Some (pa_parent_jti record), ev_decision := Some ''deny'',
           ev_reason := Some ''parent token was revoked while approval was pending'',
           ev_detail := Some (JObj [(''approval_id'', JStr approval_id)])\<rparr>)) (\<lambda>_.
         raise (SvcParentTokenInvalid REASON_REVOKED))))
       else bindP (now_tsS E) (\<lambda>now.
         if pa_parent_exp record < now then
           bindP (nowS E) (\<lambda>decided.
           bindP (store_approval (record\<lparr>pa_status := ''expired'', pa_decided_at := Some decided\<rparr>)) (\<lambda>_.
           raise (SvcParentTokenInvalid REASON_EXPIRED)))
         else svc_approve_issue E record parent_record approver_id))))"

definition svc_deny :: "svc_env \<Rightarrow> string \<Rightarrow> string \<Rightarrow> pending_approval svc" where
  "svc_deny E approval_id approver_id = bindP (svc_load_pending E approval_id) (\<lambda>record.
     bindP (nowS E) (\<lambda>decided.
     let record' = record\<lparr>pa_status := ''denied'', pa_decided_at := Some decided, pa_approved_by := Some approver_id\<rparr> in
     bindP (store_approval record') (\<lambda>_.
     bindP (auditS E (blank_event\<lparr>ev_action := ''approval_denied'', ev_actor_id := Some approver_id,
       ev_parent_jti := Some (pa_parent_jti record), ev_scopes := Some (pa_requested_scopes record),
       ev_decision := Some ''deny'', ev_reason := Some ''human denied the delegation request'',
       ev_detail := Some (JObj [(''approval_id'', JStr approval_id),
         (''child_agent_id'', JStr (pa_child_agent_id record))])\<rparr>)) (\<lambda>_.
     ret record'))))"

fun svc_expire_loop :: "svc_env \<Rightarrow> instant \<Rightarrow> pending_approval list \<Rightarrow> nat svc" where
  "svc_expire_loop E now [] = ret 0"
| "svc_expire_loop E now (record # records) =
     (if pa_expires_at record < now then
        bindP (store_approval (record\<lparr>pa_status := ''expired'', pa_decided_at := Some now\<rparr>)) (\<lambda>_.
        bindP (auditS E (blank_event\<lparr>ev_action := ''approval_expired'', ev_parent_jti := Some (pa_parent_jti record),
          ev_scopes := Some (pa_requested_scopes record), ev_decision := Some ''deny'',
          ev_reason := Some ''approval request timed out without human action'',
          ev_detail := Some (JObj [(''approval_id'', JStr (pa_approval_id record))])\<rparr>)) (\<lambda>_.
        bindP (svc_expire_loop E now records) (\<lambda>n. ret (Suc n))))
      else svc_expire_loop E now records)"

definition svc_expire_stale_approvals :: "svc_env \<Rightarrow> nat svc" where
  "svc_expire_stale_approvals E = bindP (nowS E) (\<lambda>now.
     bindP (queryS (\<lambda>t. filter (\<lambda>a. pa_status a = ''pending'') (map snd (tb_approvals t)))) (\<lambda>stale.
     svc_expire_loop E now stale))"

section \<open>Revocation\<close>

definition svc_revoke :: "svc_env \<Rightarrow> string \<Rightarrow> string option \<Rightarrow> string \<Rightarrow> (string list \<times> int) svc" where
  "svc_revoke E jti reason actor_id = bindP (svc_revoke_subtree E jti reason) (\<lambda>(revoked, latency_us).
     bindP (auditS E (blank_event\<lparr>ev_action := ''token_revoked'', ev_actor_id := Some actor_id, ev_jti := Some jti,
       ev_decision := Some ''revoke'', ev_reason := reason, ev_latency_us := Some latency_us,
       ev_detail := Some (JObj [(''subtree_count'', JInt (int (length revoked))), (''revoked_jtis'', json_strs revoked)])\<rparr>)) (\<lambda>_.
     ret (revoked, latency_us)))"

end
