(* ===== verification/Service_Routes.thy ===== *)
theory Service_Routes
  imports Service_Engine Firewall_Approvals
begin

text \<open>
  The HTTP layer of the service: \<open>routes/deps.py\<close>, \<open>routes/tokens.py\<close>, the core of \<open>routes/audit.py\<close> and
  \<open>routes/admin.py\<close>, the request bodies of \<open>models/token.py\<close>, and \<open>container.py\<close>. A route is a program that
  ends with a status and a JSON body, or with an \<open>HTTPException\<close>; an exception no route catches is a 500.
  FastAPI solves the dependencies first (admin key, bearer token), then validates the body (422), then
  calls the handler on the request's session. Latencies in bodies are whole microseconds; headers and the
  texts of \<open>KeyError\<close> and \<open>ValueError\<close> details are left out.
\<close>

section \<open>Responses\<close>

datatype http_error = HTTPException nat json | Unhandled svc_error

type_synonym http = "nat \<times> json"
type_synonym 'a route = "(service, http_error, 'a) prog"

text \<open>A handler on the request's session; nothing changes the state after an exception but the rollback.\<close>

definition on_session :: "svc_env \<Rightarrow> (svc_error \<Rightarrow> http_error) \<Rightarrow> 'a svc \<Rightarrow> 'a route" where
  "on_session E on_error body = catchP (session_scope E body) (\<lambda>x. raise (on_error x))"

definition error_body :: "string \<Rightarrow> (string \<times> json) list \<Rightarrow> json" where
  "error_body err extra = JObj ((''error'', JStr err) # extra)"

section \<open>Dependencies\<close>

text \<open>\<open>compare_digest\<close> raises \<open>TypeError\<close> on strings that are not ASCII.\<close>

definition is_ascii :: "string \<Rightarrow> bool" where
  "is_ascii s = list_all (\<lambda>c. code_of c < 128) s"

definition require_admin :: "string option \<Rightarrow> string route" where
  "require_admin x_admin_key = bindP (getsP (\<lambda>w. st_admin_api_key (sv_settings w))) (\<lambda>expected.
     case x_admin_key of
       None \<Rightarrow> raise (HTTPException 401 (JStr ''invalid or missing X-Admin-Key''))
     | Some key \<Rightarrow>
         if key = '''' then raise (HTTPException 401 (JStr ''invalid or missing X-Admin-Key''))
         else if \<not> is_ascii key \<or> \<not> is_ascii expected then raise (Unhandled SvcTypeError)
         else if key \<noteq> expected then raise (HTTPException 401 (JStr ''invalid or missing X-Admin-Key''))
         else ret ''human:admin'')"

definition bearer_token :: "string option \<Rightarrow> string route" where
  "bearer_token authorization = (case authorization of
     None \<Rightarrow> raise (HTTPException 401 (JStr ''missing bearer token''))
   | Some a \<Rightarrow>
       if \<not> prefix ''bearer '' (map lower_char a) then raise (HTTPException 401 (JStr ''missing bearer token''))
       else let token = strip (drop 1 (dropWhile (\<lambda>c. c \<noteq> CHR '' '') a)) in
         if token = '''' then raise (HTTPException 401 (JStr ''empty bearer token'')) else ret token)"

section \<open>Request bodies\<close>

definition RootTokenRequest :: "string \<Rightarrow> string list \<Rightarrow> int \<Rightarrow> int option \<Rightarrow> string list option" where
  "RootTokenRequest human_id scopes ttl_seconds max_depth =
     (if 1 \<le> length human_id \<and> length human_id \<le> 200 \<and> scopes \<noteq> [] \<and> 0 < ttl_seconds
        \<and> (case max_depth of None \<Rightarrow> True | Some d \<Rightarrow> 1 \<le> d \<and> d \<le> 32)
      then normalise_scopes scopes else None)"

definition DelegateRequest :: "string \<Rightarrow> string list \<Rightarrow> int \<Rightarrow> string list option" where
  "DelegateRequest child_agent_id requested_scopes ttl_seconds =
     (if 1 \<le> length child_agent_id \<and> length child_agent_id \<le> 200 \<and> requested_scopes \<noteq> [] \<and> 0 < ttl_seconds
      then normalise_scopes requested_scopes else None)"

definition VerifyRequest :: "string \<Rightarrow> string \<Rightarrow> bool" where
  "VerifyRequest token required_scope \<longleftrightarrow> 1 \<le> length token \<and> 1 \<le> length required_scope"

definition RevokeRequest :: "string \<Rightarrow> string option \<Rightarrow> bool" where
  "RevokeRequest jti reason \<longleftrightarrow> 1 \<le> length jti \<and> (case reason of None \<Rightarrow> True | Some r \<Rightarrow> length r \<le> 500)"

definition ApprovalDecisionRequest :: "string \<Rightarrow> string option \<Rightarrow> string \<Rightarrow> bool" where
  "ApprovalDecisionRequest approval_id decision approver_id \<longleftrightarrow> 1 \<le> length approval_id
     \<and> decision \<in> {None, Some ''approve'', Some ''deny''} \<and> length approver_id \<le> 200"

abbreviation unprocessable :: "'a route" where
  "unprocessable \<equiv> raise (HTTPException 422 JNull)"

section \<open>\<open>routes/tokens.py\<close>\<close>

definition post_root :: "svc_env \<Rightarrow> string option \<Rightarrow> string \<Rightarrow> string list \<Rightarrow> int \<Rightarrow> int option \<Rightarrow> http route" where
  "post_root E key human_id scopes ttl_seconds max_depth = bindP (require_admin key) (\<lambda>_.
     case RootTokenRequest human_id scopes ttl_seconds max_depth of None \<Rightarrow> unprocessable
     | Some scopes' \<Rightarrow> bindP (on_session E Unhandled (svc_mint_root E human_id scopes' ttl_seconds max_depth)) (\<lambda>minted.
         ret (201, JObj [(''token'', JStr (mt_token minted)), (''jti'', JStr (mt_jti minted)),
           (''subject_id'', JStr (c_sub (mt_claims minted))), (''scopes'', json_strs (c_scopes (mt_claims minted))),
           (''max_depth'', JInt (c_max_depth (mt_claims minted))), (''expires_at'', JStr (expires_at_iso minted))])))"

fun delegate_error :: "svc_error \<Rightarrow> http_error" where
  "delegate_error (SvcCircuitOpen msg) = HTTPException 503 (error_body REASON_CIRCUIT_OPEN [(''message'', JStr msg)])"
| "delegate_error (SvcRateLimitExceeded s limit window) =
     HTTPException 429 (error_body ''rate_limit_exceeded'' [(''limit'', JInt limit), (''window_seconds'', JInt window)])"
| "delegate_error (SvcParentTokenInvalid reason) =
     HTTPException 401 (error_body ''parent_token_invalid'' [(''reason'', JStr reason)])"
| "delegate_error (SvcScopeEscalationDenied requested allowed_max denied) =
     HTTPException 403 (error_body ''scope_escalation_denied'' [(''requested'', json_strs requested),
       (''allowed_max'', json_strs allowed_max), (''denied_scopes'', json_strs denied)])"
| "delegate_error (SvcDepthLimitExceeded depth max_depth) =
     HTTPException 403 (error_body ''depth_limit_exceeded'' [(''depth'', JInt depth), (''max_depth'', JInt max_depth)])"
| "delegate_error (SvcRootChainBroken reason) =
     HTTPException 403 (error_body ''root_chain_broken'' [(''reason'', JStr reason)])"
| "delegate_error x = Unhandled x"

definition delegate_response :: "delegate_result \<Rightarrow> http" where
  "delegate_response r = (case r of
     PendingApprovalCreated p \<Rightarrow> (202, JObj [(''status'', JStr ''pending_approval''), (''approval_id'', JStr (pc_approval_id p)),
       (''message'', JStr (join '', '' (pc_sensitive_scopes p) @ '' requires human approval'')),
       (''requested_scopes'', json_strs (pc_requested_scopes p)), (''sensitive_scopes'', json_strs (pc_sensitive_scopes p)),
       (''expires_at'', JStr (pc_expires_at p))])
   | Minted m \<Rightarrow> (201, JObj [(''token'', JStr (mt_token m)), (''jti'', JStr (mt_jti m)), (''subject_id'', JStr (c_sub (mt_claims m))),
       (''scopes'', json_strs (c_scopes (mt_claims m))), (''depth'', JInt (c_depth (mt_claims m))),
       (''expires_at'', JStr (expires_at_iso m)), (''approval_required'', JBool (c_approval_required (mt_claims m))),
       (''approved_by'', json_of_opt (c_approved_by (mt_claims m)))]))"

definition post_delegate :: "svc_env \<Rightarrow> string option \<Rightarrow> string \<Rightarrow> string list \<Rightarrow> int \<Rightarrow> http route" where
  "post_delegate E authorization child_agent_id requested_scopes ttl_seconds =
     bindP (bearer_token authorization) (\<lambda>parent_token.
     case DelegateRequest child_agent_id requested_scopes ttl_seconds of None \<Rightarrow> unprocessable
     | Some scopes \<Rightarrow> bindP (on_session E delegate_error (svc_delegate E parent_token child_agent_id scopes ttl_seconds)) (\<lambda>r.
         ret (delegate_response r)))"

fun verify_error :: "svc_error \<Rightarrow> http_error" where
  "verify_error (SvcRateLimitExceeded s limit window) =
     HTTPException 429 (error_body ''rate_limit_exceeded'' [(''limit'', JInt limit), (''window_seconds'', JInt window)])"
| "verify_error x = Unhandled x"

definition verify_response :: "verify_outcome \<Rightarrow> http" where
  "verify_response o1 = (if \<not> vo_valid o1 then (401, JObj [(''valid'', JBool False), (''reason'', json_of_opt (vo_reason o1))])
     else case vo_claims o1 of
       None \<Rightarrow> (500, JNull)
     | Some c \<Rightarrow> (200, JObj [(''valid'', JBool True), (''agent_id'', JStr (c_sub c)), (''jti'', JStr (c_jti c)),
         (''remaining_scopes'', json_strs (c_scopes c)), (''depth'', JInt (c_depth c)),
         (''expires_at'', JStr (iso (claims_expires_at c)))]))"

definition post_verify :: "svc_env \<Rightarrow> string \<Rightarrow> string \<Rightarrow> http route" where
  "post_verify E token required_scope = (if \<not> VerifyRequest token required_scope then unprocessable
     else bindP (on_session E verify_error (svc_verify E token required_scope)) (\<lambda>o1. ret (verify_response o1)))"

definition post_revoke :: "svc_env \<Rightarrow> string option \<Rightarrow> string \<Rightarrow> string option \<Rightarrow> http route" where
  "post_revoke E key jti reason = bindP (require_admin key) (\<lambda>admin.
     if \<not> RevokeRequest jti reason then unprocessable
     else bindP (on_session E Unhandled (svc_revoke E jti reason admin)) (\<lambda>(revoked, latency_us).
       ret (200, JObj [(''revoked'', JBool True), (''subtree_count'', JInt (int (length revoked))),
         (''revoked_jtis'', json_strs revoked), (''latency_us'', JInt latency_us)])))"

fun approve_error :: "svc_error \<Rightarrow> http_error" where
  "approve_error SvcKeyError = HTTPException 404 JNull"
| "approve_error SvcValueError = HTTPException 409 JNull"
| "approve_error (SvcParentTokenInvalid reason) =
     HTTPException 401 (error_body ''parent_token_invalid'' [(''reason'', JStr reason)])"
| "approve_error (SvcRootChainBroken reason) =
     HTTPException 403 (error_body ''root_chain_broken'' [(''reason'', JStr reason)])"
| "approve_error x = Unhandled x"

fun deny_error :: "svc_error \<Rightarrow> http_error" where
  "deny_error SvcKeyError = HTTPException 404 JNull"
| "deny_error SvcValueError = HTTPException 409 JNull"
| "deny_error x = Unhandled x"

definition deny_handler :: "svc_env \<Rightarrow> string \<Rightarrow> string \<Rightarrow> http route" where
  "deny_handler E approval_id admin = bindP (on_session E deny_error (svc_deny E approval_id admin)) (\<lambda>record.
     ret (200, JObj [(''approval_id'', JStr (pa_approval_id record)), (''status'', JStr (pa_status record)),
       (''child_jti'', JNull), (''scopes'', JNull), (''message'', JStr ''denied; no token was minted'')]))"

definition post_deny :: "svc_env \<Rightarrow> string option \<Rightarrow> string \<Rightarrow> string option \<Rightarrow> string \<Rightarrow> http route" where
  "post_deny E key approval_id decision approver_id = bindP (require_admin key) (\<lambda>admin.
     if \<not> ApprovalDecisionRequest approval_id decision approver_id then unprocessable
     else deny_handler E approval_id admin)"

definition post_approve :: "svc_env \<Rightarrow> string option \<Rightarrow> string \<Rightarrow> string option \<Rightarrow> string \<Rightarrow> http route" where
  "post_approve E key approval_id decision approver_id = bindP (require_admin key) (\<lambda>admin.
     if \<not> ApprovalDecisionRequest approval_id decision approver_id then unprocessable
     else if decision = Some ''deny'' then deny_handler E approval_id admin
     else bindP (on_session E approve_error (svc_approve E approval_id admin)) (\<lambda>(record, minted).
       ret (200, JObj [(''approval_id'', JStr (pa_approval_id record)), (''status'', JStr (pa_status record)),
         (''child_jti'', JStr (mt_jti minted)), (''scopes'', json_strs (c_scopes (mt_claims minted))),
         (''message'', JStr (''approved; the delegating agent may now collect the token from GET /api/v1/tokens/pending/''
           @ pa_approval_id record))])))"

text \<open>\<open>GET /pending/{approval_id}\<close>: the handler, then the response it builds from the record.\<close>

definition collect_handler :: "svc_env \<Rightarrow> string \<Rightarrow> (pending_approval \<times> instant option) svc" where
  "collect_handler E approval_id = bindP (queryS (\<lambda>t. dget (tb_approvals t) approval_id)) (\<lambda>found.
     case found of None \<Rightarrow> raise SvcKeyError
     | Some _ \<Rightarrow> bindP (svc_expire_stale_approvals E) (\<lambda>_.
         bindP (queryS (\<lambda>t. dget (tb_approvals t) approval_id)) (\<lambda>refreshed.
         case refreshed of None \<Rightarrow> raise SvcKeyError
         | Some record \<Rightarrow>
             if pa_status record = ''approved'' \<and> str_or (pa_child_token record) '''' \<noteq> '''' then
               bindP (whenP (\<not> pa_collected record) (store_approval (record\<lparr>pa_collected := True\<rparr>))) (\<lambda>_.
               bindP (queryS (\<lambda>t. case pa_child_jti record of None \<Rightarrow> None
                 | Some j \<Rightarrow> if j = '''' then None else map_option tm_expires_at (dget (tb_tokens t) j))) (\<lambda>expires_at.
               ret (record\<lparr>pa_collected := True\<rparr>, expires_at)))
             else ret (record, None))))"

definition pending_message :: "string \<Rightarrow> string" where
  "pending_message status = (if status = ''pending'' then ''awaiting human approval''
     else if status = ''denied'' then ''a human denied this delegation; no token was minted''
     else if status = ''expired'' then ''the approval request timed out; no token was minted''
     else status)"

definition collect_response :: "string \<Rightarrow> pending_approval \<times> instant option \<Rightarrow> http" where
  "collect_response approval_id r = (case r of (record, expires_at) \<Rightarrow>
     if pa_status record = ''approved'' \<and> str_or (pa_child_token record) '''' \<noteq> '''' then
       (200, JObj [(''approval_id'', JStr approval_id), (''status'', JStr ''approved''),
         (''token'', json_of_opt (pa_child_token record)), (''jti'', json_of_opt (pa_child_jti record)),
         (''scopes'', json_strs (pa_requested_scopes record)), (''expires_at'', json_of_opt (map_option iso expires_at)),
         (''message'', JStr ''approved; token issued'')])
     else (200, JObj [(''approval_id'', JStr approval_id), (''status'', JStr (pa_status record)), (''token'', JNull),
         (''jti'', JNull), (''scopes'', json_strs (pa_requested_scopes record)), (''expires_at'', JNull),
         (''message'', JStr (pending_message (pa_status record)))]))"

fun not_found_error :: "svc_error \<Rightarrow> http_error" where
  "not_found_error SvcKeyError = HTTPException 404 (JStr ''unknown approval_id'')"
| "not_found_error x = Unhandled x"

definition collect_pending :: "svc_env \<Rightarrow> string \<Rightarrow> http route" where
  "collect_pending E approval_id = bindP (on_session E not_found_error (collect_handler E approval_id)) (\<lambda>r.
     ret (collect_response approval_id r))"

section \<open>\<open>routes/audit.py\<close>\<close>

text \<open>\<open>GET /audit/chain/{jti}\<close>, as the list of hops it renders; the walk over parents is the library's.\<close>

definition svc_hop_of :: "instant \<Rightarrow> string set \<Rightarrow> (string, string) dict \<Rightarrow> token_metadata \<Rightarrow> chain_hop" where
  "svc_hop_of now revoked labels m = \<lparr>ch_jti = tm_jti m, ch_subject_id = tm_subject_id m,
     ch_display_label = dget labels (tm_subject_id m), ch_scopes = tm_scopes m, ch_depth = tm_depth m,
     ch_issued_at = tm_issued_at m, ch_expires_at = tm_expires_at m, ch_revoked = (tm_jti m \<in> revoked),
     ch_expired = (tm_expires_at m < now)\<rparr>"

definition chain_handler :: "svc_env \<Rightarrow> string \<Rightarrow> chain_hop list svc" where
  "chain_handler E jti = bindP (queryS (\<lambda>t. dget (tb_tokens t) jti)) (\<lambda>found.
     case found of None \<Rightarrow> raise SvcKeyError
     | Some leaf \<Rightarrow> bindP (queryS (\<lambda>t. rev (lineage (tb_tokens t) [] leaf))) (\<lambda>line.
         bindP (svc_revoked_among (map tm_jti line)) (\<lambda>revoked.
         bindP (labels_for (map tm_subject_id line)) (\<lambda>labels.
         bindP (nowS E) (\<lambda>now. ret (map (svc_hop_of now revoked labels) line))))))"

definition hop_json :: "chain_hop \<Rightarrow> json" where
  "hop_json h = JObj [(''agent_id'', JStr (ch_subject_id h)), (''display_label'', json_of_opt (ch_display_label h)),
     (''jti'', JStr (ch_jti h)), (''scopes'', json_strs (ch_scopes h)), (''ts'', JStr (iso (ch_issued_at h))),
     (''depth'', JInt (ch_depth h)), (''revoked'', JBool (ch_revoked h)), (''expired'', JBool (ch_expired h))]"

definition chain_response :: "string \<Rightarrow> chain_hop list \<Rightarrow> http" where
  "chain_response jti hops = (let leaf = last hops in (200, JObj [(''jti'', JStr jti), (''depth'', JInt (ch_depth leaf)),
     (''chain'', JList (map hop_json hops)), (''scopes'', json_strs (ch_scopes leaf)),
     (''revoked'', JBool (ch_revoked leaf)), (''expired'', JBool (ch_expired leaf))]))"

definition get_chain :: "svc_env \<Rightarrow> string \<Rightarrow> http route" where
  "get_chain E jti = bindP (on_session E (\<lambda>x. case x of SvcKeyError \<Rightarrow> HTTPException 404 (JStr ''unknown jti'') | _ \<Rightarrow> Unhandled x)
     (chain_handler E jti)) (\<lambda>hops. ret (chain_response jti hops))"

text \<open>\<open>GET /audit/log\<close> without its \<open>since\<close> filter (the column \<open>ts\<close> is not modelled): the total and the page.\<close>

definition audit_query :: "string option \<Rightarrow> string option \<Rightarrow> string option \<Rightarrow> nat \<Rightarrow> nat \<Rightarrow> service \<Rightarrow> nat \<times> audit_row list" where
  "audit_query agent_id act decision limit offset w = (let
     wants = (\<lambda>filter_value v. case filter_value of None \<Rightarrow> True | Some x \<Rightarrow> x = '''' \<or> v = Some x);
     rows = filter (\<lambda>row. wants agent_id (ev_actor_id row) \<and> wants act (Some (ev_action row))
       \<and> wants decision (ev_decision row)) (sv_audit w)
   in (length rows, take limit (drop offset (rev rows))))"

definition verify_integrity_handler :: "svc_env \<Rightarrow> integrity_report svc" where
  "verify_integrity_handler E = bindP (audit_flush E) (\<lambda>_. getsP (\<lambda>w. svc_verify_integrity E w))"

definition get_verify_integrity :: "svc_env \<Rightarrow> http route" where
  "get_verify_integrity E = bindP (on_session E Unhandled (verify_integrity_handler E)) (\<lambda>r.
     ret (200, JObj [(''intact'', JBool (ir_intact r)), (''rows_checked'', JInt (int (ir_rows_checked r))),
       (''first_broken_row_id'', (case ir_first_broken_row_id r of None \<Rightarrow> JNull | Some n \<Rightarrow> JInt (int n))),
       (''detail'', JStr (ir_detail r))]))"

section \<open>\<open>routes/admin.py\<close>\<close>

definition reset_handler :: "svc_env \<Rightarrow> string \<Rightarrow> svc_circuit_state svc" where
  "reset_handler E admin = bindP (nowS E) (\<lambda>now.
     bindP (getsP (\<lambda>w. svc_breaker_state (sv_settings w) now (sv_breaker w))) (\<lambda>previous.
     bindP (updP (\<lambda>w. w\<lparr>sv_breaker := svc_breaker_reset (sv_breaker w)\<rparr>)) (\<lambda>_.
     bindP (auditS E (blank_event\<lparr>ev_action := ''circuit_reset'', ev_actor_id := Some admin, ev_decision := Some ''allow'',
       ev_reason := Some ''break glass: manual circuit breaker reset'',
       ev_detail := Some (JObj [(''previous_reason'', json_of_opt (cs_reason previous)), (''was_open'', JBool (cs_open previous))])\<rparr>)) (\<lambda>_.
     ret previous))))"

definition unhandled :: "'a svc \<Rightarrow> 'a route" where
  "unhandled m = catchP m (\<lambda>x. raise (Unhandled x))"

definition post_reset_circuit :: "svc_env \<Rightarrow> string option \<Rightarrow> http route" where
  "post_reset_circuit E key = bindP (require_admin key) (\<lambda>admin.
     bindP (unhandled (reset_handler E admin)) (\<lambda>previous.
     ret (200, JObj [(''circuit_open'', JBool False), (''was_open'', JBool (cs_open previous)), (''reset_by'', JStr admin)])))"

definition post_flush_audit :: "svc_env \<Rightarrow> string option \<Rightarrow> http route" where
  "post_flush_audit E key = bindP (require_admin key) (\<lambda>_. bindP (unhandled (audit_flush E)) (\<lambda>n.
     ret (200, JObj [(''flushed'', JInt (int n))])))"

definition get_subjects_route :: "svc_env \<Rightarrow> string option \<Rightarrow> http route" where
  "get_subjects_route E key = bindP (require_admin key) (\<lambda>_. bindP (on_session E Unhandled (queryS tb_subjects)) (\<lambda>rows.
     ret (200, JObj [(''total'', JInt (int (length rows))), (''subjects'', JList (map (\<lambda>s. JObj [
       (''subject_id'', JStr (sj_subject_id s)), (''kind'', JStr (sj_kind s)),
       (''display_label'', JStr (sj_display_label s)), (''identifier_hash'', JStr (sj_identifier_hash s))]) rows))])))"

section \<open>\<open>container.py\<close>\<close>

text \<open>A process on the database and the Redis server there are: the engines are new, the settings given.\<close>

definition new_container :: "svc_env \<Rightarrow> settings \<Rightarrow> service \<Rightarrow> service" where
  "new_container E st w = init_redis E (w\<lparr>sv_settings := st, sv_tx := sv_db w, sv_buffer := [], sv_tail := None, sv_rate := [],
     sv_breaker := new_breaker, sv_anomaly := []\<rparr>)"

definition startup :: "svc_env \<Rightarrow> (nat \<times> nat) svc" where
  "startup E = bindP (updP audit_start) (\<lambda>_. session_scope E (bindP (rebuild_cache E) (\<lambda>restored.
     bindP (svc_expire_stale_approvals E) (\<lambda>expired. ret (restored, expired)))))"

definition shutdown :: "svc_env \<Rightarrow> unit svc" where
  "shutdown E = bindP (audit_stop E) (\<lambda>_. updP close_redis)"

end
