(* ===== verification/Service_Frames.thy ===== *)
theory Service_Frames
  imports Service_Routes Ledger
begin

text \<open>
  What the calls inside a request of the service leave alone. \<open>inreq E w T\<close> describes the states of a
  request that began in \<open>w\<close> and whose session now sees the tables \<open>T\<close>: the committed rows are those of
  \<open>w\<close>, audit rows were only added, the log is a chain, and the cache is safe to trust. Every call of an
  engine keeps it; only the flushes of the engine's own changes move \<open>T\<close>.
\<close>

section \<open>States within a request\<close>

definition policy :: "settings \<Rightarrow> settings" where
  "policy st = st\<lparr>st_exempt_subject_ids := {}\<rparr>"

definition inreq :: "svc_env \<Rightarrow> service \<Rightarrow> tables \<Rightarrow> service \<Rightarrow> bool" where
  "inreq E w T t \<longleftrightarrow> sv_db t = sv_db w \<and> sv_tx t = T \<and> policy (sv_settings t) = policy (sv_settings w)
     \<and> prefix (sv_audit w) (sv_audit t) \<and> cache_ok t \<and> svc_audit_ok E t \<and> revoked_in (sv_db w) \<subseteq> revoked_in T"

lemma inreq_refl: "cache_ok w \<Longrightarrow> svc_audit_ok E w \<Longrightarrow> sv_tx w = sv_db w \<Longrightarrow> inreq E w (sv_db w) w"
  by (simp add: inreq_def)

lemma policy_register [simp]: "policy (svc_register_exempt_subject i s st) = policy st"
  by (simp add: policy_def svc_register_exempt_subject_def)

lemma cache_ok_simps [simp]:
  "cache_ok (tickS t) = cache_ok t" "cache_ok (t\<lparr>sv_rate := b\<rparr>) = cache_ok t" "cache_ok (t\<lparr>sv_breaker := br\<rparr>) = cache_ok t"
  "cache_ok (t\<lparr>sv_anomaly := an\<rparr>) = cache_ok t" "cache_ok (t\<lparr>sv_buffer := bu\<rparr>) = cache_ok t"
  "cache_ok (t\<lparr>sv_settings := st\<rparr>) = cache_ok t" "cache_ok (t\<lparr>sv_tx := T\<rparr>) = cache_ok t" "cache_ok (t\<lparr>sv_tail := x\<rparr>) = cache_ok t"
  "cache_ok (mark_unavailable t)"
  by (simp_all add: cache_ok_def tickS_def mark_unavailable_def)

lemma svc_audit_ok_simps [simp]:
  "svc_audit_ok E (tickS t) = svc_audit_ok E t" "svc_audit_ok E (t\<lparr>sv_rate := b\<rparr>) = svc_audit_ok E t"
  "svc_audit_ok E (t\<lparr>sv_breaker := br\<rparr>) = svc_audit_ok E t" "svc_audit_ok E (t\<lparr>sv_anomaly := an\<rparr>) = svc_audit_ok E t"
  "svc_audit_ok E (t\<lparr>sv_buffer := bu\<rparr>) = svc_audit_ok E t" "svc_audit_ok E (t\<lparr>sv_settings := st\<rparr>) = svc_audit_ok E t"
  "svc_audit_ok E (t\<lparr>sv_tx := T\<rparr>) = svc_audit_ok E t" "svc_audit_ok E (mark_unavailable t) = svc_audit_ok E t"
  "svc_audit_ok E (t\<lparr>sv_redis := r\<rparr>) = svc_audit_ok E t"
  by (simp_all add: svc_audit_ok_def tail_row_hash_def tickS_def mark_unavailable_def)

lemma inreq_simps [simp]:
  "inreq E w T (tickS t) = inreq E w T t" "inreq E w T (t\<lparr>sv_rate := b\<rparr>) = inreq E w T t" "inreq E w T (t\<lparr>sv_breaker := br\<rparr>) = inreq E w T t"
  "inreq E w T (t\<lparr>sv_anomaly := an\<rparr>) = inreq E w T t" "inreq E w T (t\<lparr>sv_buffer := bu\<rparr>) = inreq E w T t"
  "inreq E w T (t\<lparr>sv_settings := svc_register_exempt_subject i s (sv_settings t)\<rparr>) = inreq E w T t"
  by (simp_all add: inreq_def)

lemma inreq_mark [simp]: "inreq E w T t \<Longrightarrow> inreq E w T (mark_unavailable t)"
  by (auto simp: inreq_def mark_unavailable_def cache_ok_def svc_audit_ok_def tail_row_hash_def)

lemma inreq_redis: "inreq E w T t \<Longrightarrow> cache_ok (t\<lparr>sv_redis := r\<rparr>) \<Longrightarrow> inreq E w T (t\<lparr>sv_redis := r\<rparr>)"
  by (simp add: inreq_def)

lemma inreq_flush: "inreq E w T t \<Longrightarrow> revoked_in T \<subseteq> revoked_in T' \<Longrightarrow> inreq E w T' (t\<lparr>sv_tx := T'\<rparr>)"
  by (auto simp: inreq_def)

lemma inreq_tx: "inreq E w T t \<Longrightarrow> sv_tx t = T"
  by (simp add: inreq_def)

section \<open>Writing the audit log\<close>

lemma written_simps [simp]:
  "sv_db (written E evs t) = sv_db t" "sv_tx (written E evs t) = sv_tx t" "sv_settings (written E evs t) = sv_settings t"
  "sv_redis (written E evs t) = sv_redis t" "sv_available (written E evs t) = sv_available t"
  "sv_breaker (written E evs t) = sv_breaker t" "sv_buffer (written E evs t) = sv_buffer t"
  by (simp_all add: written_def split: prod.splits)

lemma inreq_written: "inreq E w T t \<Longrightarrow> inreq E w T (written E evs t)"
proof -
  assume inv: "inreq E w T t"
  have "cache_ok (written E evs t) = cache_ok t" by (simp add: cache_ok_def)
  moreover have "prefix (sv_audit t) (sv_audit (written E evs t))" by (simp add: written_def split: prod.splits)
  ultimately show ?thesis using inv svc_audit_ok_written by (auto simp: inreq_def intro: prefix_order.trans)
qed

lemma inreq_failed: "inreq E w T t \<Longrightarrow> inreq E w T ((tickS t)\<lparr>sv_tail := Some (next_prev t)\<rparr>)"
  using svc_audit_ok_failed by (auto simp: inreq_def)

lemma keeps_readings [keep_intro]:
  "keeps (inreq E w T) (nowS E)" "keeps (inreq E w T) (now_tsS E)" "keeps (inreq E w T) (perfS E)" "keeps (inreq E w T) (uuidS E)"
  "keeps (inreq E w T) (queryS f)" "keeps (inreq E w T) (decodeS E tok)" "keeps (inreq E w T) (mint_rootS E a b c d)"
  "keeps (inreq E w T) (mint_childS E p s sc x g h)" "keeps (inreq E w T) circuit_checkS"
  by (auto simp: keeps_wp wp_simps circuit_checkS_def split: sum.splits)

lemma keeps_write [keep_intro]: "keeps (inreq E w T) (write_batch E evs)"
  by (auto simp: keeps_wp wp_simps inreq_written inreq_failed)

lemma keeps_flush [keep_intro]: "keeps (inreq E w T) (audit_flush E)"
  unfolding audit_flush_def by (auto intro!: keep_intro)

lemma keeps_audit [keep_intro]: "keeps (inreq E w T) (auditS E ev)"
  unfolding auditS_def audit_log_def by (auto intro!: keep_intro)

text \<open>A synchronous event is a row once the call returned.\<close>

definition logged :: "service \<Rightarrow> audit_event \<Rightarrow> bool" where
  "logged t ev \<longleftrightarrow> (\<exists>row \<in> set (sv_audit t). \<exists>ts. audit_event.truncate row = ev\<lparr>ev_event_ts := ts\<rparr>)"

lemma chain_rows_truncate: "chain_rows e p evs = (rows, q) \<Longrightarrow> map audit_event.truncate rows = evs"
proof (induction evs arbitrary: p rows)
  case (Cons ev evs)
  obtain rows' q' where "chain_rows e (compute_row_hash e p ev) evs = (rows', q')" by fastforce
  then show ?case using Cons by (auto simp: row_of_def audit_event.truncate_def)
qed simp

lemma number_rows_truncate: "map audit_event.truncate (number_rows n rows) = map audit_event.truncate rows"
  by (induction rows arbitrary: n) (simp_all add: audit_event.truncate_def)

lemma written_logged: "ev \<in> set evs \<Longrightarrow> \<exists>row \<in> set (sv_audit (written E evs t)). audit_event.truncate row = ev"
proof -
  assume ev: "ev \<in> set evs"
  obtain rows q where c: "chain_rows (se_env E) (next_prev t) evs = (rows, q)" by fastforce
  have "ev \<in> set (map audit_event.truncate (number_rows (length (sv_audit t) + 1) rows))"
    using ev by (simp add: number_rows_truncate chain_rows_truncate [OF c] del: set_map)
  then show ?thesis by (auto simp: written_def c)
qed

lemma wp_auditS:
  assumes inv: "inreq E w T t" and sync: "ev_action ev \<notin> BUFFERABLE"
    and Q: "\<And>u. inreq E w T u \<Longrightarrow> prefix (sv_audit t) (sv_audit u) \<Longrightarrow> logged u ev \<Longrightarrow> Q () u"
    and X: "\<And>x u. inreq E w T u \<Longrightarrow> X x u"
  shows "wp (auditS E ev) Q X t"
proof -
  let ?ev = "ev\<lparr>ev_event_ts := iso (e_clock (se_env E) (sv_tick t))\<rparr>"
  have "logged (written E [?ev] (tickS t)) ev"
    using written_logged [of ?ev "[?ev]" E "tickS t"] by (auto simp: logged_def)
  moreover have "prefix (sv_audit t) (sv_audit (written E [?ev] (tickS t)))"
    by (simp add: written_def split: prod.splits)
  ultimately show ?thesis
    using sync inv by (simp add: auditS_def audit_log_def wp_simps Q X inreq_written inreq_failed)
qed

section \<open>The other engines\<close>

lemma keeps_mark [keep_intro]: "keeps (inreq E w T) (updP mark_unavailable)"
  by (simp add: keeps_wp wp_simps)

lemma keeps_circuit [keep_intro]: "keeps (inreq E w T) (circuitS E err s pol)"
  unfolding circuitS_def by (auto intro!: keep_intro)

lemma keeps_observe [keep_intro]: "keeps (inreq E w T) (observeS E s n)"
  unfolding observeS_def by (auto intro!: keep_intro)

lemma keeps_redis:
  assumes "\<And>r. rd_ready (snd (f r)) \<Longrightarrow> (rd_ready r \<and> rd_revoked r \<subseteq> rd_revoked (snd (f r))) \<or> revoked_in T \<subseteq> rd_revoked (snd (f r))"
  shows "keeps (inreq E w T) (redisS E f)"
proof -
  have "inreq E w T ((tickS t)\<lparr>sv_redis := snd (f (sv_redis t))\<rparr>)" if inv: "inreq E w T t" for t
  proof -
    let ?u = "(tickS t)\<lparr>sv_redis := snd (f (sv_redis t))\<rparr>"
    have db: "sv_db t = sv_db w" "revoked_in (sv_db w) \<subseteq> revoked_in T" "cache_ok t"
      using inv by (simp_all add: inreq_def)
    have "cache_ok ?u"
    proof (cases "sv_available t \<and> rd_ready (snd (f (sv_redis t)))")
      case True
      from assms [OF conjunct2 [OF this]] have "revoked_in (sv_db w) \<subseteq> rd_revoked (snd (f (sv_redis t)))"
      proof
        assume "rd_ready (sv_redis t) \<and> rd_revoked (sv_redis t) \<subseteq> rd_revoked (snd (f (sv_redis t)))"
        then show ?thesis using True db unfolding cache_ok_def by auto
      qed (use db(2) in auto)
      then show ?thesis using db(1) by (simp add: cache_ok_def)
    qed (auto simp: cache_ok_def)
    then show ?thesis using inv by (simp add: inreq_def)
  qed
  then show ?thesis by (auto simp: keeps_wp wp_simps)
qed

lemma keeps_mirror:
  "(\<And>r. rd_ready (f r) = rd_ready r \<and> rd_revoked r \<subseteq> rd_revoked (f r)) \<Longrightarrow> keeps (inreq E w T) (mirrorS E f)"
  unfolding mirrorS_def by (intro keep_intro keeps_redis) auto

lemma keeps_rate [keep_intro]: "keeps (inreq E w T) (svc_rate_check E s act)"
  unfolding svc_rate_check_def redis_count_def local_count_def
  by (auto intro!: keep_intro keeps_redis split: prod.splits)

lemma keeps_cache_add [keep_intro]: "keeps (inreq E w T) (cache_add E js)"
  unfolding cache_add_def by (auto intro!: keep_intro keeps_mirror)

lemma keeps_rebuild [keep_intro]: "keeps (inreq E w T) (rebuild_cache E)"
proof -
  have "keeps (inreq E w T) (bindP (queryS tb_revocations) (\<lambda>revoked. bindP (queryS tb_edges) (\<lambda>edges.
       catchP (bindP (redisS E (\<lambda>r. ((), r\<lparr>rd_revoked := rv_jti ` set revoked, rd_edges := rd_edges r \<union> set edges,
                 rd_ready := True\<rparr>))) (\<lambda>_. ret (length revoked)))
         (\<lambda>_. bindP (updP mark_unavailable) (\<lambda>_. ret 0)))))"
    by (auto simp: keeps_wp wp_simps inreq_def cache_ok_def revoked_in_def tickS_def mark_unavailable_def svc_audit_ok_def tail_row_hash_def)
  then show ?thesis unfolding rebuild_cache_def by (auto intro!: keep_intro)
qed

text \<open>With a session \<open>is_revoked\<close> always answers, and never misses a committed revocation.\<close>

lemma keeps_svc_is_revoked [keep_intro]: "keeps (inreq E w T) (svc_is_revoked E j s)"
  unfolding svc_is_revoked_def by (auto intro!: keep_intro keeps_redis)

lemma wp_is_revoked_at:
  assumes inv: "inreq E w T t"
    and Q: "\<And>b u. inreq E w T u \<Longrightarrow> prefix (sv_audit t) (sv_audit u) \<Longrightarrow> (j \<in> revoked_in (sv_db w) \<Longrightarrow> b) \<Longrightarrow> Q b u"
  shows "wp (svc_is_revoked E j True) Q X t"
proof (rule wp_is_revoked)
  fix b u assume u: "redis_only t u" "cache_ok u" and b: "j \<in> revoked_in (sv_db t) \<Longrightarrow> b"
  have "inreq E w T u" using inv u redis_onlyD [OF u(1)]
    by (auto simp: inreq_def svc_audit_ok_def tail_row_hash_def)
  then show "Q b u" using Q b inv redis_onlyD [OF u(1)] by (auto simp: inreq_def)
qed (use inv in \<open>auto simp: inreq_def\<close>)

lemma wp_any_revoked_at:
  assumes inv: "inreq E w T t"
    and Q: "\<And>b u. inreq E w T u \<Longrightarrow> prefix (sv_audit t) (sv_audit u) \<Longrightarrow> (\<not> b \<Longrightarrow> set js \<inter> revoked_in (sv_db w) = {}) \<Longrightarrow> Q b u"
  shows "wp (any_revokedS E js) Q X t"
  using assms
proof (induction js arbitrary: t Q)
  case Nil
  then show ?case by (simp add: wp_simps)
next
  case (Cons j js)
  show ?case unfolding any_revokedS.simps wp_bindP
  proof (rule wp_is_revoked_at [OF Cons.prems(1)])
    fix b u assume u: "inreq E w T u" "prefix (sv_audit t) (sv_audit u)" and b: "j \<in> revoked_in (sv_db w) \<Longrightarrow> b"
    show "wp (if b then ret True else any_revokedS E js) Q X u"
    proof (cases b)
      case True
      then have "Q b u" using Cons.prems(2) [OF u, of b] by simp
      then show ?thesis using True by (simp add: wp_simps)
    next
      case False
      then show ?thesis
        using b by (auto simp: wp_if intro!: Cons.IH [OF u(1)] Cons.prems(2) intro: prefix_order.trans [OF u(2)])
    qed
  qed
qed

end
