(* ===== verification/Service_Refines.thy ===== *)
theory Service_Refines
  imports Service_Frames
begin

text \<open>
  The service refines the same ledger as the library. \<open>tables_ledger\<close> reads the abstract ledger off the
  tables; the lemmas follow each method of the engine to its result: when it succeeds, the tables its
  session sees have moved by steps of the ledger, and the new tokens and revocations have their audit
  rows.
\<close>

section \<open>Tables as a ledger\<close>

definition tables_ledger :: "tables \<Rightarrow> ledger" where
  "tables_ledger t = \<lparr>lg_tokens = map_of (tb_tokens t), lg_edges = set (tb_edges t), lg_revoked = revoked_in t,
     lg_approvals = map_of (tb_approvals t)\<rparr>"

text \<open>Every stored chain was written by \<open>model_dump\<close>, and a token or an approval has one row.\<close>

definition chains_ok :: "tables \<Rightarrow> bool" where
  "chains_ok t \<longleftrightarrow> (\<forall>j m. dget (tb_tokens t) j = Some m \<longrightarrow> (\<exists>es. tm_delegation_chain m = map entry_to_dict es))
     \<and> wf_dict (tb_tokens t) \<and> wf_dict (tb_approvals t)"

definition mint_actions :: "string set" where
  "mint_actions = {''root_token_minted'', ''token_minted'', ''approval_granted''}"

definition mint_row :: "audit_row \<Rightarrow> token_metadata \<Rightarrow> bool" where
  "mint_row row m \<longleftrightarrow> ev_action row \<in> mint_actions \<and> ev_decision row = Some ''allow'' \<and> ev_jti row = Some (tm_jti m)
     \<and> ev_parent_jti row = tm_parent_jti m \<and> ev_root_jti row = Some (tm_root_jti m)
     \<and> ev_scopes row = Some (tm_scopes m) \<and> ev_depth row = Some (tm_depth m)"

definition revoke_row :: "audit_row \<Rightarrow> string \<Rightarrow> bool" where
  "revoke_row row j \<longleftrightarrow> ev_action row = ''token_revoked'' \<and> (\<exists>js n. j \<in> set js
     \<and> ev_detail row = Some (JObj [(''subtree_count'', n), (''revoked_jtis'', json_strs js)]))"

text \<open>Every token and every revocation of the tables has its audit row.\<close>

definition audited :: "tables \<Rightarrow> audit_row list \<Rightarrow> bool" where
  "audited t rows \<longleftrightarrow> (\<forall>j m. dget (tb_tokens t) j = Some m \<longrightarrow> (\<exists>row \<in> set rows. mint_row row m))
     \<and> (\<forall>j \<in> revoked_in t. \<exists>row \<in> set rows. revoke_row row j)"

lemma audited_mono: "audited t rows \<Longrightarrow> prefix rows rows' \<Longrightarrow> audited t rows'"
  unfolding audited_def using set_mono_prefix by blast

definition sound :: "tables \<Rightarrow> audit_row list \<Rightarrow> bool" where
  "sound t rows \<longleftrightarrow> lg_inv (tables_ledger t) \<and> chains_ok t \<and> audited t rows"

definition advances :: "tables \<Rightarrow> tables \<Rightarrow> bool" where
  "advances t t' \<longleftrightarrow> ledger_step\<^sup>*\<^sup>* (tables_ledger t) (tables_ledger t')"

lemma add_subjects_simps [simp]:
  "tables_ledger (add_subjects rows t) = tables_ledger t" "chains_ok (add_subjects rows t) = chains_ok t"
  "audited (add_subjects rows t) lg = audited t lg" "sound (add_subjects rows t) lg = sound t lg"
  "revoked_in (add_subjects rows t) = revoked_in t" "tb_tokens (add_subjects rows t) = tb_tokens t"
  "tb_edges (add_subjects rows t) = tb_edges t" "tb_approvals (add_subjects rows t) = tb_approvals t"
  "advances T (add_subjects rows t) = advances T t"
  by (simp_all add: add_subjects_def tables_ledger_def chains_ok_def audited_def sound_def revoked_in_def advances_def)

lemma add_subjects_Nil [simp]: "add_subjects [] t = t"
  by (simp add: add_subjects_def)

lemma advances_refl [simp]: "advances t t"
  by (simp add: advances_def)

lemma policy_sel:
  "st_jwt_secret st = st_jwt_secret (policy st)" "st_jwt_algorithm st = st_jwt_algorithm (policy st)"
  "st_issuer st = st_issuer (policy st)" "st_sensitive_scopes st = st_sensitive_scopes (policy st)"
  "st_max_delegation_depth st = st_max_delegation_depth (policy st)" "st_admin_api_key st = st_admin_api_key (policy st)"
  by (simp_all add: policy_def)

lemma policy_decode: "policy st = policy st' \<Longrightarrow> svc_decode E st = svc_decode E st'"
  by (intro ext) (simp add: svc_decode_def policy_sel [of st] policy_sel [of st'])

lemma policy_sensitive: "policy st = policy st' \<Longrightarrow> st_sensitive_scopes st = st_sensitive_scopes st'"
  by (metis policy_sel(4))

section \<open>The small steps of a request\<close>

lemma wp_resolve:
  assumes inv: "inreq E w T t" and kind: "kind \<in> {''human'', ''agent''}"
    and Q: "\<And>s rows u. inreq E w (add_subjects rows T) u \<Longrightarrow> sv_audit u = sv_audit t \<Longrightarrow> Q s u"
  shows "wp (resolve_or_create E [] identifier kind) Q X t"
proof -
  let ?digest = "hash_identifier (se_env E) identifier (st_pii_salt (sv_settings t))"
  show ?thesis
  proof (cases "find_subject_row ?digest kind (tb_subjects (sv_tx t))")
    case None
    let ?s = "\<lparr>sj_subject_id = kind @ '':'' @ e_uuid4 (se_env E) (sv_tick t), sj_identifier_hash = ?digest, sj_kind = kind,
        sj_display_label = identifier, sj_created_at = e_clock (se_env E) (Suc (sv_tick t))\<rparr>"
    have "inreq E w (add_subjects [?s] T) ((tickS (tickS t))\<lparr>sv_tx := add_subjects [?s] T,
        sv_settings := svc_register_exempt_subject identifier (sj_subject_id ?s) (sv_settings t)\<rparr>)"
      using inreq_flush [of E w T "tickS (tickS t)" "add_subjects [?s] T"] inv by (auto simp: inreq_def)
    from Q [OF this, of ?s] show ?thesis
      using kind None inreq_tx [OF inv]
      by (auto simp: resolve_or_create_def note_exempt_def wp_simps find_subject_row_def Let_def tickS_def)
  next
    case (Some s)
    have "inreq E w (add_subjects [] T) (t\<lparr>sv_settings := svc_register_exempt_subject identifier (sj_subject_id s) (sv_settings t)\<rparr>)"
      using inv by simp
    from Q [OF this, of s] show ?thesis
      using kind Some by (auto simp: resolve_or_create_def note_exempt_def wp_simps)
  qed
qed

text \<open>A call that keeps every \<open>inreq\<close> only adds audit rows.\<close>

lemma inreq_since: "inreq E (w\<lparr>sv_audit := rows\<rparr>) T u \<and> prefix (sv_audit w) rows \<longleftrightarrow>
    inreq E w T u \<and> prefix (sv_audit w) rows \<and> prefix rows (sv_audit u)"
  by (auto simp: inreq_def intro: prefix_order.trans)

lemma wp_kept:
  assumes inv: "inreq E w T t" and m: "\<And>w T. keeps (inreq E w T) m"
    and Q: "\<And>a u. inreq E w T u \<Longrightarrow> prefix (sv_audit t) (sv_audit u) \<Longrightarrow> Q a u"
    and X: "\<And>x u. inreq E w T u \<Longrightarrow> X x u"
  shows "wp m Q X t"
proof -
  have p: "prefix (sv_audit w) (sv_audit t)" using inv by (simp add: inreq_def)
  then have "inreq E (w\<lparr>sv_audit := sv_audit t\<rparr>) T t"
    using inv inreq_since [where w = w and rows = "sv_audit t" and u = t] by simp
  then have "wp m (\<lambda>_. inreq E (w\<lparr>sv_audit := sv_audit t\<rparr>) T) (\<lambda>_. inreq E (w\<lparr>sv_audit := sv_audit t\<rparr>) T) t"
    using m by (simp add: keeps_wp)
  then show ?thesis
    by (rule wp_mono) (use p inreq_since [where w = w and rows = "sv_audit t"] Q X in blast)+
qed

lemma wp_persist:
  assumes inv: "inreq E w T t"
    and Q: "\<And>u. dget (tb_tokens T) (mt_jti m) = None \<Longrightarrow>
      inreq E w (T\<lparr>tb_tokens := dset (mt_jti m) (svc_meta_of (mt_claims m) p) (tb_tokens T)\<rparr>) u \<Longrightarrow>
      sv_audit u = sv_audit t \<Longrightarrow> Q () u"
    and X: "\<And>x u. inreq E w T u \<Longrightarrow> X x u"
  shows "wp (svc_persist_token m p) Q X t"
  using inreq_flush [OF inv, of "T\<lparr>tb_tokens := dset (mt_jti m) (svc_meta_of (mt_claims m) p) (tb_tokens T)\<rparr>"] inreq_tx [OF inv] inv
  by (auto simp: svc_persist_token_def wp_simps revoked_in_def intro!: Q X)

lemma wp_store:
  assumes inv: "inreq E w T t"
    and Q: "\<And>u. inreq E w (T\<lparr>tb_approvals := dset (pa_approval_id a) a (tb_approvals T)\<rparr>) u \<Longrightarrow>
      sv_audit u = sv_audit t \<Longrightarrow> Q () u"
  shows "wp (store_approval a) Q X t"
  using inreq_flush [OF inv, of "T\<lparr>tb_approvals := dset (pa_approval_id a) a (tb_approvals T)\<rparr>"] inreq_tx [OF inv]
  by (auto simp: store_approval_def wp_simps revoked_in_def intro!: Q)

lemma wp_mirror:
  assumes inv: "inreq E w T t" and f: "\<And>r. rd_ready (f r) = rd_ready r \<and> rd_revoked r \<subseteq> rd_revoked (f r)"
    and Q: "\<And>u. inreq E w T u \<Longrightarrow> prefix (sv_audit t) (sv_audit u) \<Longrightarrow> Q () u"
  shows "wp (mirrorS E f) Q X t"
proof -
  have "wp (mirrorS E f) (\<lambda>_ u. inreq E w T u \<and> prefix (sv_audit t) (sv_audit u)) (\<lambda>_ _. True) t"
    by (rule wp_kept [OF inv keeps_mirror]) (use f in auto)
  moreover have "wp (mirrorS E f) (\<lambda>_ _. True) (\<lambda>_ _. False) t"
    by (simp add: mirrorS_def wp_simps)
  ultimately show ?thesis
    by (rule wp_mono [OF wp_conj]) (simp_all add: Q)
qed

lemma wp_edge:
  assumes inv: "inreq E w T t" and new: "(p, j) \<notin> set (tb_edges T)"
    and Q: "\<And>u. inreq E w (T\<lparr>tb_edges := tb_edges T @ [(p, j)]\<rparr>) u \<Longrightarrow> prefix (sv_audit t) (sv_audit u) \<Longrightarrow> Q () u"
  shows "wp (record_edge E p j) Q X t"
proof -
  have "inreq E w (T\<lparr>tb_edges := tb_edges T @ [(p, j)]\<rparr>) (t\<lparr>sv_tx := T\<lparr>tb_edges := tb_edges T @ [(p, j)]\<rparr>\<rparr>)"
    by (rule inreq_flush [OF inv]) (simp add: revoked_in_def)
  then show ?thesis
    using new inreq_tx [OF inv] by (auto simp: record_edge_def wp_simps intro!: wp_mirror Q)
qed

section \<open>What the steps do to the ledger\<close>

lemma ledger_sel [simp]:
  "lg_tokens (tables_ledger t) = map_of (tb_tokens t)" "lg_edges (tables_ledger t) = set (tb_edges t)"
  "lg_revoked (tables_ledger t) = revoked_in t" "lg_approvals (tables_ledger t) = map_of (tb_approvals t)"
  by (simp_all add: tables_ledger_def)

lemma chain_jtis_svc_meta [simp]: "chain_jtis (svc_meta_of c p) = map ce_jti (c_delegation_chain c)"
  by (simp add: chain_jtis_def svc_meta_of_def entry_roundtrip)

lemma svc_meta_sel [simp]:
  "tm_jti (svc_meta_of c p) = c_jti c" "tm_parent_jti (svc_meta_of c p) = p" "tm_root_jti (svc_meta_of c p) = c_root_jti c"
  "tm_depth (svc_meta_of c p) = c_depth c" "tm_max_depth (svc_meta_of c p) = c_max_depth c"
  "tm_scopes (svc_meta_of c p) = c_scopes c" "tm_expires_at (svc_meta_of c p) = from_ts (c_exp c)"
  "tm_delegation_chain (svc_meta_of c p) = map entry_to_dict (c_delegation_chain c)"
  by (simp_all add: svc_meta_of_def)

lemma child_narrower:
  assumes "c_jti parent = tm_jti pm" "c_depth parent = tm_depth pm" "c_max_depth parent = tm_max_depth pm"
    "c_root_jti parent = tm_root_jti pm" "map ce_jti (c_delegation_chain parent) = chain_jtis pm"
    and "set scopes \<subseteq> set (tm_scopes pm)" "from_ts x \<le> tm_expires_at pm" "tm_depth pm + 1 \<le> tm_max_depth pm"
  shows "narrower (svc_meta_of (child_claims st jti now now' parent sub scopes x ap by_whom) (Some (tm_jti pm))) pm"
  using assms by (simp add: narrower_def child_claims_def svc_chain_entry_for_def)

text \<open>The tables after a token was issued under \<open>p\<close>.\<close>

definition issued_tables :: "string \<Rightarrow> token_metadata \<Rightarrow> tables \<Rightarrow> tables" where
  "issued_tables p m t = t\<lparr>tb_tokens := dset (tm_jti m) m (tb_tokens t), tb_edges := tb_edges t @ [(p, tm_jti m)]\<rparr>"

lemma advancesI: "ledger_step (tables_ledger t) (tables_ledger t') \<Longrightarrow> advances t t'"
  by (simp add: advances_def)

lemma advances_trans: "advances t t' \<Longrightarrow> advances t' t'' \<Longrightarrow> advances t t''"
  by (simp add: advances_def)

lemma issued_step:
  assumes "dget (tb_tokens t) p = Some pm" "p \<notin> revoked_in t" "narrower m pm" "dget (tb_tokens t) (tm_jti m) = None"
  shows "advances t (issued_tables p m t)"
proof (rule advancesI)
  have "tables_ledger (issued_tables p m t) = (tables_ledger t)\<lparr>lg_tokens := (lg_tokens (tables_ledger t))(tm_jti m \<mapsto> m),
      lg_edges := insert (p, tm_jti m) (lg_edges (tables_ledger t))\<rparr>"
    by (simp add: tables_ledger_def issued_tables_def update_conv' revoked_in_def)
  then show "ledger_step (tables_ledger t) (tables_ledger (issued_tables p m t))"
    using Delegate [of "tables_ledger t" p pm m] assms by simp
qed

lemma root_step:
  assumes "is_root_meta m" "dget (tb_tokens t) (tm_jti m) = None"
  shows "advances t (t\<lparr>tb_tokens := dset (tm_jti m) m (tb_tokens t)\<rparr>)"
proof (rule advancesI)
  have "tables_ledger (t\<lparr>tb_tokens := dset (tm_jti m) m (tb_tokens t)\<rparr>)
      = (tables_ledger t)\<lparr>lg_tokens := (lg_tokens (tables_ledger t))(tm_jti m \<mapsto> m)\<rparr>"
    by (simp add: tables_ledger_def update_conv' revoked_in_def)
  then show "ledger_step (tables_ledger t) (tables_ledger (t\<lparr>tb_tokens := dset (tm_jti m) m (tb_tokens t)\<rparr>))"
    using Mint [of m "tables_ledger t"] assms by simp
qed

definition approval_tables :: "pending_approval \<Rightarrow> tables \<Rightarrow> tables" where
  "approval_tables a t = t\<lparr>tb_approvals := dset (pa_approval_id a) a (tb_approvals t)\<rparr>"

lemma tables_simps [simp]:
  "revoked_in (approval_tables a t) = revoked_in t" "tb_tokens (approval_tables a t) = tb_tokens t"
  "tb_edges (approval_tables a t) = tb_edges t" "revoked_in (issued_tables p m t) = revoked_in t"
  "tb_approvals (issued_tables p m t) = tb_approvals t"
  by (simp_all add: approval_tables_def issued_tables_def revoked_in_def)

lemma approval_ledger: "tables_ledger (approval_tables a t)
    = (tables_ledger t)\<lparr>lg_approvals := (lg_approvals (tables_ledger t))(pa_approval_id a \<mapsto> a)\<rparr>"
  by (simp add: tables_ledger_def approval_tables_def update_conv' revoked_in_def)

lemma park_step:
  "dget (tb_tokens t) (pa_parent_jti a) = Some pm \<Longrightarrow> covered a pm \<Longrightarrow> is_pending a \<Longrightarrow> advances t (approval_tables a t)"
  using Park [of "tables_ledger t" a pm] by (auto intro: advancesI simp: approval_ledger)

lemma decide_step:
  "dget (tb_approvals t) (pa_approval_id a) \<noteq> None \<Longrightarrow> \<not> is_pending a \<Longrightarrow> advances t (approval_tables a t)"
  using Decide [of "tables_ledger t" a] by (auto intro: advancesI simp: approval_ledger)

lemma revoke_step:
  assumes "set js = (set (tb_edges t))\<^sup>* `` {j}"
  shows "advances t (new_revocations js j reason now t)"
proof (rule advancesI)
  have "tables_ledger (new_revocations js j reason now t)
      = (tables_ledger t)\<lparr>lg_revoked := lg_revoked (tables_ledger t) \<union> (lg_edges (tables_ledger t))\<^sup>* `` {j}\<rparr>"
    using assms by (simp add: tables_ledger_def)
  then show "ledger_step (tables_ledger t) (tables_ledger (new_revocations js j reason now t))"
    using Revoke [of "tables_ledger t" j] by simp
qed

section \<open>What they do to the rest of the invariant\<close>

lemma soundI: "sound t rows \<Longrightarrow> advances t t' \<Longrightarrow> chains_ok t' \<Longrightarrow> audited t' rows' \<Longrightarrow> sound t' rows'"
  using lg_inv_steps by (auto simp: sound_def advances_def)

lemma sound_mono: "sound t rows \<Longrightarrow> prefix rows rows' \<Longrightarrow> sound t rows'"
  using audited_mono by (auto simp: sound_def)

lemma sound_issued:
  assumes "sound t rows" "advances t (issued_tables p m t)" "\<exists>es. tm_delegation_chain m = map entry_to_dict es"
    and "prefix rows rows'" "\<exists>row \<in> set rows'. mint_row row m"
  shows "sound (issued_tables p m t) rows'"
proof (rule soundI [OF assms(1,2)])
  show "chains_ok (issued_tables p m t)" using assms(1,3) by (auto simp: sound_def chains_ok_def issued_tables_def update_conv')
  show "audited (issued_tables p m t) rows'"
    using assms(1,5) audited_mono [OF _ assms(4)] by (auto simp: sound_def audited_def issued_tables_def update_conv' revoked_in_def)
qed

lemma sound_root:
  fixes t m
  defines "t' \<equiv> t\<lparr>tb_tokens := dset (tm_jti m) m (tb_tokens t)\<rparr>"
  assumes "sound t rows" "advances t t'" "tm_delegation_chain m = []"
    and "prefix rows rows'" "\<exists>row \<in> set rows'. mint_row row m"
  shows "sound t' rows'"
proof (rule soundI [OF assms(2,3)])
  show "chains_ok t'" using assms(2,4) by (auto simp: sound_def chains_ok_def t'_def update_conv')
  show "audited t' rows'"
    using assms(2,6) audited_mono [OF _ assms(5)] by (auto simp: sound_def audited_def t'_def update_conv' revoked_in_def)
qed

lemma sound_approval:
  assumes "sound t rows" "advances t (approval_tables a t)" "prefix rows rows'"
  shows "sound (approval_tables a t) rows'"
proof (rule soundI [OF assms(1,2)])
  show "chains_ok (approval_tables a t)" using assms(1) by (simp add: sound_def chains_ok_def approval_tables_def)
  have "audited (approval_tables a t) rows' = audited t rows'" by (simp add: audited_def approval_tables_def revoked_in_def)
  then show "audited (approval_tables a t) rows'" using assms(1) audited_mono [OF _ assms(3)] by (simp add: sound_def)
qed

lemma sound_revoked:
  assumes "sound t rows" "advances t (new_revocations js j reason now t)"
    and "prefix rows rows'" "\<exists>row \<in> set rows'. \<forall>x \<in> set js. revoke_row row x"
  shows "sound (new_revocations js j reason now t) rows'"
proof (rule soundI [OF assms(1,2)])
  show "chains_ok (new_revocations js j reason now t)" using assms(1) by (simp add: sound_def chains_ok_def)
  show "audited (new_revocations js j reason now t) rows'"
    using assms(1,4) audited_mono [OF _ assms(3)] by (auto simp: sound_def audited_def)
qed

text \<open>A logged event, seen in the log.\<close>

lemma logged_row: "logged u ev \<Longrightarrow> \<exists>row \<in> set (sv_audit u). ev_action row = ev_action ev \<and> ev_decision row = ev_decision ev
    \<and> ev_jti row = ev_jti ev \<and> ev_parent_jti row = ev_parent_jti ev \<and> ev_root_jti row = ev_root_jti ev
    \<and> ev_scopes row = ev_scopes ev \<and> ev_depth row = ev_depth ev \<and> ev_detail row = ev_detail ev"
  by (cases ev) (force simp: logged_def audit_event.truncate_def)

section \<open>The operations\<close>

text \<open>\<open>u\<close> ends a request begun in \<open>w\<close>: in success, ready to commit, or with an exception.\<close>

definition moves :: "svc_env \<Rightarrow> service \<Rightarrow> service \<Rightarrow> bool" where
  "moves E w u \<longleftrightarrow> (\<exists>T. inreq E w T u \<and> advances (sv_db w) T \<and> sound T (sv_audit u) \<and> cache_ok (commit_tx u))"

definition stays :: "svc_env \<Rightarrow> service \<Rightarrow> service \<Rightarrow> bool" where
  "stays E w u \<longleftrightarrow> (\<exists>T. inreq E w T u)"

lemma staysI: "inreq E w T u \<Longrightarrow> stays E w u"
  by (auto simp: stays_def)

lemma movesI:
  "inreq E w T u \<Longrightarrow> advances (sv_db w) T \<Longrightarrow> sound T rows \<Longrightarrow> prefix rows (sv_audit u) \<Longrightarrow>
    revoked_in T = revoked_in (sv_db w) \<Longrightarrow> moves E w u"
  unfolding moves_def by (rule exI [of _ T]) (auto simp: inreq_def cache_ok_def commit_tx_def intro: sound_mono)

text \<open>Calls of other engines at the end of a method.\<close>

lemma wp_kept_moves:
  assumes "inreq E w T t" "advances (sv_db w) T" "sound T (sv_audit t)" "revoked_in T = revoked_in (sv_db w)"
    and "\<And>w T. keeps (inreq E w T) m"
  shows "wp m (\<lambda>_. moves E w) (\<lambda>_. stays E w) t"
  by (rule wp_kept [OF assms(1,5)]) (use assms in \<open>auto intro: movesI staysI\<close>)

lemma wp_ret_moves: "inreq E w T t \<Longrightarrow> advances (sv_db w) T \<Longrightarrow> sound T (sv_audit t) \<Longrightarrow> revoked_in T = revoked_in (sv_db w) \<Longrightarrow>
    wp (ret a) (\<lambda>_. moves E w) (\<lambda>_. stays E w) t"
  by (simp add: wp_simps movesI)

lemma keeps_stays: "inreq E w T t \<Longrightarrow> (\<And>w T. keeps (inreq E w T) m) \<Longrightarrow> wp m (\<lambda>_. stays E w) (\<lambda>_. stays E w) t"
  by (rule wp_kept) (auto intro: staysI)

text \<open>A token persisted at a root, and its audit row.\<close>

lemma root_moves:
  fixes T c
  defines "T' \<equiv> T\<lparr>tb_tokens := dset (c_jti c) (svc_meta_of c None) (tb_tokens T)\<rparr>"
  assumes "inreq E w T' v" "advances (sv_db w) T" "sound T rows" "prefix rows (sv_audit v)" "revoked_in T = revoked_in (sv_db w)"
    and new: "dget (tb_tokens T) (c_jti c) = None" and root: "is_root_meta (svc_meta_of c None)" "c_delegation_chain c = []"
    and row: "logged v ev" "ev_action ev = ''root_token_minted''" "ev_decision ev = Some ''allow''"
      "ev_jti ev = Some (c_jti c)" "ev_parent_jti ev = None" "ev_root_jti ev = Some (c_jti c)" "ev_scopes ev = Some (c_scopes c)"
      "ev_depth ev = Some 0"
  shows "moves E w v"
proof -
  have step: "advances T T'" using root_step [OF root(1)] new by (simp add: T'_def)
  have "\<exists>row \<in> set (sv_audit v). mint_row row (svc_meta_of c None)"
    using logged_row [OF row(1)] row(2-) root(1) by (auto simp: mint_row_def mint_actions_def is_root_meta_def)
  then have "sound T' (sv_audit v)"
    using sound_root [OF assms(4), of "svc_meta_of c None"] step assms(5) root(2) by (simp add: T'_def)
  then show ?thesis
    using assms(2,6) advances_trans [OF assms(3) step] by (intro movesI [where T = T']) (auto simp: T'_def revoked_in_def)
qed

lemma wp_svc_mint_root:
  assumes inv: "inreq E w (sv_db w) t" and snd: "sound (sv_db w) (sv_audit w)"
    and depth: "case max_depth of None \<Rightarrow> True | Some d \<Rightarrow> 0 \<le> d" "1 \<le> st_max_delegation_depth (sv_settings w)"
  shows "wp (svc_mint_root E human scopes ttl max_depth) (\<lambda>_. moves E w) (\<lambda>_. stays E w) t"
  unfolding svc_mint_root_def wp_bindP wp_getsP Let_def wp_mint_rootS
proof (rule wp_resolve [OF inv], goal_cases)
  case (2 s rows u)
  have "policy (sv_settings u) = policy (sv_settings w)" using 2 by (simp add: inreq_def)
  then have d: "1 \<le> st_max_delegation_depth (sv_settings u)"
    using depth policy_sel(5) [of "sv_settings u"] policy_sel(5) [of "sv_settings w"] by simp
  have snd': "sound (add_subjects rows (sv_db w)) (sv_audit u)" using sound_mono [OF snd] 2 by (simp add: inreq_def)
  show ?case
  proof (rule wp_persist [where E = E and w = w and T = "add_subjects rows (sv_db w)"], goal_cases)
    case (2 v)
    note new = 2(1) [unfolded minted_of_simps] and v = 2(2) [unfolded minted_of_simps]
    show ?case unfolding wp_bindP
    proof (rule wp_auditS [OF v], goal_cases)
      case (2 x)
      show ?case unfolding wp_ret
        by (rule root_moves [OF 2(1) _ snd' _ _ new _ _ 2(3)])
          (use 2(2) v d depth \<open>sv_audit v = _\<close> in \<open>auto simp: is_root_meta_def root_claims_def blank_event_def split: option.splits\<close>)
    qed (auto simp: BUFFERABLE_def blank_event_def intro: staysI)
  qed (use 2 in \<open>auto intro: staysI\<close>)
qed simp

text \<open>A live parent: authentic, and neither it nor an ancestor is revoked in the committed rows.\<close>

lemma wp_decode_live_parent:
  assumes inv: "inreq E w T t"
    and Q: "\<And>c u now. inreq E w T u \<Longrightarrow> prefix (sv_audit t) (sv_audit u) \<Longrightarrow>
      svc_decode E (sv_settings w) now tok False = Inr c \<Longrightarrow>
      set (c_jti c # map ce_jti (c_delegation_chain c)) \<inter> revoked_in (sv_db w) = {} \<Longrightarrow> Q c u"
    and X: "\<And>x u. inreq E w T u \<Longrightarrow> X x u"
  shows "wp (decode_live_parent E tok) Q X t"
proof -
  have "svc_decode E (sv_settings t) = svc_decode E (sv_settings w)"
    by (rule policy_decode) (use inv in \<open>simp add: inreq_def\<close>)
  then have dec: "svc_decode E (sv_settings t) (e_clock (se_env E) (sv_tick t)) tok False = Inr c \<Longrightarrow>
      svc_decode E (sv_settings w) (e_clock (se_env E) (sv_tick t)) tok False = Inr c" for c by simp
  show ?thesis unfolding decode_live_parent_def wp_bindP
    by (simp add: wp_simps del: any_revokedS.simps split: sum.splits)
      (use inv dec in \<open>auto simp: wp_simps simp del: any_revokedS.simps intro!: X wp_any_revoked_at [where w = w and T = T] intro: Q\<close>)
qed

lemma keeps_root_alive [keep_intro]: "keeps (inreq E w T) (svc_assert_root_alive E c)"
  unfolding svc_assert_root_alive_def by (auto intro!: keep_intro split: option.splits)

lemma logged_mint:
  assumes "logged u ev" "ev_action ev \<in> mint_actions" "ev_decision ev = Some ''allow''" "ev_jti ev = Some (tm_jti m)"
    "ev_parent_jti ev = tm_parent_jti m" "ev_root_jti ev = Some (tm_root_jti m)" "ev_scopes ev = Some (tm_scopes m)"
    "ev_depth ev = Some (tm_depth m)"
  shows "\<exists>row \<in> set (sv_audit u). mint_row row m"
proof -
  from logged_row [OF assms(1)] obtain row where "row \<in> set (sv_audit u)" "mint_row row m"
    using assms(2-) unfolding mint_row_def by metis
  then show ?thesis ..
qed

lemma lg_invD: "sound T rows \<Longrightarrow> lg_inv (tables_ledger T)"
  by (simp add: sound_def)

text \<open>Persisting a child and its edge.\<close>

lemma wp_issue_rows:
  assumes inv: "inreq E w T t" and snd: "sound T rows"
    and Q: "\<And>u. dget (tb_tokens T) (mt_jti m) = None \<Longrightarrow>
      inreq E w (issued_tables p (svc_meta_of (mt_claims m) (Some p)) T) u \<Longrightarrow> prefix (sv_audit t) (sv_audit u) \<Longrightarrow> wp k Q X u"
    and X: "\<And>x u. inreq E w T u \<Longrightarrow> X x u"
  shows "wp (bindP (svc_persist_token m (Some p)) (\<lambda>_. bindP (record_edge E p (mt_jti m)) (\<lambda>_. k))) Q X t"
  unfolding wp_bindP
proof (rule wp_persist [OF inv], goal_cases)
  case (1 u)
  show ?case
  proof (rule wp_edge [OF 1(2)], goal_cases)
    case 1
    then show ?case using lg_fresh_no_edge [OF lg_invD [OF snd], of "mt_jti m" p] \<open>dget _ _ = None\<close> by simp
  next
    case (2 v)
    then show ?case using Q [OF 1(1), of v] 1(3) by (simp add: issued_tables_def mt_jti_def)
  qed
qed (rule X)

text \<open>A parent that may delegate: its record is in the tables, unrevoked.\<close>

definition live_parent :: "tables \<Rightarrow> claims \<Rightarrow> bool" where
  "live_parent T c \<longleftrightarrow> (\<exists>q. dget (tb_tokens T) (c_jti c) = Some (svc_meta_of c q)) \<and> c_jti c \<notin> revoked_in T"

lemma live_parent_subjects [simp]: "live_parent (add_subjects rows T) c = live_parent T c"
  by (simp add: live_parent_def)

lemma child_step:
  assumes "live_parent T parent" "set scopes \<subseteq> set (c_scopes parent)" "x \<le> c_exp parent" "c_depth parent + 1 \<le> c_max_depth parent"
    and "dget (tb_tokens T) jti = None"
  shows "advances T (issued_tables (c_jti parent)
    (svc_meta_of (child_claims st jti now now' parent sub scopes x ap by_whom) (Some (c_jti parent))) T)"
proof -
  obtain q where q: "dget (tb_tokens T) (c_jti parent) = Some (svc_meta_of parent q)" "c_jti parent \<notin> revoked_in T"
    using assms(1) by (auto simp: live_parent_def)
  have "narrower (svc_meta_of (child_claims st jti now now' parent sub scopes x ap by_whom) (Some (tm_jti (svc_meta_of parent q))))
      (svc_meta_of parent q)"
    by (rule child_narrower) (use assms in \<open>auto simp: from_ts_def\<close>)
  then show ?thesis using issued_step [OF q] assms(5) by (simp add: child_claims_def)
qed

text \<open>What a granted delegation answers with: the service's own signature of a claim set that narrows the
  parent's, recorded under its parent with the scopes asked for.\<close>

definition minted_under :: "svc_env \<Rightarrow> settings \<Rightarrow> claims \<Rightarrow> string list \<Rightarrow> minted_token \<Rightarrow> tables \<Rightarrow> bool" where
  "minted_under E st parent scopes m T \<longleftrightarrow> mt_token m = svc_encode E st (mt_claims m) \<and> c_iss (mt_claims m) = st_issuer st
     \<and> c_scopes (mt_claims m) = sorted_set scopes \<and> set scopes \<subseteq> set (c_scopes parent)
     \<and> c_exp (mt_claims m) \<le> c_exp parent \<and> c_depth (mt_claims m) = c_depth parent + 1
     \<and> c_depth (mt_claims m) \<le> c_max_depth parent \<and> c_max_depth (mt_claims m) = c_max_depth parent
     \<and> c_root_jti (mt_claims m) = c_root_jti parent
     \<and> ancestor_jtis (mt_claims m) = ancestor_jtis parent @ [c_jti parent]
     \<and> (c_jti parent, mt_jti m) \<in> set (tb_edges T)
     \<and> dget (tb_tokens T) (mt_jti m) = Some (svc_meta_of (mt_claims m) (Some (c_jti parent)))"

definition delegated_under :: "svc_env \<Rightarrow> settings \<Rightarrow> claims \<Rightarrow> string list \<Rightarrow> delegate_result \<Rightarrow> tables \<Rightarrow> bool" where
  "delegated_under E st parent scopes r T \<longleftrightarrow>
     (case r of Minted m \<Rightarrow> minted_under E st parent scopes m T | PendingApprovalCreated _ \<Rightarrow> True)"

lemma policy_encode: "policy st = policy st' \<Longrightarrow> svc_encode E st c = svc_encode E st' c" "policy st = policy st' \<Longrightarrow> st_issuer st = st_issuer st'"
  by (simp_all add: svc_encode_def policy_sel [of st] policy_sel [of st'])

lemma wp_svc_delegate_issue:
  assumes inv: "inreq E w T t" and adv: "advances (sv_db w) T" and snd: "sound T (sv_audit t)"
    and rev: "revoked_in T = revoked_in (sv_db w)" and parent: "live_parent T parent"
    and narrow: "set scopes \<subseteq> set (c_scopes parent)" "x \<le> c_exp parent" "c_depth parent + 1 \<le> c_max_depth parent"
  shows "wp (svc_delegate_issue E parent child scopes x) (\<lambda>m u. moves E w u \<and> minted_under E (sv_settings w) parent scopes m (sv_tx u)) (\<lambda>_. stays E w) t"
  unfolding svc_delegate_issue_def wp_bindP [of "resolve_or_create _ _ _ _"]
proof (rule wp_resolve [OF inv], goal_cases)
  case (2 s rows u)
  let ?T = "add_subjects rows T"
  let ?c = "child_claims (sv_settings u) (e_uuid4 (se_env E) (sv_tick u + 2)) (ts_of (e_clock (se_env E) (sv_tick u)))
      (e_clock (se_env E) (Suc (sv_tick u))) parent (sj_subject_id s) scopes x False None"
  let ?m = "svc_meta_of ?c (Some (c_jti parent))"
  have adv': "advances (sv_db w) ?T" and snd': "sound ?T (sv_audit u)" and rev': "revoked_in ?T = revoked_in (sv_db w)"
    using adv snd rev 2 by simp_all
  have pol: "policy (sv_settings u) = policy (sv_settings w)" using 2(1) by (simp add: inreq_def)
  show ?case unfolding wp_bindP [of "mint_childS _ _ _ _ _ _ _"] wp_mint_childS
  proof (rule wp_issue_rows [where w = w and T = ?T], goal_cases)
    case (3 v)
    have new: "dget (tb_tokens ?T) (c_jti ?c) = None" and v: "inreq E w (issued_tables (c_jti parent) ?m ?T) v"
      using 3 by simp_all
    have step: "advances ?T (issued_tables (c_jti parent) ?m ?T)"
      by (rule child_step) (use parent narrow new in \<open>auto simp: child_claims_def\<close>)
    have minted: "minted_under E (sv_settings w) parent scopes (minted_of E (sv_settings u) ?c) (issued_tables (c_jti parent) ?m ?T)"
      using narrow policy_encode(1) [OF pol, of E ?c] policy_encode(2) [OF pol]
      by (simp add: minted_under_def issued_tables_def child_claims_def ancestor_jtis_def svc_chain_entry_for_def)
    show ?case unfolding wp_bindP [of "auditS _ _"]
    proof (rule wp_auditS [OF v], goal_cases)
      case (2 y)
      have "\<exists>row \<in> set (sv_audit y). mint_row row ?m"
        by (rule logged_mint [OF 2(3)]) (simp_all add: mint_actions_def blank_event_def)
      then have "sound (issued_tables (c_jti parent) ?m ?T) (sv_audit y)"
        using sound_issued [OF snd' step] 2(2) 3(3) by (auto intro: prefix_order.trans)
      then show ?case unfolding wp_bindP
        by (intro wp_kept [OF 2(1) keeps_circuit])
          (use rev' advances_trans [OF adv' step] minted in \<open>auto simp: wp_simps inreq_tx intro: movesI staysI\<close>)
    qed (auto simp: BUFFERABLE_def blank_event_def intro: staysI)
  qed (use 2 snd' in \<open>auto intro: staysI\<close>)
qed simp

lemma wp_create_pending:
  assumes inv: "inreq E w T t" and adv: "advances (sv_db w) T" and snd: "sound T (sv_audit t)"
    and rev: "revoked_in T = revoked_in (sv_db w)" and parent: "live_parent T parent"
    and narrow: "set scopes \<subseteq> set (c_scopes parent)" "c_depth parent + 1 \<le> c_max_depth parent"
    and Q: "\<And>a u T. inreq E w T u \<Longrightarrow> advances (sv_db w) T \<Longrightarrow> sound T (sv_audit u) \<Longrightarrow> revoked_in T = revoked_in (sv_db w) \<Longrightarrow> Q a u"
    and X: "\<And>x u. stays E w u \<Longrightarrow> X x u"
  shows "wp (create_pending_approval E parent child scopes ttl) Q X t"
  unfolding create_pending_approval_def wp_bindP wp_getsP
proof (rule wp_resolve [OF inv], goal_cases)
  case (2 s rows u)
  let ?T = "add_subjects rows T"
  have store: "wp (store_approval a) Q' X u'"
    if u': "inreq E w ?T u'" and a: "pa_parent_jti a = c_jti parent" "pa_requested_scopes a = scopes" "pa_parent_exp a = c_exp parent"
      "pa_status a = ''pending''" and Q': "\<And>v. inreq E w (approval_tables a ?T) v \<Longrightarrow> advances (sv_db w) (approval_tables a ?T) \<Longrightarrow>
        sv_audit v = sv_audit u' \<Longrightarrow> sound (approval_tables a ?T) (sv_audit u) \<Longrightarrow> Q' () v" for a u' Q'
  proof -
    obtain q where q: "dget (tb_tokens ?T) (pa_parent_jti a) = Some (svc_meta_of parent q)"
      using parent a by (auto simp: live_parent_def)
    have step: "advances ?T (approval_tables a ?T)"
      by (rule park_step [OF q]) (use narrow a in \<open>auto simp: covered_def is_pending_def\<close>)
    have "sound (approval_tables a ?T) (sv_audit u)"
      by (rule sound_approval [OF _ step, of "sv_audit t"]) (use snd 2 in auto)
    then show ?thesis
      using advances_trans [OF _ step] adv
      by (intro wp_store [OF u'] Q') (simp_all add: approval_tables_def)
  qed
  have fin: "wp (bindP (auditS E ev) (\<lambda>_. ret b)) Q X v"
    if v: "inreq E w (approval_tables a ?T) v" "advances (sv_db w) (approval_tables a ?T)" "sound (approval_tables a ?T) (sv_audit v)"
      and ev: "ev_action ev = ''approval_pending''" for a b v ev
    using v rev ev unfolding wp_bindP wp_ret
    by (intro wp_kept [OF v(1) keeps_audit] Q [where T = "approval_tables a ?T"] X staysI)
      (auto intro: sound_mono)
  show ?case using 2
    by (auto simp: wp_simps inreq_tx intro!: X staysI store fin [unfolded wp_bindP wp_ret])
qed simp

lemma wp_svc_delegate_granted:
  assumes inv: "inreq E w (sv_db w) t" and snd: "sound (sv_db w) (sv_audit w)"
    and parent: "live_parent (sv_db w) parent"
    and narrow: "set scopes \<subseteq> set (c_scopes parent)" "c_depth parent + 1 \<le> c_max_depth parent"
  shows "wp (svc_delegate_granted E parent child scopes ttl) (\<lambda>r u. moves E w u \<and> delegated_under E (sv_settings w) parent scopes r (sv_tx u)) (\<lambda>_. stays E w) t"
proof -
  let ?ok = "\<lambda>u. inreq E w (sv_db w) u \<and> sound (sv_db w) (sv_audit u)"
  have ok: "?ok u" if "inreq E w (sv_db w) u" for u
    using that sound_mono [OF snd] by (auto simp: inreq_def)
  have circ: "wp (circuitS E False (Some (c_sub parent)) False) (\<lambda>_. moves E w) (\<lambda>_. stays E w) u"
    if "inreq E w T u" "advances (sv_db w) T" "sound T (sv_audit u)" "revoked_in T = revoked_in (sv_db w)" for u T
    by (rule wp_kept_moves [OF that keeps_circuit])
  have pend: "wp (create_pending_approval E parent child scopes ttl)
      (\<lambda>_. wp (circuitS E False (Some (c_sub parent)) False) (\<lambda>_. moves E w) (\<lambda>_. stays E w)) (\<lambda>_. stays E w) u"
    if u: "inreq E w (sv_db w) u" for u
    by (rule wp_create_pending [OF u _ conjunct2 [OF ok [OF u]] _ parent narrow]) (auto intro: circ)
  have issue: "wp (svc_delegate_issue E parent child scopes x) (\<lambda>m u. moves E w u \<and> minted_under E (sv_settings w) parent scopes m (sv_tx u)) (\<lambda>_. stays E w) u"
    if u: "inreq E w (sv_db w) u" and x: "x \<le> c_exp parent" for u x
    by (rule wp_svc_delegate_issue [OF u _ conjunct2 [OF ok [OF u]] _ parent narrow(1) x narrow(2)]) auto
  have rest: "wp (bindP (now_tsS E) (\<lambda>now. bindP (getsP (\<lambda>w. filter (\<lambda>s. s \<in> st_sensitive_scopes (sv_settings w)) scopes)) (\<lambda>sens.
      if sens \<noteq> [] then bindP (create_pending_approval E parent child scopes ttl) (\<lambda>p.
          bindP (circuitS E False (Some (c_sub parent)) False) (\<lambda>_. ret (PendingApprovalCreated p)))
      else bindP (svc_delegate_issue E parent child scopes (min (now + ttl) (c_exp parent))) (\<lambda>m. ret (Minted m)))))
        (\<lambda>r u. moves E w u \<and> delegated_under E (sv_settings w) parent scopes r (sv_tx u)) (\<lambda>_. stays E w) u" if "inreq E w (sv_db w) u" for u
    using that by (simp add: wp_simps pend issue delegated_under_def)
  show ?thesis unfolding svc_delegate_granted_def Let_def
  proof (subst wp_bindP, rule wp_kept [OF inv keeps_observe], goal_cases)
    case (1 anomaly u)
    show ?case
      by (subst wp_bindP, rule wp_kept [OF 1(1)]) (auto intro!: keep_intro rest staysI split: option.splits)
  qed (rule staysI)
qed

text \<open>What a presented token decodes to is on record, unless it is revoked or names a revoked ancestor.\<close>

definition svc_honest :: "svc_env \<Rightarrow> service \<Rightarrow> string \<Rightarrow> bool" where
  "svc_honest E w tok \<longleftrightarrow> (\<forall>now c. svc_decode E (sv_settings w) now tok False = Inr c \<longrightarrow>
     set (c_jti c # map ce_jti (c_delegation_chain c)) \<inter> revoked_in (sv_db w) = {} \<longrightarrow>
     (\<exists>q. dget (tb_tokens (sv_db w)) (c_jti c) = Some (svc_meta_of c q)))"

lemma wp_svc_delegate:
  assumes inv: "inreq E w (sv_db w) t" and snd: "sound (sv_db w) (sv_audit w)" and hon: "svc_honest E w tok"
  shows "wp (svc_delegate E tok child scopes ttl) (\<lambda>r u. moves E w u \<and> (\<exists>now parent. svc_decode E (sv_settings w) now tok False = Inr parent \<and> live_parent (sv_db w) parent
        \<and> delegated_under E (sv_settings w) parent scopes r (sv_tx u))) (\<lambda>_. stays E w) t"
proof -
  let ?Q = "\<lambda>r u. moves E w u \<and> (\<exists>now parent. svc_decode E (sv_settings w) now tok False = Inr parent \<and> live_parent (sv_db w) parent
        \<and> delegated_under E (sv_settings w) parent scopes r (sv_tx u))"
  let ?denied = "\<lambda>parent. filter (\<lambda>s. s \<notin> scope_set parent) scopes"
  have body: "wp (if ?denied parent \<noteq> [] then bindP (auditS E ev) (\<lambda>_. bindP m (\<lambda>_. raise x))
      else if c_max_depth parent < c_depth parent + 1 then bindP (auditS E ev') (\<lambda>_. bindP m (\<lambda>_. raise x'))
      else svc_delegate_granted E parent child scopes ttl) ?Q (\<lambda>_. stays E w) u"
    if u: "inreq E w (sv_db w) u" and parent: "live_parent (sv_db w) parent"
      and dec: "svc_decode E (sv_settings w) now tok False = Inr parent"
      and m: "m = circuitS E True (Some (c_sub parent)) True" for u parent ev ev' m x x' now
  proof -
    have bad: "wp (bindP (auditS E ev) (\<lambda>_. bindP m (\<lambda>_. raise x :: delegate_result svc))) ?Q (\<lambda>_. stays E w) u" for ev and x :: svc_error
      unfolding wp_bindP wp_raise
      by (rule wp_kept [OF u keeps_audit]) (auto simp: m intro: keeps_stays [OF _ keeps_circuit] staysI)
    have "set scopes \<subseteq> set (c_scopes parent)" if "?denied parent = []"
      using that by (auto simp: filter_empty_conv scope_set_def)
    moreover have "wp (svc_delegate_granted E parent child scopes ttl) ?Q (\<lambda>_. stays E w) u"
      if "set scopes \<subseteq> set (c_scopes parent)" "c_depth parent + 1 \<le> c_max_depth parent"
      by (rule wp_mono [OF wp_svc_delegate_granted [OF u snd parent that]]) (use dec parent in blast)+
    ultimately show ?thesis using bad by (simp add: not_less)
  qed
  show ?thesis unfolding svc_delegate_def Let_def
  proof (subst wp_bindP, rule wp_kept [OF inv], goal_cases)
    case (2 a u)
    show ?case
    proof (subst wp_bindP, rule wp_decode_live_parent [OF 2(1)], goal_cases)
      case (1 parent v now)
      have parent: "live_parent (sv_db w) parent"
        using hon 1(3,4) by (auto simp: svc_honest_def live_parent_def)
      have dec: "svc_decode E (sv_settings w) now tok False = Inr parent" by (rule 1(3))
      show ?case
      proof (subst wp_bindP, rule wp_kept [OF 1(1) keeps_rate], goal_cases)
        case (1 b v')
        show ?case
        proof (subst wp_bindP, rule wp_kept [OF 1(1) keeps_root_alive], goal_cases)
          case (1 c y)
          show ?case by (rule body [OF 1(1) parent dec refl])
        qed (rule staysI)
      qed (rule staysI)
    qed (rule staysI)
  qed (auto intro: keep_intro staysI)
qed

lemma wp_svc_delegate_moves:
  "inreq E w (sv_db w) t \<Longrightarrow> sound (sv_db w) (sv_audit w) \<Longrightarrow> svc_honest E w tok \<Longrightarrow>
    wp (svc_delegate E tok child scopes ttl) (\<lambda>_. moves E w) (\<lambda>_. stays E w) t"
  by (rule wp_mono [OF wp_svc_delegate]) auto

end
