(* ===== verification/Service_Decisions.thy ===== *)
theory Service_Decisions
  imports Service_Refines
begin

text \<open>
  The remaining methods of the engine as steps of the ledger: the decisions on parked requests, their
  expiry and collection, revocation, and the methods that change no table.
\<close>

section \<open>Decisions\<close>

lemma pendingD:
  assumes "sound T rows" "dget (tb_approvals T) i = Some r"
  shows "pa_approval_id r = i"
    and "pa_status r = ''pending'' \<Longrightarrow> \<exists>pm. dget (tb_tokens T) (pa_parent_jti r) = Some pm \<and> covered r pm"
  using lg_approvalD [OF lg_invD [OF assms(1)], of i r] assms(2) by (auto simp: is_pending_def)

lemma wp_svc_load_pending:
  assumes inv: "inreq E w (sv_db w) t" and snd: "sound (sv_db w) (sv_audit w)"
    and Q: "\<And>r u. inreq E w (sv_db w) u \<Longrightarrow> sv_audit u = sv_audit t \<Longrightarrow> dget (tb_approvals (sv_db w)) i = Some r \<Longrightarrow>
      pa_status r = ''pending'' \<Longrightarrow> Q r u"
    and X: "\<And>x u. stays E w u \<Longrightarrow> X x u"
  shows "wp (svc_load_pending E i) Q X t"
proof -
  have lost: "wp (store_approval r) (\<lambda>_. X SvcValueError) X u" if "inreq E w (sv_db w) u" for r u
    by (rule wp_store [OF that]) (auto intro: X staysI)
  show ?thesis
    using inv inreq_tx [OF inv]
    by (auto simp: svc_load_pending_def wp_simps intro!: X Q lost intro: staysI split: option.splits)
qed

text \<open>A decision: the row of a request on record is replaced by one that is not pending.\<close>

lemma decision:
  assumes "inreq E w T t" "advances (sv_db w) T" "sound T (sv_audit t)" "revoked_in T = revoked_in (sv_db w)"
    and r: "dget (tb_approvals T) (pa_approval_id r) \<noteq> None" "\<not> is_pending r"
    and Q: "\<And>u. inreq E w (approval_tables r T) u \<Longrightarrow> advances (sv_db w) (approval_tables r T) \<Longrightarrow>
      sound (approval_tables r T) (sv_audit u) \<Longrightarrow> sv_audit u = sv_audit t \<Longrightarrow> revoked_in (approval_tables r T) = revoked_in (sv_db w) \<Longrightarrow> Q () u"
  shows "wp (store_approval r) Q X t"
proof -
  have step: "advances T (approval_tables r T)" by (rule decide_step [OF r])
  show ?thesis
    using assms(2-4) advances_trans [OF assms(2) step] sound_approval [OF assms(3) step, of "sv_audit t"]
    by (intro wp_store [OF assms(1), folded approval_tables_def] Q) simp_all
qed

lemma wp_svc_deny:
  assumes inv: "inreq E w (sv_db w) t" and snd: "sound (sv_db w) (sv_audit w)"
  shows "wp (svc_deny E i admin) (\<lambda>_. moves E w) (\<lambda>_. stays E w) t"
  unfolding svc_deny_def wp_bindP wp_readings Let_def
proof (rule wp_svc_load_pending [OF inv snd], goal_cases)
  case (1 r u)
  let ?r = "r\<lparr>pa_status := ''denied'', pa_decided_at := Some (e_clock (se_env E) (sv_tick u)), pa_approved_by := Some admin\<rparr>"
  have u: "inreq E w (sv_db w) (tickS u)" "sound (sv_db w) (sv_audit (tickS u))"
    using sound_mono [OF snd] 1(1) by (simp_all add: inreq_def)
  show ?case
  proof (rule decision [OF u(1) _ u(2)], goal_cases)
    case (5 v)
    show ?case unfolding wp_ret by (rule wp_kept_moves [OF 5(1,2,3,5) keeps_audit])
  qed (use 1(3) pendingD(1) [OF snd 1(3)] in \<open>simp_all add: is_pending_def\<close>)
qed simp

lemma claims_from_recordD:
  assumes be: "svc_backend_ok E" and ok: "chains_ok T" "dget (tb_tokens T) p = Some m" and c: "claims_from_record E st m = Some c"
  shows "c_jti c = tm_jti m \<and> c_depth c = tm_depth m \<and> c_max_depth c = tm_max_depth m \<and> c_root_jti c = tm_root_jti m
    \<and> map ce_jti (c_delegation_chain c) = chain_jtis m"
proof -
  obtain es where es: "tm_delegation_chain m = map entry_to_dict es" using ok by (auto simp: chains_ok_def)
  have "those (map (se_entry E) (map entry_to_dict es)) = Some es"
    using be by (intro those_map_Some) (simp add: svc_backend_ok_def)
  then show ?thesis using c es by (auto simp: claims_from_record_def chain_jtis_def)
qed

lemma wp_svc_approve_issue:
  assumes inv: "inreq E w (sv_db w) t" and snd: "sound (sv_db w) (sv_audit w)" and be: "svc_backend_ok E"
    and r: "dget (tb_approvals (sv_db w)) i = Some r" "pa_status r = ''pending''"
    and m: "dget (tb_tokens (sv_db w)) (pa_parent_jti r) = Some m" "pa_parent_jti r \<notin> revoked_in (sv_db w)"
  shows "wp (svc_approve_issue E r m admin) (\<lambda>_. moves E w) (\<lambda>_. stays E w) t"
proof -
  let ?T = "sv_db w"
  have pm: "covered r m" "tm_jti m = pa_parent_jti r" "pa_approval_id r = i"
    using pendingD [OF snd r(1)] r(2) m(1) lg_tokenD [OF lg_invD [OF snd], of "pa_parent_jti r" m] by auto
  show ?thesis
  proof (cases "claims_from_record E (sv_settings t) m")
    case None
    then show ?thesis using inv by (simp add: svc_approve_issue_def wp_simps staysI)
  next
    case (Some parent)
    let ?x = "min (ts_of (e_clock (se_env E) (sv_tick t)) + pa_ttl_seconds r) (pa_parent_exp r)"
    let ?c = "child_claims (sv_settings t) (e_uuid4 (se_env E) (Suc (sv_tick t) + 2)) (ts_of (e_clock (se_env E) (Suc (sv_tick t))))
      (e_clock (se_env E) (Suc (Suc (sv_tick t)))) parent (pa_child_subject_id r) (pa_requested_scopes r) ?x True (Some admin)"
    let ?m = "svc_meta_of ?c (Some (pa_parent_jti r))"
    let ?T2 = "issued_tables (pa_parent_jti r) ?m ?T"
    note parent = claims_from_recordD [OF be _ m(1) Some]
    have "tm_expires_at m = from_ts (pa_parent_exp r)" using pm(1) by (simp add: covered_def)
    then have x: "from_ts ?x \<le> tm_expires_at m" by (simp only: from_ts_mono)
    have narrow: "narrower ?m m"
      unfolding pm(2) [symmetric] by (rule child_narrower) (use parent snd pm(1) x in \<open>auto simp: sound_def covered_def\<close>)
    have fin: "moves E w z"
      if z: "inreq E w (approval_tables r' ?T2) z" and new: "dget (tb_tokens ?T) (c_jti ?c) = None" and row: "logged z ev"
        and ev: "ev_action ev = ''approval_granted''" "ev_decision ev = Some ''allow''" "ev_jti ev = Some (c_jti ?c)"
          "ev_parent_jti ev = Some (pa_parent_jti r)" "ev_root_jti ev = Some (c_root_jti ?c)" "ev_scopes ev = Some (c_scopes ?c)"
          "ev_depth ev = Some (c_depth ?c)" and r': "pa_approval_id r' = i" "pa_status r' = ''approved''" for z ev r'
    proof -
      have step: "advances ?T ?T2" by (rule issued_step [OF m narrow]) (use new in simp)
      have step2: "advances ?T2 (approval_tables r' ?T2)" by (rule decide_step) (use assms(4) r' in \<open>auto simp: is_pending_def\<close>)
      have "\<exists>row \<in> set (sv_audit z). mint_row row ?m"
        by (rule logged_mint [OF row]) (simp_all add: ev mint_actions_def)
      then have "sound ?T2 (sv_audit z)"
        using sound_issued [OF snd step] z by (auto simp: inreq_def)
      from sound_approval [OF this step2] show ?thesis
        by (intro movesI [OF z advances_trans [OF step step2] _ prefix_order.refl]) simp_all
    qed
    have rest: "wp (bindP (nowS E) (\<lambda>decided. bindP (store_approval (f decided)) (\<lambda>_. bindP (auditS E ev) (\<lambda>_. ret (g decided)))))
        (\<lambda>_. moves E w) (\<lambda>_. stays E w) v"
      if v: "inreq E w ?T2 v" and new: "dget (tb_tokens ?T) (c_jti ?c) = None"
        and ev: "ev_action ev = ''approval_granted''" "ev_decision ev = Some ''allow''" "ev_jti ev = Some (c_jti ?c)"
          "ev_parent_jti ev = Some (pa_parent_jti r)" "ev_root_jti ev = Some (c_root_jti ?c)" "ev_scopes ev = Some (c_scopes ?c)"
          "ev_depth ev = Some (c_depth ?c)"
        and f: "\<And>d. pa_approval_id (f d) = i" "\<And>d. pa_status (f d) = ''approved''" for v ev f and g :: "instant \<Rightarrow> pending_approval \<times> minted_token"
    proof -
      have "inreq E w ?T2 (tickS v)" using v by simp
      then show ?thesis unfolding wp_bindP wp_readings
        by (rule wp_store [folded approval_tables_def], intro wp_auditS)
          (auto simp: ev BUFFERABLE_def wp_simps intro!: fin [OF _ new] f staysI)
    qed
    show ?thesis
      unfolding svc_approve_issue_def Let_def wp_bindP [of "getsP _"] wp_getsP Some option.case wp_bindP [of "now_tsS _"]
        wp_readings wp_bindP [of "mint_childS _ _ _ _ _ _ _"] wp_mint_childS
      by (rule wp_issue_rows [where w = w and T = ?T, OF _ snd])
        (use inv in \<open>auto simp: blank_event_def pm(3) intro!: rest staysI\<close>)
  qed
qed

lemma wp_svc_approve:
  assumes inv: "inreq E w (sv_db w) t" and snd: "sound (sv_db w) (sv_audit w)" and be: "svc_backend_ok E"
  shows "wp (svc_approve E i admin) (\<lambda>_. moves E w) (\<lambda>_. stays E w) t"
proof -
  have lost: "wp (bindP (store_approval r) (\<lambda>_. bindP m (\<lambda>_. raise x :: (pending_approval \<times> minted_token) svc)))
      (\<lambda>_. moves E w) (\<lambda>_. stays E w) u"
    if "inreq E w (sv_db w) u" and m: "\<And>w T. keeps (inreq E w T) m" for r and m :: "unit svc" and x u
    unfolding wp_bindP wp_raise by (rule wp_store [OF that(1)]) (auto intro: keeps_stays [OF _ m])
  have lost': "wp (bindP (store_approval r) (\<lambda>_. raise x :: (pending_approval \<times> minted_token) svc)) (\<lambda>_. moves E w) (\<lambda>_. stays E w) u"
    if "inreq E w (sv_db w) u" for r x u
    unfolding wp_bindP wp_raise by (rule wp_store [OF that]) (auto intro: staysI)
  show ?thesis unfolding svc_approve_def
  proof (subst wp_bindP, rule wp_svc_load_pending [OF inv snd], goal_cases)
    case (1 r u)
    let ?rest = "\<lambda>m dead. if dead then bindP (nowS E) (\<lambda>decided. bindP (store_approval (r\<lparr>pa_status := ''denied'', pa_decided_at := Some decided,
           pa_approved_by := Some admin\<rparr>)) (\<lambda>_. bindP (auditS E (blank_event\<lparr>ev_action := ''approval_rejected'', ev_actor_id := Some admin,
           ev_parent_jti := Some (pa_parent_jti r), ev_decision := Some ''deny'',
           ev_reason := Some ''parent token was revoked while approval was pending'',
           ev_detail := Some (JObj [(''approval_id'', JStr i)])\<rparr>)) (\<lambda>_. raise (SvcParentTokenInvalid REASON_REVOKED))))
       else bindP (now_tsS E) (\<lambda>now. if pa_parent_exp r < now then bindP (nowS E) (\<lambda>decided.
           bindP (store_approval (r\<lparr>pa_status := ''expired'', pa_decided_at := Some decided\<rparr>)) (\<lambda>_. raise (SvcParentTokenInvalid REASON_EXPIRED)))
         else svc_approve_issue E r m admin)"
    have rest: "wp (?rest m dead) (\<lambda>_. moves E w) (\<lambda>_. stays E w) v"
      if v: "inreq E w (sv_db w) v" and m: "dget (tb_tokens (sv_db w)) (pa_parent_jti r) = Some m"
        and dead: "pa_parent_jti r \<in> revoked_in (sv_db w) \<Longrightarrow> dead" for m dead v
    proof -
      have "wp (svc_approve_issue E r m admin) (\<lambda>_. moves E w) (\<lambda>_. stays E w) (tickS v)" if "\<not> dead"
        by (rule wp_svc_approve_issue [OF _ snd be 1(3,4) m]) (use v dead that in auto)
      then show ?thesis
        using v by (simp add: wp_bindP [of "nowS _"] wp_bindP [of "now_tsS _"] wp_readings wp_if lost lost' keep_intro)
    qed
    show ?case
    proof (subst wp_bindP, simp only: wp_queryS inreq_tx [OF 1(1)], cases "dget (tb_tokens (sv_db w)) (pa_parent_jti r)", goal_cases)
      case 1
      then show ?case using \<open>inreq E w (sv_db w) u\<close> by (simp add: wp_simps staysI)
    next
      case (2 m)
      show ?case unfolding 2 option.case
      proof (subst wp_bindP, rule wp_is_revoked_at [OF 1(1)], goal_cases)
        case (1 b v)
        show ?case by (rule rest [OF 1(1) 2 1(3)])
      qed
    qed
  qed simp
qed

section \<open>Expiry and collection\<close>

lemma wp_svc_expire_loop:
  assumes "inreq E w T t" "advances (sv_db w) T" "sound T (sv_audit t)" "revoked_in T = revoked_in (sv_db w)"
    and "\<And>r. r \<in> set rs \<Longrightarrow> dget (tb_approvals T) (pa_approval_id r) \<noteq> None"
    and Q: "\<And>n T u. inreq E w T u \<Longrightarrow> advances (sv_db w) T \<Longrightarrow> sound T (sv_audit u) \<Longrightarrow> revoked_in T = revoked_in (sv_db w) \<Longrightarrow> Q n u"
    and X: "\<And>x u. stays E w u \<Longrightarrow> X x u"
  shows "wp (svc_expire_loop E now rs) Q X t"
  using assms(1-5) Q
proof (induction rs arbitrary: T t Q)
  case Nil
  then show ?case by (simp add: wp_simps)
next
  case (Cons r rs)
  show ?case
  proof (cases "pa_expires_at r < now")
    case True
    let ?r = "r\<lparr>pa_status := ''expired'', pa_decided_at := Some now\<rparr>"
    show ?thesis unfolding svc_expire_loop.simps
    proof (simp only: True if_True, subst wp_bindP, intro decision [OF Cons.prems(1-4)], goal_cases)
      case (3 u)
      show ?case
      proof (subst wp_bindP, rule wp_kept [OF 3(1) keeps_audit], goal_cases)
        case (1 a v)
        show ?case unfolding wp_bindP wp_ret
          by (rule Cons.IH [OF 1(1) 3(2) sound_mono [OF 3(3) 1(2)] 3(5)])
            (use Cons.prems(5,6) in \<open>auto simp: approval_tables_def\<close>)
      qed (auto intro: X staysI)
    qed (use Cons.prems(5) in \<open>simp_all add: is_pending_def\<close>)
  next
    case False
    then show ?thesis using Cons.prems by (auto simp: wp_if intro!: Cons.IH)
  qed
qed

lemma wp_svc_expire:
  assumes inv: "inreq E w (sv_db w) t" and snd: "sound (sv_db w) (sv_audit w)"
    and Q: "\<And>n T u. inreq E w T u \<Longrightarrow> advances (sv_db w) T \<Longrightarrow> sound T (sv_audit u) \<Longrightarrow> revoked_in T = revoked_in (sv_db w) \<Longrightarrow> Q n u"
    and X: "\<And>x u. stays E w u \<Longrightarrow> X x u"
  shows "wp (svc_expire_stale_approvals E) Q X t"
proof -
  have known: "dget (tb_approvals (sv_db w)) (pa_approval_id r) \<noteq> None" if "r \<in> snd ` set (tb_approvals (sv_db w))" for r
  proof -
    obtain i where "(i, r) \<in> set (tb_approvals (sv_db w))" using \<open>r \<in> _\<close> by auto
    moreover have "wf_dict (tb_approvals (sv_db w))" using snd by (simp add: sound_def chains_ok_def)
    ultimately have "dget (tb_approvals (sv_db w)) i = Some r" by (simp add: wf_dict_dget_iff)
    then show ?thesis using pendingD(1) [OF snd] by auto
  qed
  have t: "inreq E w (sv_db w) (tickS t)" "sound (sv_db w) (sv_audit (tickS t))" "sv_tx (tickS t) = sv_db w"
    using inv sound_mono [OF snd] by (auto simp: inreq_def)
  show ?thesis
    unfolding svc_expire_stale_approvals_def wp_bindP wp_readings wp_queryS t(3)
    by (rule wp_svc_expire_loop [OF t(1) _ t(2)]) (use known in \<open>auto intro: Q X simp: image_iff\<close>)
qed

lemma wp_collect_handler:
  assumes inv: "inreq E w (sv_db w) t" and snd: "sound (sv_db w) (sv_audit w)"
  shows "wp (collect_handler E i) (\<lambda>_. moves E w) (\<lambda>_. stays E w) t"
proof -
  have mark: "wp (whenP b (store_approval (r\<lparr>pa_collected := True\<rparr>))) (\<lambda>_. moves E w) (\<lambda>_. stays E w) u"
    if u: "inreq E w T u" "advances (sv_db w) T" "sound T (sv_audit u)" "revoked_in T = revoked_in (sv_db w)"
      and r: "dget (tb_approvals T) i = Some r" "pa_status r = ''approved''" for T b r u
  proof -
    have "wp (store_approval (r\<lparr>pa_collected := True\<rparr>)) (\<lambda>_. moves E w) (\<lambda>_. stays E w) u"
      by (rule decision [OF u]) (use r pendingD(1) [OF u(3) r(1)] in \<open>auto simp: is_pending_def intro: movesI\<close>)
    then show ?thesis using movesI [OF u(1-3) prefix_order.refl u(4)] by (simp add: wp_simps)
  qed
  show ?thesis
  proof (cases "dget (tb_approvals (sv_db w)) i")
    case None
    then show ?thesis using inv inreq_tx [OF inv] by (simp add: collect_handler_def wp_simps staysI)
  next
    case (Some r0)
    show ?thesis unfolding collect_handler_def wp_bindP wp_queryS inreq_tx [OF inv] Some option.case
    proof (rule wp_svc_expire [OF inv snd], goal_cases)
      case (1 n T u)
      have m: "moves E w u" by (rule movesI [OF 1(1-3) prefix_order.refl 1(4)])
      show ?case
        using mark [OF 1] m staysI [OF 1(1)] inreq_tx [OF 1(1)]
        by (auto simp: wp_bindP wp_queryS wp_ret wp_raise split: option.splits)
    qed
  qed
qed

section \<open>Revocation\<close>

lemma cache_ok_commit_simps [simp]:
  "cache_ok (commit_tx (written E evs t)) = cache_ok (commit_tx t)" "cache_ok (commit_tx (tickS t)) = cache_ok (commit_tx t)"
  "cache_ok (commit_tx (t\<lparr>sv_tail := x\<rparr>)) = cache_ok (commit_tx t)" "cache_ok (commit_tx (t\<lparr>sv_buffer := b\<rparr>)) = cache_ok (commit_tx t)"
  by (simp_all add: cache_ok_def commit_tx_def)

lemma keeps_commit_audit: "keeps (\<lambda>u. cache_ok (commit_tx u)) (auditS E ev)"
  by (auto simp: keeps_wp auditS_def audit_log_def audit_flush_def wp_simps)

lemma wp_cache_add:
  assumes inv: "inreq E w T t" and T: "revoked_in T = revoked_in (sv_db w) \<union> set js" and ne: "js \<noteq> []"
    and Q: "\<And>u. inreq E w T u \<Longrightarrow> prefix (sv_audit t) (sv_audit u) \<Longrightarrow> cache_ok (commit_tx u) \<Longrightarrow> Q () u"
  shows "wp (cache_add E js) Q X t"
proof -
  have ok: "cache_ok t" "sv_db t = sv_db w" "sv_tx t = T" using inv by (simp_all add: inreq_def)
  have "wp (cache_add E js) (\<lambda>_ u. inreq E w T u \<and> prefix (sv_audit t) (sv_audit u)) (\<lambda>_ _. False) t"
    using ne by (simp add: cache_add_def) (rule wp_mirror [OF inv], auto)
  moreover have "wp (cache_add E js) (\<lambda>_ u. cache_ok (commit_tx u)) (\<lambda>_ _. False) t"
    using ne ok T by (auto simp: cache_add_def mirrorS_def wp_simps cache_ok_def commit_tx_def mark_unavailable_def)
  ultimately show ?thesis
    by (rule wp_mono [OF wp_conj]) (auto intro: Q)
qed

lemma wp_svc_revoke:
  assumes inv: "inreq E w (sv_db w) t" and snd: "sound (sv_db w) (sv_audit w)" and be: "svc_backend_ok E"
    and Q: "\<And>js l u. moves E w u \<Longrightarrow> set js = (set (tb_edges (sv_db w)))\<^sup>* `` {j} \<Longrightarrow>
      revoked_in (sv_tx u) = revoked_in (sv_db w) \<union> set js \<Longrightarrow> Q (js, l) u"
    and X: "\<And>x u. stays E w u \<Longrightarrow> X x u"
  shows "wp (svc_revoke E j reason admin) Q X t"
proof -
  let ?T = "sv_db w"
  obtain js where walk: "\<And>u. sv_tx u = ?T \<Longrightarrow> collect_subtree E j u = (Inr js, u)"
    and js: "set js = (set (tb_edges ?T))\<^sup>* `` {j}" "js \<noteq> []"
    using collect_subtree_run [of E] be unfolding svc_backend_ok_def by metis
  have row: "\<exists>row \<in> set (sv_audit v). \<forall>x \<in> set js. revoke_row row x"
    if ev: "logged v ev" "ev_action ev = ''token_revoked''" "ev_detail ev = Some (JObj [(''subtree_count'', n), (''revoked_jtis'', json_strs js)])" for v ev n
  proof -
    obtain row where "row \<in> set (sv_audit v)" "ev_action row = ''token_revoked''"
      "ev_detail row = Some (JObj [(''subtree_count'', n), (''revoked_jtis'', json_strs js)])"
      using logged_row [OF ev(1)] ev(2,3) by metis
    then show ?thesis by (intro bexI [of _ row]) (auto simp: revoke_row_def)
  qed
  have fin: "wp (auditS E ev) (\<lambda>_. Q (js, l)) X u"
    if u: "inreq E w (new_revocations js j reason now ?T) u" "cache_ok (commit_tx u)"
      and ev: "ev_action ev = ''token_revoked''" "ev_detail ev = Some (JObj [(''subtree_count'', n), (''revoked_jtis'', json_strs js)])"
    for ev u now l n
  proof -
    let ?T' = "new_revocations js j reason now ?T"
    have step: "advances ?T ?T'" by (rule revoke_step [OF js(1)])
    have "wp (auditS E ev) (\<lambda>_ v. inreq E w ?T' v \<and> logged v ev) (\<lambda>_ v. stays E w v) u"
      by (rule wp_auditS [OF u(1)]) (auto simp: ev BUFFERABLE_def intro: staysI)
    moreover have "wp (auditS E ev) (\<lambda>_ v. cache_ok (commit_tx v)) (\<lambda>_ v. cache_ok (commit_tx v)) u"
      using keeps_commit_audit [of E ev] u(2) unfolding keeps_wp by blast
    ultimately show ?thesis
    proof (rule wp_mono [OF wp_conj], goal_cases)
      case (1 a v)
      then have v: "inreq E w ?T' v" by simp
      have "sound ?T' (sv_audit v)"
        using sound_revoked [OF snd step _ row] 1 ev v by (auto simp: inreq_def)
      then have "moves E w v" unfolding moves_def using v step 1 by blast
      then show ?case using js(1) v by (intro Q) (simp_all add: inreq_tx)
    qed (auto intro: X)
  qed
  have tx: "sv_tx (tickS t) = ?T" using inv by (simp add: inreq_tx)
  have flushed: "inreq E w (new_revocations js j reason now ?T) (u\<lparr>sv_tx := new_revocations js j reason now ?T\<rparr>)"
    if "inreq E w ?T u" for u now
    using inreq_flush [OF that] by simp
  have walk_wp: "wp (collect_subtree E j) Q' X' u = Q' js u" if "sv_tx u = ?T" for Q' X' u
    using walk [OF that] by (simp add: wp_def)
  show ?thesis
    unfolding svc_revoke_def svc_revoke_subtree_def wp_bindP wp_readings walk_wp [OF tx] wp_flushS wp_ret wp_case_prod prod.case
  proof (rule wp_cache_add [where w = w and T = "new_revocations js j reason (e_clock (se_env E) (sv_tick (tickS t))) ?T"], goal_cases)
    case 1
    have "inreq E w ?T (tickS (tickS t))" using inv by simp
    from flushed [OF this] show ?case by (simp add: inreq_tx [OF inv])
  next
    case (4 u)
    then show ?case by (intro fin) auto
  qed (use js in auto)
qed

end
