(* ===== verification/Service_Runs.thy ===== *)
theory Service_Runs
  imports Service_Decisions
begin

text \<open>
  Runs of the service: any sequence of HTTP requests with any arguments and outcomes, failing commits and
  failing Redis commands included, between them rounds of the audit flusher, losses of everything Redis
  holds, and restarts of the process, after a shutdown or after a crash. The invariant \<open>svc_inv\<close> holds in
  every state of a run, and the tables move by steps of the ledger.
\<close>

section \<open>Requests and events\<close>

datatype request =
    PostRoot "string option" string "string list" int "int option"
  | PostDelegate "string option" string "string list" int
  | PostVerify string string
  | PostRevoke "string option" string "string option"
  | PostApprove "string option" string "string option" string
  | PostDeny "string option" string "string option" string
  | GetPending string
  | GetChain string
  | GetIntegrity
  | PostResetCircuit "string option"
  | PostFlushAudit "string option"
  | GetSubjects "string option"

fun serve :: "svc_env \<Rightarrow> request \<Rightarrow> http route" where
  "serve E (PostRoot key human scopes ttl depth) = post_root E key human scopes ttl depth"
| "serve E (PostDelegate auth child scopes ttl) = post_delegate E auth child scopes ttl"
| "serve E (PostVerify tok scope) = post_verify E tok scope"
| "serve E (PostRevoke key jti reason) = post_revoke E key jti reason"
| "serve E (PostApprove key i decision who) = post_approve E key i decision who"
| "serve E (PostDeny key i decision who) = post_deny E key i decision who"
| "serve E (GetPending i) = collect_pending E i"
| "serve E (GetChain jti) = get_chain E jti"
| "serve E GetIntegrity = get_verify_integrity E"
| "serve E (PostResetCircuit key) = post_reset_circuit E key"
| "serve E (PostFlushAudit key) = post_flush_audit E key"
| "serve E (GetSubjects key) = get_subjects_route E key"

datatype event = Request request | FlushRound | RedisLost | Restart bool

fun happen :: "svc_env \<Rightarrow> event \<Rightarrow> service \<Rightarrow> service" where
  "happen E (Request r) w = final (serve E r) w"
| "happen E FlushRound w = audit_flush_round E w"
| "happen E RedisLost w = w\<lparr>sv_redis := empty_redis\<rparr>"
| "happen E (Restart after_shutdown) w = final (startup E) (new_container E (policy (sv_settings w))
     (if after_shutdown then final (shutdown E) w else w))"

definition happens :: "svc_env \<Rightarrow> event list \<Rightarrow> service \<Rightarrow> service" where
  "happens E evs w = fold (happen E) evs w"

text \<open>The token a request delegates from is honest.\<close>

fun honest_event :: "svc_env \<Rightarrow> event \<Rightarrow> service \<Rightarrow> bool" where
  "honest_event E (Request (PostDelegate auth child scopes ttl)) w \<longleftrightarrow>
     (\<forall>tok. result (bearer_token auth) w = Inr tok \<longrightarrow> svc_honest E w tok)"
| "honest_event E _ w \<longleftrightarrow> True"

fun honest_events :: "svc_env \<Rightarrow> event list \<Rightarrow> service \<Rightarrow> bool" where
  "honest_events E [] w \<longleftrightarrow> True"
| "honest_events E (ev # evs) w \<longleftrightarrow> honest_event E ev w \<and> honest_events E evs (happen E ev w)"

section \<open>The invariant\<close>

definition svc_inv :: "svc_env \<Rightarrow> service \<Rightarrow> bool" where
  "svc_inv E w \<longleftrightarrow> sound (sv_db w) (sv_audit w) \<and> cache_ok w \<and> svc_audit_ok E w \<and> sv_tx w = sv_db w
     \<and> 1 \<le> st_max_delegation_depth (sv_settings w)"

definition evolves :: "svc_env \<Rightarrow> service \<Rightarrow> service \<Rightarrow> bool" where
  "evolves E w t \<longleftrightarrow> svc_inv E t \<and> advances (sv_db w) (sv_db t) \<and> prefix (sv_audit w) (sv_audit t)
     \<and> policy (sv_settings t) = policy (sv_settings w)"

lemma evolves_refl: "svc_inv E w \<Longrightarrow> evolves E w w"
  by (simp add: evolves_def)

lemma evolves_trans: "evolves E w t \<Longrightarrow> evolves E t u \<Longrightarrow> evolves E w u"
  unfolding evolves_def using advances_trans prefix_order.trans by metis

lemma begin_inreq: "svc_inv E w \<Longrightarrow> inreq E w (sv_db w) (begin_tx w)"
  by (simp add: svc_inv_def inreq_def begin_tx_def)

lemma depth_policy: "policy st = policy st' \<Longrightarrow> st_max_delegation_depth st = st_max_delegation_depth st'"
  by (metis policy_sel(5))

lemma rolled_back: "svc_inv E w \<Longrightarrow> inreq E w T u \<Longrightarrow> evolves E w (rollback_tx u)"
  using depth_policy [of "sv_settings u" "sv_settings w"]
  by (auto simp: evolves_def svc_inv_def inreq_def rollback_tx_def intro: sound_mono)

lemma stays_evolves: "svc_inv E w \<Longrightarrow> stays E w u \<Longrightarrow> evolves E w (rollback_tx u)"
  using rolled_back by (auto simp: stays_def)

lemma evolves_tick [simp]: "evolves E w (tickS u) = evolves E w u"
  by (simp add: evolves_def svc_inv_def)

lemma committed: "svc_inv E w \<Longrightarrow> moves E w u \<Longrightarrow> evolves E w (commit_tx u)"
  using depth_policy [of "sv_settings u" "sv_settings w"]
  by (auto simp: moves_def evolves_def svc_inv_def inreq_def commit_tx_def svc_audit_ok_def tail_row_hash_def)

lemma moves_stays: "moves E w u \<Longrightarrow> stays E w u"
  by (auto simp: moves_def stays_def)

lemma wp_session:
  assumes inv: "svc_inv E w" and body: "wp body (\<lambda>_. moves E w) (\<lambda>_. stays E w) (begin_tx w)"
  shows "wp (session_scope E body) (\<lambda>_. evolves E w) (\<lambda>_. evolves E w) w"
  unfolding wp_session_scope
  by (rule wp_mono [OF body]) (use inv in \<open>auto intro: committed stays_evolves moves_stays\<close>)

lemma wp_on_session:
  "svc_inv E w \<Longrightarrow> wp body (\<lambda>_. moves E w) (\<lambda>_. stays E w) (begin_tx w) \<Longrightarrow>
    wp (on_session E f body) (\<lambda>_. evolves E w) (\<lambda>_. evolves E w) w"
  unfolding on_session_def wp_catchP wp_raise by (rule wp_session)

text \<open>A body that changes no table.\<close>

lemma wp_session_kept:
  assumes inv: "svc_inv E w" and m: "\<And>w T. keeps (inreq E w T) m"
  shows "wp (on_session E f m) (\<lambda>_. evolves E w) (\<lambda>_. evolves E w) w"
proof (rule wp_on_session [OF inv wp_kept_moves [OF begin_inreq [OF inv] _ _ _ m]])
qed (use inv in \<open>auto simp: svc_inv_def begin_tx_def\<close>)

section \<open>Every request\<close>

lemma wp_require_admin: "(\<And>a. wp (k a) (\<lambda>_. evolves E w) (\<lambda>_. evolves E w) w) \<Longrightarrow> svc_inv E w \<Longrightarrow>
    wp (bindP (require_admin key) k) (\<lambda>_. evolves E w) (\<lambda>_. evolves E w) w"
  by (auto simp: require_admin_def wp_simps evolves_refl split: option.splits)

lemma bearer_run: "bearer_token auth w = (result (bearer_token auth) w, w)"
  by (auto simp: bearer_token_def Let_def result_def ret_def raise_def split: option.splits)

lemma wp_bearer:
  assumes "\<And>tok. result (bearer_token auth) w = Inr tok \<Longrightarrow> wp (k tok) (\<lambda>_. evolves E w) (\<lambda>_. evolves E w) w" and "svc_inv E w"
  shows "wp (bindP (bearer_token auth) k) (\<lambda>_. evolves E w) (\<lambda>_. evolves E w) w"
  unfolding wp_bindP using assms
  by (simp add: wp_def [of "bearer_token auth"] bearer_run [of auth w] evolves_refl split: sum.splits)

lemma wp_then_ret: "wp m (\<lambda>_. P) (\<lambda>_. P) w \<Longrightarrow> wp (bindP m (\<lambda>a. ret (f a))) (\<lambda>_. P) (\<lambda>_. P) w"
  by (simp add: wp_simps)

lemma wp_then_ret2: "wp m (\<lambda>_. P) (\<lambda>_. P) w \<Longrightarrow> wp (bindP m (\<lambda>(a, b). ret (f a b))) (\<lambda>_. P) (\<lambda>_. P) w"
  by (simp add: wp_simps split_def)

lemma keeps_verify [keep_intro]: "keeps (inreq E w T) (svc_verify E tok scope)"
proof -
  have rev: "keeps (inreq E w T) (any_revokedS E js)" for js
    by (induction js) (auto intro!: keep_intro)
  have deny: "keeps (inreq E w T) (svc_verify_deny E s sc c r)" for s sc c r
    unfolding svc_verify_deny_def outcomeS_def by (auto intro!: keep_intro)
  show ?thesis unfolding svc_verify_def svc_verify_claims_def outcomeS_def
    by (auto intro!: keep_intro rev deny split: svc_error.splits sum.splits)
qed

lemma keeps_chain [keep_intro]: "keeps (inreq E w T) (chain_handler E jti)"
  unfolding chain_handler_def svc_revoked_among_def labels_for_def by (auto intro!: keep_intro split: option.splits)

lemma keeps_integrity [keep_intro]: "keeps (inreq E w T) (verify_integrity_handler E)"
  unfolding verify_integrity_handler_def by (auto intro!: keep_intro)

text \<open>A handler without a session: its calls keep \<open>inreq\<close> too.\<close>

lemma inreq_evolves: "svc_inv E w \<Longrightarrow> inreq E w (sv_db w) u \<Longrightarrow> evolves E w u"
  using depth_policy [of "sv_settings u" "sv_settings w"]
  by (auto simp: evolves_def svc_inv_def inreq_def intro: sound_mono)

lemma wp_kept_evolves:
  assumes inv: "svc_inv E w" and m: "\<And>w T. keeps (inreq E w T) m"
  shows "wp m (\<lambda>_. evolves E w) (\<lambda>_. evolves E w) w"
proof -
  have "inreq E w (sv_db w) w" using inv by (simp add: svc_inv_def inreq_def)
  then show ?thesis by (rule wp_kept [OF _ m]) (auto intro: inreq_evolves [OF inv])
qed

lemma wp_unhandled:
  assumes inv: "svc_inv E w" and m: "wp m (\<lambda>_. evolves E w) (\<lambda>_. evolves E w) w"
  shows "wp (unhandled m) (\<lambda>_. evolves E w) (\<lambda>_. evolves E w) w"
  unfolding unhandled_def wp_catchP wp_raise by (rule m)

lemma wp_reset: "svc_inv E w \<Longrightarrow> wp (reset_handler E admin) (\<lambda>_. evolves E w) (\<lambda>_. evolves E w) w"
  by (rule wp_kept_evolves) (auto simp: reset_handler_def intro!: keep_intro)

lemma post_delegate_evolves:
  assumes inv: "svc_inv E w" and hon: "\<And>tok. result (bearer_token auth) w = Inr tok \<Longrightarrow> svc_honest E w tok"
  shows "wp (post_delegate E auth child scopes ttl) (\<lambda>_. evolves E w) (\<lambda>_. evolves E w) w"
proof -
  have snd: "sound (sv_db w) (sv_audit w)" using inv by (simp add: svc_inv_def)
  have refuse: "wp (raise x :: http route) (\<lambda>_. evolves E w) (\<lambda>_. evolves E w) w" for x
    using inv by (simp add: wp_simps evolves_refl)
  show ?thesis unfolding post_delegate_def
    by (intro wp_bearer [OF _ inv])
      (use hon in \<open>auto intro!: refuse wp_then_ret wp_on_session [OF inv] wp_svc_delegate_moves [OF begin_inreq [OF inv] snd] split: option.splits\<close>)
qed

lemma request_evolves:
  assumes be: "svc_backend_ok E" and inv: "svc_inv E w" and hon: "honest_event E (Request r) w"
  shows "wp (serve E r) (\<lambda>_. evolves E w) (\<lambda>_. evolves E w) w"
proof -
  have snd: "sound (sv_db w) (sv_audit w)" and depth: "1 \<le> st_max_delegation_depth (sv_settings w)"
    using inv by (simp_all add: svc_inv_def)
  note start = begin_inreq [OF inv]
  note session = wp_on_session [OF inv]
  have refuse: "wp (raise x :: http route) (\<lambda>_. evolves E w) (\<lambda>_. evolves E w) w" for x
    using inv by (simp add: wp_simps evolves_refl)
  have deny: "wp (deny_handler E i admin) (\<lambda>_. evolves E w) (\<lambda>_. evolves E w) w" for i admin
    unfolding deny_handler_def by (intro wp_then_ret session wp_svc_deny [OF start snd])
  show ?thesis
  proof (cases r)
    case (PostRoot key human scopes ttl depth)
    then show ?thesis unfolding PostRoot serve.simps post_root_def
      by (intro wp_require_admin [OF _ inv])
        (auto simp: RootTokenRequest_def intro!: refuse wp_then_ret session wp_svc_mint_root [OF start snd _ depth] split: option.splits if_splits)
  next
    case (PostDelegate auth child scopes ttl)
    then show ?thesis using hon by (simp add: post_delegate_evolves [OF inv])
  next
    case (PostVerify tok scope)
    then show ?thesis unfolding PostVerify serve.simps post_verify_def
      by (auto simp: wp_if intro!: refuse wp_then_ret wp_session_kept [OF inv] keep_intro)
  next
    case (PostRevoke key jti reason)
    then show ?thesis unfolding PostRevoke serve.simps post_revoke_def
      by (intro wp_require_admin [OF _ inv])
        (auto simp: wp_if intro!: refuse wp_then_ret2 session wp_svc_revoke [OF start snd be])
  next
    case (PostApprove key i decision who)
    then show ?thesis unfolding PostApprove serve.simps post_approve_def
      by (intro wp_require_admin [OF _ inv])
        (auto simp: wp_if intro!: refuse deny wp_then_ret2 session wp_svc_approve [OF start snd be])
  next
    case (PostDeny key i decision who)
    then show ?thesis unfolding PostDeny serve.simps post_deny_def
      by (intro wp_require_admin [OF _ inv]) (auto simp: wp_if intro!: refuse deny)
  next
    case (GetPending i)
    then show ?thesis unfolding GetPending serve.simps collect_pending_def
      by (intro wp_then_ret session wp_collect_handler [OF start snd])
  next
    case (GetChain jti)
    then show ?thesis unfolding GetChain serve.simps get_chain_def
      by (intro wp_then_ret wp_session_kept [OF inv] keep_intro)
  next
    case GetIntegrity
    then show ?thesis unfolding GetIntegrity serve.simps get_verify_integrity_def
      by (intro wp_then_ret wp_session_kept [OF inv] keep_intro)
  next
    case (PostResetCircuit key)
    then show ?thesis unfolding PostResetCircuit serve.simps post_reset_circuit_def
      by (intro wp_require_admin [OF _ inv] wp_then_ret wp_unhandled [OF inv] wp_reset [OF inv])
  next
    case (PostFlushAudit key)
    then show ?thesis unfolding PostFlushAudit serve.simps post_flush_audit_def
      by (intro wp_require_admin [OF _ inv] wp_then_ret wp_unhandled [OF inv] wp_kept_evolves [OF inv] keep_intro)
  next
    case (GetSubjects key)
    then show ?thesis unfolding GetSubjects serve.simps get_subjects_route_def
      by (intro wp_require_admin [OF _ inv] wp_then_ret wp_session_kept [OF inv] keep_intro)
  qed
qed

section \<open>Every event\<close>

text \<open>A process that starts may find a cache that misses revocations; the rebuild comes first.\<close>

lemma offline_simps [simp]:
  "inreq E (w\<lparr>sv_available := a\<rparr>) T u = inreq E w T u" "evolves E (w\<lparr>sv_available := a\<rparr>) u = evolves E w u"
  "stays E (w\<lparr>sv_available := a\<rparr>) u = stays E w u" "moves E (w\<lparr>sv_available := a\<rparr>) u = moves E w u"
  by (simp_all add: inreq_def evolves_def stays_def moves_def)

lemma wp_rebuild:
  assumes "inreq E w T (t\<lparr>sv_available := False\<rparr>)" and "\<And>n u. inreq E w T u \<Longrightarrow> Q n u"
  shows "wp (rebuild_cache E) Q X t"
  using assms(1)
  by (auto simp: rebuild_cache_def wp_simps inreq_def cache_ok_def revoked_in_def tickS_def mark_unavailable_def svc_audit_ok_def tail_row_hash_def
      intro!: assms(2))

lemma wp_startup:
  assumes inv: "svc_inv E (w\<lparr>sv_available := False\<rparr>)"
  shows "wp (startup E) (\<lambda>_. evolves E w) (\<lambda>_. evolves E w) w"
proof -
  let ?w = "(load_tail w)\<lparr>sv_available := False\<rparr>"
  have inv': "svc_inv E ?w"
    using inv by (simp add: svc_inv_def load_tail_def svc_audit_ok_def tail_row_hash_def cache_ok_def)
  have snd: "sound (sv_db ?w) (sv_audit ?w)" using inv' by (simp add: svc_inv_def)
  have body: "wp (bindP (rebuild_cache E) (\<lambda>restored. bindP (svc_expire_stale_approvals E) (\<lambda>expired. ret (restored, expired))))
      (\<lambda>_. moves E ?w) (\<lambda>_. stays E ?w) (begin_tx (load_tail w))"
    unfolding wp_bindP
  proof (rule wp_rebuild [where w = ?w and T = "sv_db ?w"], goal_cases)
    case 1
    have "begin_tx ?w = (begin_tx (load_tail w))\<lparr>sv_available := False\<rparr>" by (simp add: begin_tx_def)
    then show ?case using begin_inreq [OF inv'] by simp
  next
    case (2 n u)
    show ?case unfolding wp_ret by (rule wp_svc_expire [OF 2 snd]) (auto intro: movesI)
  qed
  have "wp (session_scope E (bindP (rebuild_cache E) (\<lambda>restored. bindP (svc_expire_stale_approvals E) (\<lambda>expired. ret (restored, expired)))))
      (\<lambda>_. evolves E ?w) (\<lambda>_. evolves E ?w) (load_tail w)"
    unfolding wp_session_scope
    by (rule wp_mono [OF body]) (use inv' in \<open>auto intro: committed stays_evolves moves_stays simp del: offline_simps\<close>)
  moreover have "evolves E ?w = evolves E w" by (intro ext) (simp add: evolves_def load_tail_def)
  ultimately show ?thesis
    unfolding startup_def wp_bindP [of "updP _"] wp_updP audit_start_def by (simp del: offline_simps)
qed

lemma wp_shutdown: "svc_inv E w \<Longrightarrow> wp (shutdown E) (\<lambda>_. evolves E w) (\<lambda>_. evolves E w) w"
proof -
  assume inv: "svc_inv E w"
  have closed: "evolves E w (close_redis u)" if "evolves E w u" for u
    using that by (auto simp: evolves_def svc_inv_def close_redis_def cache_ok_def svc_audit_ok_def tail_row_hash_def)
  have "wp (audit_flush E) (\<lambda>_. evolves E w) (\<lambda>_. evolves E w) w"
    by (rule wp_kept_evolves [OF inv]) (auto intro!: keep_intro)
  then have "wp (audit_flush E) (\<lambda>_ u. evolves E w (close_redis u)) (\<lambda>_. evolves E w) w"
    by (rule wp_mono) (auto intro: closed)
  then show ?thesis by (simp add: shutdown_def audit_stop_def wp_simps)
qed

lemma event_evolves:
  assumes be: "svc_backend_ok E" and inv: "svc_inv E w" and hon: "honest_event E ev w"
  shows "evolves E w (happen E ev w)"
proof (cases ev)
  case (Request r)
  then show ?thesis using request_evolves [OF be inv] hon by (simp add: wp_final)
next
  case FlushRound
  have "wp (audit_flush E) (\<lambda>_. evolves E w) (\<lambda>_. evolves E w) w"
    by (rule wp_kept_evolves [OF inv]) (auto intro!: keep_intro)
  then show ?thesis using FlushRound by (simp add: wp_final audit_flush_round_def final_def)
next
  case RedisLost
  then show ?thesis using inv by (simp add: evolves_def svc_inv_def cache_ok_def empty_redis_def)
next
  case (Restart g)
  let ?w = "if g then final (shutdown E) w else w"
  let ?v = "new_container E (policy (sv_settings w)) ?w"
  have w: "evolves E w ?w" using wp_shutdown [OF inv] evolves_refl [OF inv] by (simp add: wp_final)
  have p: "policy (policy (sv_settings w)) = policy (sv_settings w)" by (simp add: policy_def)
  have v: "svc_inv E (?v\<lparr>sv_available := False\<rparr>) \<and> evolves E w (?v\<lparr>sv_available := False\<rparr>)"
    using w p depth_policy [OF p] inv
    by (auto simp: evolves_def svc_inv_def new_container_def init_redis_def cache_ok_def svc_audit_ok_def tail_row_hash_def)
  have "evolves E ?v (final (startup E) ?v)"
    using wp_startup conjunct1 [OF v] by (simp add: wp_final)
  then have "evolves E (?v\<lparr>sv_available := False\<rparr>) (final (startup E) ?v)" by simp
  then show ?thesis using evolves_trans [OF conjunct2 [OF v]] Restart by simp
qed

lemma events_evolve:
  assumes be: "svc_backend_ok E" and "svc_inv E w" and "honest_events E evs w"
  shows "evolves E w (happens E evs w)"
  using assms(2,3)
proof (induction evs arbitrary: w)
  case Nil
  then show ?case by (simp add: happens_def evolves_refl)
next
  case (Cons ev evs)
  have step: "evolves E w (happen E ev w)" using event_evolves [OF be Cons.prems(1)] Cons.prems(2) by simp
  then have "evolves E (happen E ev w) (happens E evs (happen E ev w))"
    using Cons by (simp add: evolves_def)
  then show ?case using evolves_trans [OF step] by (simp add: happens_def)
qed

lemma svc_inv_new: "1 \<le> st_max_delegation_depth st \<Longrightarrow> svc_inv E (new_service st)"
  by (simp add: svc_inv_def new_service_def sound_def tables_ledger_def empty_tables_def revoked_in_def chains_ok_def audited_def
      cache_ok_def svc_audit_ok_def lg_inv_empty [unfolded empty_ledger_def])

end
