(* ===== verification/Service_Reports.thy ===== *)
theory Service_Reports
  imports Service_Runs
begin

text \<open>
  The read-only reports of the service: \<open>GET /audit/tree\<close>, \<open>GET /audit/approvals\<close>, \<open>GET /audit/log\<close> and
  \<open>GET /health\<close>, as the values their handlers build. The tree is built by appending nodes to the child lists of other nodes,
  which are shared objects; here the nodes live in a dictionary and a child list holds keys of it. Rows of
  equal depth, or equal creation time, come in table order, which SQL leaves open. Of \<open>GET /health\<close> the
  explanatory note is left out.
\<close>

section \<open>The delegation forest\<close>

record tree_node =
  tn_jti :: string
  tn_subject_id :: string
  tn_label :: string
  tn_parent_jti :: "string option"
  tn_root_jti :: string
  tn_depth :: int
  tn_max_depth :: int
  tn_scopes :: "string list"
  tn_issued_at :: instant
  tn_expires_at :: instant
  tn_revoked :: bool
  tn_expired :: bool
  tn_approval_required :: bool
  tn_approved_by :: "string option"
  tn_children :: "string list"

record forest =
  fr_nodes :: "(string, tree_node) dict"
  fr_roots :: "string list"

definition tree_node_of :: "instant \<Rightarrow> string set \<Rightarrow> (string, string) dict \<Rightarrow> token_metadata \<Rightarrow> tree_node" where
  "tree_node_of now revoked labels m = \<lparr>tn_jti = tm_jti m, tn_subject_id = tm_subject_id m,
     tn_label = (case dget labels (tm_subject_id m) of None \<Rightarrow> tm_subject_id m | Some l \<Rightarrow> l),
     tn_parent_jti = tm_parent_jti m, tn_root_jti = tm_root_jti m, tn_depth = tm_depth m, tn_max_depth = tm_max_depth m,
     tn_scopes = tm_scopes m, tn_issued_at = tm_issued_at m, tn_expires_at = tm_expires_at m,
     tn_revoked = (tm_jti m \<in> revoked), tn_expired = (tm_expires_at m < now),
     tn_approval_required = tm_approval_required m, tn_approved_by = tm_approved_by m, tn_children = []\<rparr>"

definition parent_key :: "(string, tree_node) dict \<Rightarrow> tree_node \<Rightarrow> string option" where
  "parent_key nodes n = (case tn_parent_jti n of None \<Rightarrow> None
     | Some p \<Rightarrow> if p = '''' \<or> dget nodes p = None then None else Some p)"

definition link_node :: "forest \<Rightarrow> string \<Rightarrow> forest" where
  "link_node fr j = (case dget (fr_nodes fr) j of None \<Rightarrow> fr
     | Some n \<Rightarrow> (case parent_key (fr_nodes fr) n of
         None \<Rightarrow> fr\<lparr>fr_roots := fr_roots fr @ [j]\<rparr>
       | Some p \<Rightarrow> (case dget (fr_nodes fr) p of None \<Rightarrow> fr
           | Some pn \<Rightarrow> fr\<lparr>fr_nodes := dset p (pn\<lparr>tn_children := tn_children pn @ [j]\<rparr>) (fr_nodes fr)\<rparr>)))"

definition link_forest :: "tree_node list \<Rightarrow> forest" where
  "link_forest ns = (let nodes = fold (\<lambda>n. dset (tn_jti n) n) ns []
     in foldl link_node \<lparr>fr_nodes = nodes, fr_roots = []\<rparr> (map fst nodes))"

definition tree_handler :: "svc_env \<Rightarrow> string option \<Rightarrow> forest svc" where
  "tree_handler E root_jti =
     bindP (queryS (\<lambda>t. sort_key tm_depth (filter (\<lambda>m. case root_jti of None \<Rightarrow> True | Some r \<Rightarrow> r = '''' \<or> tm_root_jti m = r)
       (map snd (tb_tokens t))))) (\<lambda>records.
     bindP (svc_revoked_among (map tm_jti records)) (\<lambda>revoked.
     bindP (labels_for (map tm_subject_id records)) (\<lambda>labels.
     bindP (nowS E) (\<lambda>now.
     ret (link_forest (map (tree_node_of now revoked labels) records))))))"

definition get_tree :: "svc_env \<Rightarrow> string option \<Rightarrow> (nat \<times> forest) route" where
  "get_tree E root_jti = bindP (on_session E Unhandled (tree_handler E root_jti)) (\<lambda>fr. ret (200, fr))"

section \<open>The approvals queue\<close>

definition approvals_query :: "string option \<Rightarrow> tables \<Rightarrow> pending_approval list" where
  "approvals_query status_filter t = sort_key (\<lambda>a. - pa_created_at a)
     (filter (\<lambda>a. case status_filter of None \<Rightarrow> True | Some s \<Rightarrow> s = '''' \<or> pa_status a = s) (map snd (tb_approvals t)))"

definition approval_json :: "pending_approval \<Rightarrow> json" where
  "approval_json a = JObj [(''approval_id'', JStr (pa_approval_id a)), (''parent_jti'', JStr (pa_parent_jti a)),
     (''parent_subject_id'', JStr (pa_parent_subject_id a)), (''child_agent_id'', JStr (pa_child_agent_id a)),
     (''requested_scopes'', json_strs (pa_requested_scopes a)), (''sensitive_scopes'', json_strs (pa_sensitive_scopes a)),
     (''status'', JStr (pa_status a)), (''created_at'', JStr (iso (pa_created_at a))), (''expires_at'', JStr (iso (pa_expires_at a))),
     (''decided_at'', json_of_opt (map_option iso (pa_decided_at a))), (''approved_by'', json_of_opt (pa_approved_by a)),
     (''child_jti'', json_of_opt (pa_child_jti a))]"

definition get_approvals :: "svc_env \<Rightarrow> string option \<Rightarrow> http route" where
  "get_approvals E status_filter = bindP (on_session E Unhandled (queryS (approvals_query status_filter))) (\<lambda>rows.
     ret (200, JObj [(''total'', JInt (int (length rows))), (''approvals'', JList (map approval_json rows))]))"

section \<open>The audit log\<close>

text \<open>A page of \<open>GET /audit/log\<close>, newest row first, without the \<open>since\<close> filter.\<close>

definition log_entry_json :: "audit_row \<Rightarrow> json" where
  "log_entry_json row = (let int_or_null = (\<lambda>x. case x of None \<Rightarrow> JNull | Some i \<Rightarrow> JInt i);
       strs_or_null = (\<lambda>x. case x of None \<Rightarrow> JNull | Some ss \<Rightarrow> json_strs ss) in
     JObj [(''id'', JInt (int (aw_id row))), (''ts'', JStr (ev_event_ts row)), (''action'', JStr (ev_action row)),
       (''actor_id'', json_of_opt (ev_actor_id row)), (''jti'', json_of_opt (ev_jti row)),
       (''parent_jti'', json_of_opt (ev_parent_jti row)), (''root_jti'', json_of_opt (ev_root_jti row)),
       (''scopes'', strs_or_null (ev_scopes row)), (''denied_scopes'', strs_or_null (ev_denied_scopes row)),
       (''required_scope'', json_of_opt (ev_required_scope row)), (''decision'', json_of_opt (ev_decision row)),
       (''reason'', json_of_opt (ev_reason row)), (''depth'', int_or_null (ev_depth row)),
       (''detail'', (case ev_detail row of None \<Rightarrow> JNull | Some d \<Rightarrow> d)), (''latency_us'', int_or_null (ev_latency_us row)),
       (''row_hash'', JStr (aw_row_hash row)), (''prev_hash'', JStr (aw_prev_hash row))])"

definition get_log :: "svc_env \<Rightarrow> string option \<Rightarrow> string option \<Rightarrow> string option \<Rightarrow> int \<Rightarrow> int \<Rightarrow> http route" where
  "get_log E agent_id act decision limit offset =
     (if limit < 1 \<or> 1000 < limit \<or> offset < 0 then unprocessable
      else bindP (on_session E Unhandled (getsP (audit_query agent_id act decision (nat limit) (nat offset)))) (\<lambda>(total, rows).
        ret (200, JObj [(''total'', JInt (int total)), (''limit'', JInt limit), (''offset'', JInt offset),
          (''entries'', JList (map log_entry_json rows))])))"

section \<open>Health\<close>

record health_report =
  he_status :: string
  he_circuit :: svc_circuit_state
  he_error_rate :: real
  he_redis_available :: bool
  he_windows :: "(string, nat) dict"
  he_tokens :: nat
  he_revocations :: nat
  he_audit_rows :: nat
  he_pending_approvals :: nat
  he_settings :: settings

definition health_handler :: "svc_env \<Rightarrow> health_report svc" where
  "health_handler E = bindP (nowS E) (\<lambda>now.
     bindP (getsP (\<lambda>w. svc_breaker_state (sv_settings w) now (sv_breaker w))) (\<lambda>state.
     bindP (queryS (\<lambda>t. (length (tb_tokens t), length (tb_revocations t),
       length (filter (\<lambda>a. pa_status a = ''pending'') (map snd (tb_approvals t)))))) (\<lambda>(tokens, revocations, parked).
     bindP (getsP (\<lambda>w. length (sv_audit w))) (\<lambda>audit_rows.
     bindP (getsP sv_available) (\<lambda>available.
     bindP (svc_rate_snapshot E) (\<lambda>windows.
     bindP (getsP sv_settings) (\<lambda>st.
     ret \<lparr>he_status = (if cs_open state then ''degraded'' else ''ok''), he_circuit = state,
       he_error_rate = of_int (round_half_even (cs_error_rate state * 10000)) / 10000, he_redis_available = available,
       he_windows = windows, he_tokens = tokens, he_revocations = revocations, he_audit_rows = audit_rows,
       he_pending_approvals = parked, he_settings = st\<rparr>)))))))"

definition get_health :: "svc_env \<Rightarrow> (nat \<times> health_report) route" where
  "get_health E = bindP (on_session E Unhandled (health_handler E)) (\<lambda>h. ret (200, h))"

text \<open>The body of \<open>GET /health\<close>, without its two floats (the error rate and the threshold).\<close>

definition health_json :: "health_report \<Rightarrow> json" where
  "health_json h = (let c = he_circuit h; st = he_settings h in JObj [(''status'', JStr (he_status h)),
     (''circuit'', JObj [(''open'', JBool (cs_open c)), (''reason'', json_of_opt (cs_reason c)),
        (''samples'', JInt (int (cs_samples c))), (''errors'', JInt (int (cs_errors c))),
        (''window_seconds'', JInt (st_circuit_window_seconds st)), (''min_samples'', JInt (st_circuit_min_samples st))]),
     (''redis'', JObj [(''available'', JBool (he_redis_available h))]),
     (''rate_limits'', JObj [(''delegate_per_min'', JInt (st_rate_limit_delegate_per_min st)),
        (''verify_per_min'', JInt (st_rate_limit_verify_per_min st)),
        (''current_windows'', JObj (map (map_prod (\<lambda>k. k) (JInt \<circ> int)) (he_windows h))),
        (''exempt_agents'', json_strs (st_guardrail_exempt_agents st))]),
     (''counts'', JObj [(''tokens'', JInt (int (he_tokens h))), (''revocations'', JInt (int (he_revocations h))),
        (''audit_rows'', JInt (int (he_audit_rows h))), (''pending_approvals'', JInt (int (he_pending_approvals h)))]),
     (''sensitive_scopes'', json_strs (sorted_list_of_set (st_sensitive_scopes st))),
     (''max_delegation_depth'', JInt (st_max_delegation_depth st))])"

end
