(* ===== verification/Service_Safety.thy ===== *)
theory Service_Safety
  imports Service_Runs
begin

text \<open>
  What a run of the service guarantees: the audit log, the ledger it refines, the lineage of its tokens,
  their audit rows, what a 200 of \<open>POST /verify\<close> means, and that revocation is final.
\<close>

section \<open>The audit log\<close>

lemma keeps_log_calls [keep_intro]:
  "keeps (svc_audit_ok E) (nowS E)" "keeps (svc_audit_ok E) (now_tsS E)" "keeps (svc_audit_ok E) (perfS E)"
  "keeps (svc_audit_ok E) (uuidS E)" "keeps (svc_audit_ok E) (queryS f)" "keeps (svc_audit_ok E) (flushS g)"
  "keeps (svc_audit_ok E) (redisS E h)" "keeps (svc_audit_ok E) (decodeS E tok)" "keeps (svc_audit_ok E) (mint_rootS E a b c d)"
  "keeps (svc_audit_ok E) (mint_childS E p s sc x b' k)" "keeps (svc_audit_ok E) circuit_checkS"
  "keeps (svc_audit_ok E) (updP mark_unavailable)" "keeps (svc_audit_ok E) (write_batch E evs)"
  "keeps (svc_audit_ok E) (updP rollback_tx)"
  by (auto simp: keeps_wp wp_simps circuit_checkS_def svc_audit_ok_written svc_audit_ok_failed rollback_tx_def split: sum.splits)

lemma svc_audit_ok_db [simp]: "svc_audit_ok E (t\<lparr>sv_db := d\<rparr>) = svc_audit_ok E t"
  by (simp add: svc_audit_ok_def tail_row_hash_def)

lemma keeps_log_flush [keep_intro]: "keeps (svc_audit_ok E) (audit_flush E)"
  unfolding audit_flush_def by (auto intro!: keep_intro)

lemma keeps_log_audit [keep_intro]: "keeps (svc_audit_ok E) (auditS E ev)"
  unfolding auditS_def audit_log_def by (auto intro!: keep_intro)

lemma keeps_log_engines [keep_intro]:
  "keeps (svc_audit_ok E) (mirrorS E f)" "keeps (svc_audit_ok E) (cache_add E js)" "keeps (svc_audit_ok E) (rebuild_cache E)"
  "keeps (svc_audit_ok E) (circuitS E err so pol)" "keeps (svc_audit_ok E) (observeS E s n)" "keeps (svc_audit_ok E) (svc_rate_check E s act)"
  "keeps (svc_audit_ok E) (collect_subtree E j)" "keeps (svc_audit_ok E) (store_approval a)"
  unfolding mirrorS_def cache_add_def rebuild_cache_def circuitS_def observeS_def svc_rate_check_def redis_count_def local_count_def
    collect_subtree_def store_approval_def
  by (auto intro!: keep_intro split: option.splits)

lemma keeps_log_revocation [keep_intro]:
  "keeps (svc_audit_ok E) (svc_is_revoked E j b)" "keeps (svc_audit_ok E) (svc_revoke_subtree E j r)" "keeps (svc_audit_ok E) (record_edge E p j)"
  unfolding svc_is_revoked_def svc_revoke_subtree_def record_edge_def by (auto intro!: keep_intro split: option.splits)

lemma keeps_log_any_revoked [keep_intro]: "keeps (svc_audit_ok E) (any_revokedS E js)"
  by (induction js) (auto intro!: keep_intro)

lemma keeps_log_rows [keep_intro]:
  "keeps (svc_audit_ok E) (resolve_or_create E [] i k)" "keeps (svc_audit_ok E) (svc_persist_token m p)"
  "keeps (svc_audit_ok E) (decode_live_parent E tok)" "keeps (svc_audit_ok E) (svc_assert_root_alive E c)"
  "keeps (svc_audit_ok E) (svc_load_pending E i)"
  unfolding resolve_or_create_def note_exempt_def svc_persist_token_def decode_live_parent_def svc_assert_root_alive_def svc_load_pending_def
  by (auto intro!: keep_intro split: option.splits svc_error.splits)

lemma keeps_log_expire [keep_intro]: "keeps (svc_audit_ok E) (svc_expire_stale_approvals E)"
proof -
  have "keeps (svc_audit_ok E) (svc_expire_loop E now rs)" for now rs
    by (induction rs) (auto intro!: keep_intro)
  then show ?thesis unfolding svc_expire_stale_approvals_def by (auto intro!: keep_intro)
qed

lemma keeps_log_methods [keep_intro]:
  "keeps (svc_audit_ok E) (svc_mint_root E h s t md)" "keeps (svc_audit_ok E) (create_pending_approval E p to s t)"
  "keeps (svc_audit_ok E) (svc_delegate_issue E p to s x)"  "keeps (svc_audit_ok E) (svc_approve_issue E rc m a)"
  "keeps (svc_audit_ok E) (svc_deny E i a)" "keeps (svc_audit_ok E) (svc_revoke E j r a)" "keeps (svc_audit_ok E) (svc_verify_deny E n q c why)"
  unfolding svc_mint_root_def create_pending_approval_def svc_delegate_issue_def svc_approve_issue_def svc_deny_def svc_revoke_def svc_verify_deny_def
    outcomeS_def
  by (auto intro!: keep_intro split: option.splits)

lemma keeps_log_methods2 [keep_intro]:
  "keeps (svc_audit_ok E) (svc_delegate E tok c sc t)" "keeps (svc_audit_ok E) (svc_verify E tok s)"
  "keeps (svc_audit_ok E) (svc_approve E i a)"
  unfolding svc_delegate_def svc_delegate_granted_def svc_verify_def svc_verify_claims_def svc_approve_def outcomeS_def
  by (auto intro!: keep_intro split: option.splits svc_error.splits sum.splits)

lemma keeps_log_session: "keeps (svc_audit_ok E) m \<Longrightarrow> keeps (svc_audit_ok E) (session_scope E m)"
  by (auto simp: keeps_wp wp_session_scope begin_tx_def commit_tx_def rollback_tx_def elim!: wp_mono)

lemma keeps_log_collect: "keeps (svc_audit_ok E) (collect_handler E i)"
  unfolding collect_handler_def by (auto intro!: keep_intro split: option.splits)

lemma keeps_log_on_session: "keeps (svc_audit_ok E) m \<Longrightarrow> keeps (svc_audit_ok E) (on_session E f m)"
  unfolding on_session_def by (intro keep_intro keeps_log_session)

lemma keeps_log_serve: "keeps (svc_audit_ok E) (serve E r)"
proof -
  have admin: "keeps (svc_audit_ok E) (require_admin key)" and bearer: "keeps (svc_audit_ok E) (bearer_token auth)" for key auth
    unfolding require_admin_def bearer_token_def by (auto intro!: keep_intro split: option.splits)
  note intros = keep_intro keeps_log_on_session admin bearer
  have deny: "keeps (svc_audit_ok E) (deny_handler E i a)" for i a
    unfolding deny_handler_def by (auto intro!: intros)
  show ?thesis
    by (cases r) (auto simp: post_root_def post_delegate_def post_verify_def post_revoke_def post_approve_def post_deny_def
        collect_pending_def get_chain_def chain_handler_def svc_revoked_among_def labels_for_def get_verify_integrity_def
        verify_integrity_handler_def post_reset_circuit_def unhandled_def reset_handler_def post_flush_audit_def get_subjects_route_def
      intro!: intros deny keeps_log_collect split: option.splits)
qed

lemma log_event: "svc_audit_ok E w \<Longrightarrow> svc_audit_ok E (happen E ev w)"
proof (induction ev)
  case (Request r)
  then show ?case using keeps_log_serve by (auto simp: keeps_def)
next
  case FlushRound
  then show ?case using keeps_log_flush by (auto simp: keeps_def audit_flush_round_def final_def)
next
  case (Restart g)
  have "keeps (svc_audit_ok E) (shutdown E)"
    unfolding shutdown_def audit_stop_def
    by (auto intro!: keep_intro simp: close_redis_def svc_audit_ok_def tail_row_hash_def)
  moreover have "keeps (svc_audit_ok E) (startup E)"
    unfolding startup_def audit_start_def load_tail_def
    by (auto intro!: keep_intro keeps_log_session simp: svc_audit_ok_def tail_row_hash_def)
  moreover have "svc_audit_ok E (new_container E st v)" if "svc_audit_ok E v" for st v
    using that by (simp add: new_container_def init_redis_def tickS_def svc_audit_ok_def tail_row_hash_def)
  ultimately show ?case using Restart by (simp add: keeps_def)
qed simp

text \<open>C32: whatever the requests, their tokens and their outcomes, and whatever commits fail, the audit log of
  the service verifies as intact after every run, restarts and lost caches included.\<close>
theorem service_audit_always_intact: "ir_intact (svc_verify_integrity E (happens E evs (new_service st)))"
proof -
  have "svc_audit_ok E (fold (happen E) evs w)" if "svc_audit_ok E w" for w
    using that by (induction evs arbitrary: w) (auto intro: log_event)
  moreover have "svc_audit_ok E (new_service st)" by (simp add: svc_audit_ok_def new_service_def tail_row_hash_def)
  ultimately show ?thesis by (simp add: svc_audit_ok_intact happens_def)
qed

section \<open>What a run keeps\<close>

definition service_run :: "svc_env \<Rightarrow> settings \<Rightarrow> event list \<Rightarrow> service \<Rightarrow> bool" where
  "service_run E st evs w \<longleftrightarrow> svc_backend_ok E \<and> 1 \<le> st_max_delegation_depth st \<and> honest_events E evs (new_service st)
     \<and> w = happens E evs (new_service st)"

lemma svc_run_inv: "service_run E st evs w \<Longrightarrow> svc_inv E w"
  using events_evolve [OF _ svc_inv_new] by (auto simp: service_run_def evolves_def)

text \<open>C7: the tables of the service move only by the five steps of the ledger that specifies a firewall: a
  token appears as a root or as a narrowing of an unrevoked token on record, approvals are parked under
  what their parent covers and decided once on record, and revocation takes whole subtrees.\<close>

theorem service_refines_ledger:
  assumes "service_run E st evs w"
  shows "ledger_step\<^sup>*\<^sup>* empty_ledger (tables_ledger (sv_db w))"
proof -
  have "evolves E (new_service st) w" using assms events_evolve [OF _ svc_inv_new] by (auto simp: service_run_def)
  moreover have "tables_ledger (sv_db (new_service st)) = empty_ledger"
    by (simp add: tables_ledger_def new_service_def empty_tables_def empty_ledger_def revoked_in_def)
  ultimately show ?thesis by (simp add: evolves_def advances_def)
qed

text \<open>C8: delegation in the service only narrows, over chains of any length: a token that descends from
  another has at most its scopes, expires no later, is deeper within the same depth limit and root, is
  revoked if the ancestor is, and carries in its chain exactly the tokens it descends from.\<close>

theorem service_lineage:
  assumes run: "service_run E st evs w" and path: "(a, d) \<in> (set (tb_edges (sv_db w)))\<^sup>+"
  shows "\<exists>am dm. dget (tb_tokens (sv_db w)) a = Some am \<and> dget (tb_tokens (sv_db w)) d = Some dm \<and> tighter dm am
     \<and> set (chain_jtis dm) = {x. (x, d) \<in> (set (tb_edges (sv_db w)))\<^sup>+} \<and> (a \<notin> revoked_in (sv_db w) \<or> d \<in> revoked_in (sv_db w))"
proof -
  have inv: "lg_inv (tables_ledger (sv_db w))" using svc_run_inv [OF run] by (simp add: svc_inv_def sound_def)
  obtain am dm where "dget (tb_tokens (sv_db w)) a = Some am" "dget (tb_tokens (sv_db w)) d = Some dm" "tighter dm am"
    using lg_path_tighter [OF inv, of a d] path by auto
  moreover from this have "set (chain_jtis dm) = {x. (x, d) \<in> (set (tb_edges (sv_db w)))\<^sup>+}"
    using lg_chain_ancestors [OF inv] by simp
  moreover have "a \<in> revoked_in (sv_db w) \<Longrightarrow> d \<in> revoked_in (sv_db w)"
    using lg_revoked_descendants [OF inv, of a d] path by (simp add: trancl_into_rtrancl)
  ultimately show ?thesis by blast
qed

text \<open>C11: no capability without its audit row: every token in the tables has the row of the mint, delegation
  or approval that made it, with its scopes, depth, parent and root, and every revocation the row of a
  revocation that lists it, although commits of the tables and of the log can fail one without the other.\<close>

theorem no_unaudited_capability:
  assumes run: "service_run E st evs w"
  shows "(case dget (tb_tokens (sv_db w)) j of None \<Rightarrow> True | Some m \<Rightarrow> tm_jti m = j \<and> (\<exists>row. row \<in> set (sv_audit w) \<and> mint_row row m))
     \<and> (j \<notin> revoked_in (sv_db w) \<or> (\<exists>row. row \<in> set (sv_audit w) \<and> revoke_row row j))"
proof -
  have snd: "sound (sv_db w) (sv_audit w)" using svc_run_inv [OF run] by (simp add: svc_inv_def)
  then have "audited (sv_db w) (sv_audit w)" by (simp add: sound_def)
  then show ?thesis
    using lg_tokenD [OF lg_invD [OF snd], of j] unfolding audited_def
    by (cases "dget (tb_tokens (sv_db w)) j") (simp_all, blast+)
qed

section \<open>Verification\<close>

text \<open>A program that only refuses.\<close>

definition refuses :: "verify_outcome svc \<Rightarrow> bool" where
  "refuses m \<longleftrightarrow> (\<forall>t. wp m (\<lambda>o1 _. \<not> vo_valid o1) (\<lambda>_ _. True) t)"

lemma refuses_bind: "(\<And>a. refuses (k a)) \<Longrightarrow> refuses (bindP m k)"
  unfolding refuses_def wp_bindP by (intro allI, rule wp_mono [OF wp_trivial]) simp_all

lemma refuses_outcome: "refuses (outcomeS E s r c)"
  by (simp add: refuses_def outcomeS_def wp_simps)

lemma refuses_deny: "refuses (svc_verify_deny E s sc c r)"
  unfolding svc_verify_deny_def by (intro refuses_bind refuses_outcome)

definition good_token :: "svc_env \<Rightarrow> service \<Rightarrow> string \<Rightarrow> string \<Rightarrow> claims \<Rightarrow> bool" where
  "good_token E w tok scope c \<longleftrightarrow> (\<exists>now. svc_decode E (sv_settings w) now tok False = Inr c)
     \<and> (\<exists>n \<ge> sv_tick w. ts_of (e_clock (se_env E) n) \<le> c_exp c)
     \<and> set (c_jti c # map ce_jti (c_delegation_chain c)) \<inter> revoked_in (sv_db w) = {} \<and> scope \<in> scope_set c"

lemma keeps_tick_rate: "keeps (\<lambda>u. n \<le> sv_tick u) (svc_rate_check E s act)"
  unfolding svc_rate_check_def redis_count_def local_count_def
  by (auto intro!: keep_intro simp: keeps_wp wp_simps mark_unavailable_def split: prod.splits)

lemma wp_svc_verify:
  assumes inv: "inreq E w (sv_db w) t" and tick: "sv_tick w \<le> sv_tick t"
  shows "wp (svc_verify E tok scope) (\<lambda>o1 _. vo_valid o1 \<longrightarrow> \<not> br_open (sv_breaker t) \<and>
      (\<exists>c. vo_claims o1 = Some c \<and> good_token E w tok scope c)) (\<lambda>_ _. True) t"
proof -
  let ?Q = "\<lambda>o1 (_ :: service). vo_valid o1 \<longrightarrow> \<not> br_open (sv_breaker t) \<and> (\<exists>c. vo_claims o1 = Some c \<and> good_token E w tok scope c)"
  have no: "wp m ?Q (\<lambda>_ _. True) u" if "refuses m" for m u
    using that unfolding refuses_def by (rule allE [of _ u]) (erule wp_mono, auto)
  have "svc_decode E (sv_settings t) = svc_decode E (sv_settings w)"
    by (rule policy_decode) (use inv in \<open>simp add: inreq_def\<close>)
  note dec = this
  have claims: "wp (svc_verify_claims E s scope c) ?Q (\<lambda>_ _. True) u"
    if u: "inreq E w (sv_db w) u" "sv_tick w \<le> sv_tick u" and c: "svc_decode E (sv_settings w) now tok False = Inr c"
      and closed: "\<not> br_open (sv_breaker t)" for s c u now
  proof -
    have "wp (svc_rate_check E (c_sub c) ''verify'') (\<lambda>_ v. inreq E w (sv_db w) v \<and> sv_tick w \<le> sv_tick v) (\<lambda>_ _. True) u"
      using wp_conj [OF wp_keeps [OF keeps_rate u(1), of "\<lambda>_. inreq E w (sv_db w)" "\<lambda>_ _. True"] wp_keeps [OF keeps_tick_rate u(2), of "\<lambda>_ v. sv_tick w \<le> sv_tick v" "\<lambda>_ _. True"]]
      by simp
    then show ?thesis unfolding svc_verify_claims_def wp_bindP [of "svc_rate_check _ _ _"]
    proof (rule wp_mono, goal_cases)
      case (1 a v)
      show ?case
      proof (cases "c_exp c < ts_of (e_clock (se_env E) (sv_tick v))")
        case True
        then show ?thesis using no [OF refuses_deny] by (simp add: wp_bindP wp_readings)
      next
        case False
        have v: "inreq E w (sv_db w) (tickS v)" and n: "sv_tick w \<le> sv_tick v" using 1 by simp_all
        show ?thesis unfolding wp_bindP [of "now_tsS _"] wp_readings wp_if [of "c_exp c < _"] if_not_P [OF False]
            wp_bindP [of "any_revokedS _ _"]
        proof (rule wp_any_revoked_at [OF v], goal_cases)
          case (1 dead y)
          have good: "good_token E w tok scope c" if "\<not> dead" "scope \<in> scope_set c"
            using that 1(3) c n False unfolding good_token_def by (meson not_less)
          show ?case
            using good closed no [OF refuses_deny]
            by (auto simp: wp_bindP wp_ret wp_readings intro!: wp_mono [OF wp_trivial])
        qed
      qed
    qed simp
  qed
  have ready: "svc_decode E (sv_settings w) (e_clock (se_env E) (Suc (sv_tick t))) tok False = Inr c \<Longrightarrow> \<not> br_open (sv_breaker t) \<Longrightarrow>
      wp (svc_verify_claims E s scope c) ?Q (\<lambda>_ _. True) (tickS (tickS t))" for s c
    by (rule claims) (use inv tick in auto)
  show ?thesis unfolding svc_verify_def wp_bindP [of "perfS _"] wp_readings wp_bindP [of "getsP _"] wp_getsP
    using ready dec no [OF refuses_outcome] no [OF refuses_bind [OF refuses_bind [OF refuses_outcome]]]
    by (auto simp: is_open_def wp_simps split: sum.splits)
qed

lemma verify_200:
  assumes inv: "svc_inv E w" and ok: "result (post_verify E tok scope) w = Inr (200, body)"
  shows "\<not> br_open (sv_breaker w) \<and> (\<exists>c. good_token E w tok scope c)"
proof -
  have start: "inreq E w (sv_db w) (begin_tx w)" "sv_tick w \<le> sv_tick (begin_tx w)" "sv_breaker (begin_tx w) = sv_breaker w"
    using begin_inreq [OF inv] by (simp_all add: begin_tx_def)
  have "wp (post_verify E tok scope) (\<lambda>r _. fst r = 200 \<longrightarrow> \<not> br_open (sv_breaker w) \<and> (\<exists>c. good_token E w tok scope c))
      (\<lambda>_ _. True) w"
  proof (cases "VerifyRequest tok scope")
    case True
    then show ?thesis
      unfolding post_verify_def wp_if on_session_def wp_bindP wp_catchP wp_raise wp_ret wp_session_scope
      by simp (rule wp_mono [OF wp_svc_verify [OF start(1,2), of tok scope]], auto simp: start verify_response_def)
  qed (simp add: post_verify_def wp_simps)
  then show ?thesis using ok by (auto simp: wp_def result_def split: prod.splits sum.splits)
qed

text \<open>C10: a positive answer of the service is earned. If \<open>POST /verify\<close> answers 200, the breaker was closed
  and the token decodes, under the service's key, to claims that hold the asked scope, had not expired at a
  clock reading of this request, and name no revoked token, neither the token itself nor an ancestor;
  whatever state Redis is in.\<close>

theorem service_verify_sound:
  assumes "service_run E st evs w" and "result (post_verify E tok scope) w = Inr (200, body)"
  shows "\<not> br_open (sv_breaker w) \<and> (\<exists>c. good_token E w tok scope c)"
  using verify_200 [OF svc_run_inv] assms .

section \<open>Revocation is final\<close>

lemma ledger_step_revoked: "ledger_step l l' \<Longrightarrow> lg_revoked l \<subseteq> lg_revoked l'"
  by (cases rule: ledger_step.cases) auto

lemma advances_revoked: "advances t t' \<Longrightarrow> revoked_in t \<subseteq> revoked_in t'"
proof -
  have "ledger_step\<^sup>*\<^sup>* l l' \<Longrightarrow> lg_revoked l \<subseteq> lg_revoked l'" for l l'
    by (induction rule: rtranclp_induct) (use ledger_step_revoked in blast)+
  then show "advances t t' \<Longrightarrow> revoked_in t \<subseteq> revoked_in t'" by (force simp: advances_def)
qed

lemma revoke_commits:
  assumes inv: "svc_inv E w" and be: "svc_backend_ok E" and ok: "result (post_revoke E key jti reason) w = Inr r"
  shows "(set (tb_edges (sv_db w)))\<^sup>* `` {jti} \<subseteq> revoked_in (sv_db (final (post_revoke E key jti reason) w))"
proof -
  have snd: "sound (sv_db w) (sv_audit w)" using inv by (simp add: svc_inv_def)
  let ?P = "\<lambda>u. (set (tb_edges (sv_db w)))\<^sup>* `` {jti} \<subseteq> revoked_in (sv_db u)"
  have session: "wp (session_scope E (svc_revoke E jti reason admin)) (\<lambda>_. ?P) (\<lambda>_ _. True) w" for admin
    unfolding wp_session_scope
    by (rule wp_svc_revoke [OF begin_inreq [OF inv] snd be]) (auto simp: commit_tx_def)
  have "wp (post_revoke E key jti reason) (\<lambda>_. ?P) (\<lambda>_ _. True) w"
    unfolding post_revoke_def require_admin_def on_session_def
    by (cases key) (auto simp: wp_bindP wp_getsP wp_ret wp_raise wp_if wp_catchP wp_case_prod split_def session)
  then show ?thesis using ok by (auto simp: wp_def result_def final_def split: prod.splits sum.splits)
qed

lemma delegate_needs_live_parent:
  assumes inv: "svc_inv E w" and ok: "result (post_delegate E auth child scopes ttl) w = Inr r"
  shows "\<exists>tok c now. result (bearer_token auth) w = Inr tok \<and> svc_decode E (sv_settings w) now tok False = Inr c
    \<and> set (c_jti c # map ce_jti (c_delegation_chain c)) \<inter> revoked_in (sv_db w) = {}"
proof -
  let ?P = "\<lambda>tok. \<exists>c now. svc_decode E (sv_settings w) now tok False = Inr c
    \<and> set (c_jti c # map ce_jti (c_delegation_chain c)) \<inter> revoked_in (sv_db w) = {}"
  have body: "wp (svc_delegate E tok child scopes' ttl) (\<lambda>_ _. ?P tok) (\<lambda>_ _. True) (begin_tx w)" for tok scopes'
    unfolding svc_delegate_def
  proof (subst wp_bindP, rule wp_kept [OF begin_inreq [OF inv]], goal_cases)
    case (2 a u)
    show ?case
      by (subst wp_bindP, rule wp_decode_live_parent [OF 2(1)], rule wp_mono [OF wp_trivial]) auto
  qed (auto intro: keep_intro)
  have "wp (post_delegate E auth child scopes ttl) (\<lambda>_ _. \<exists>tok. result (bearer_token auth) w = Inr tok \<and> ?P tok) (\<lambda>_ _. True) w"
    unfolding post_delegate_def wp_bindP
  proof (simp add: wp_def [of "bearer_token auth"] bearer_run [of auth w] split: sum.splits, intro allI impI, goal_cases)
    case (1 tok)
    have "wp (on_session E delegate_error (svc_delegate E tok child scopes' ttl)) (\<lambda>_ _. ?P tok) (\<lambda>_ _. True) w" for scopes'
      unfolding on_session_def wp_catchP wp_raise wp_session_scope by (rule wp_mono [OF body]) auto
    then show ?case by (auto simp: wp_simps split: option.splits)
  qed
  then show ?thesis using ok by (auto simp: wp_def result_def split: prod.splits sum.splits)
qed

lemma svc_revoked_forever:
  assumes run: "service_run E st (evs @ Request (PostRevoke key jti reason) # later) w"
    and ok: "result (post_revoke E key jti reason) (happens E evs (new_service st)) = Inr r"
    and below: "(jti, d) \<in> (set (tb_edges (sv_db (happens E evs (new_service st)))))\<^sup>*"
  shows "svc_inv E w \<and> d \<in> revoked_in (sv_db w)"
proof -
  let ?w = "happens E evs (new_service st)" and ?w' = "happen E (Request (PostRevoke key jti reason)) (happens E evs (new_service st))"
  have be: "svc_backend_ok E" and depth: "1 \<le> st_max_delegation_depth st"
    and hon: "honest_events E (evs @ Request (PostRevoke key jti reason) # later) (new_service st)"
    and w: "w = happens E later ?w'"
    using run by (simp_all add: service_run_def happens_def)
  have split: "honest_events E (ps @ qs) v \<longleftrightarrow> honest_events E ps v \<and> honest_events E qs (happens E ps v)" for ps qs v
    by (induction ps arbitrary: v) (simp_all add: happens_def)
  have inv: "svc_inv E ?w" using events_evolve [OF be svc_inv_new [OF depth]] hon by (simp add: split evolves_def)
  have inv': "svc_inv E ?w'"
    using event_evolves [OF be inv, of "Request (PostRevoke key jti reason)"] by (simp add: evolves_def del: happen.simps)
  have "evolves E ?w' w" unfolding w by (rule events_evolve [OF be inv']) (use hon in \<open>simp add: split\<close>)
  moreover have "d \<in> revoked_in (sv_db ?w')"
    using revoke_commits [OF inv be ok] below by auto
  ultimately show ?thesis using advances_revoked by (auto simp: evolves_def)
qed

text \<open>C9: a revocation that was answered is final. After \<open>POST /revoke\<close> returned for a token, no token of its
  subtree, and none that carries one in its chain, is ever accepted again by \<open>/verify\<close> or delegated from by
  \<open>/delegate\<close>, whatever requests, losses of the Redis cache and restarts of the process follow.\<close>

theorem service_revocation_is_final:
  assumes run: "service_run E st (evs @ Request (PostRevoke key jti reason) # later) w"
    and ok: "result (post_revoke E key jti reason) (happens E evs (new_service st)) = Inr r"
    and below: "(jti, d) \<in> (set (tb_edges (sv_db (happens E evs (new_service st)))))\<^sup>*"
    and names: "\<And>now c. svc_decode E (sv_settings w) now tok False = Inr c \<Longrightarrow> d \<in> set (c_jti c # map ce_jti (c_delegation_chain c))"
  shows "result (post_verify E tok scope) w \<noteq> Inr (200, body)
    \<and> (result (bearer_token auth) w \<noteq> Inr tok \<or> result (post_delegate E auth child scopes ttl) w \<noteq> Inr r')"
proof -
  from svc_revoked_forever [OF run ok below] have dead: "d \<in> revoked_in (sv_db w)" and inv'': "svc_inv E w" by simp_all
  have "result (post_verify E tok scope) w \<noteq> Inr (200, body)"
  proof
    assume "result (post_verify E tok scope) w = Inr (200, body)"
    from verify_200 [OF inv'' this] obtain c now where c: "svc_decode E (sv_settings w) now tok False = Inr c"
      "set (c_jti c # map ce_jti (c_delegation_chain c)) \<inter> revoked_in (sv_db w) = {}"
      unfolding good_token_def by blast
    from names [OF c(1)] c(2) dead show False by blast
  qed
  moreover have "result (post_delegate E auth child scopes ttl) w \<noteq> Inr r'" if auth: "result (bearer_token auth) w = Inr tok"
  proof
    assume "result (post_delegate E auth child scopes ttl) w = Inr r'"
    from delegate_needs_live_parent [OF inv'' this] auth obtain c now where c: "svc_decode E (sv_settings w) now tok False = Inr c"
      "set (c_jti c # map ce_jti (c_delegation_chain c)) \<inter> revoked_in (sv_db w) = {}"
      by auto
    from names [OF c(1)] c(2) dead show False by blast
  qed
  ultimately show ?thesis by blast
qed

end
