(* ===== verification/Service_Faults.thy ===== *)
theory Service_Faults
  imports Service_Safety
begin

text \<open>
  The admin key, and two ways in which a decision is lost although it was taken.
\<close>

section \<open>The admin key\<close>

fun admin_key :: "request \<Rightarrow> string option option" where
  "admin_key (PostRoot key human scopes ttl depth) = Some key"
| "admin_key (PostRevoke key jti reason) = Some key"
| "admin_key (PostApprove key i decision who) = Some key"
| "admin_key (PostDeny key i decision who) = Some key"
| "admin_key (PostResetCircuit key) = Some key"
| "admin_key (PostFlushAudit key) = Some key"
| "admin_key (GetSubjects key) = Some key"
| "admin_key _ = None"

text \<open>C33: without the admin key nothing happens. A request to a route that mints a root, revokes, decides an
  approval, resets the breaker, flushes the log or lists the subjects, with no key, an empty one or a wrong
  one, ends in the refusal (or in the \<open>TypeError\<close> of comparing text that is not ASCII), and the service is
  in exactly the state it was in.\<close>

theorem admin_only:
  assumes "admin_key r = Some key" and "case key of None \<Rightarrow> True | Some k \<Rightarrow> k = '''' \<or> k \<noteq> st_admin_api_key (sv_settings w)"
  shows "serve E r w = (Inl (HTTPException 401 (JStr ''invalid or missing X-Admin-Key'')), w)
    \<or> serve E r w = (Inl (Unhandled SvcTypeError), w)"
proof -
  have refuse: "bindP (require_admin key) k w = (Inl (HTTPException 401 (JStr ''invalid or missing X-Admin-Key'')), w)
    \<or> bindP (require_admin key) k w = (Inl (Unhandled SvcTypeError), w)" for k :: "string \<Rightarrow> http route"
    using assms(2) by (auto simp: require_admin_def bindP_def getsP_def raise_def split: option.splits)
  show ?thesis using assms(1)
    by (cases r) (simp_all only: serve.simps admin_key.simps option.inject post_root_def post_revoke_def post_approve_def post_deny_def
        post_reset_circuit_def post_flush_audit_def get_subjects_route_def refuse option.distinct simp_thms)
qed

section \<open>Decisions that are lost\<close>

lemma admin_ok: "wp (require_admin (Some key)) Q X w = Q ''human:admin'' w"
  if "key = st_admin_api_key (sv_settings w)" "key \<noteq> ''''" "is_ascii key"
  using that by (simp add: require_admin_def wp_simps)

text \<open>C37: a revocation with a long reason is not recorded, and holds only as long as the cache lives. \<open>POST /revoke\<close>
  allows a reason of 500 characters, the column of the audit log 200; on a database that enforces the width
  (Postgres) a reason in between makes the audit row fail after the revocation was flushed and mirrored: the
  request ends with an unhandled error, and neither a revocation nor an audit row is committed. What is
  left depends on Redis. If it is in use, complete and up, its set already holds the whole subtree, so
  \<open>is_revoked\<close> answers yes for it although nothing is committed, until the set is rebuilt from the
  committed rows (every start of a process does): then the answer is the tables' again, so the tokens
  live on. Without Redis the answer is the tables' at once.\<close>

theorem long_reason_is_not_recorded:
  fixes E w jti reason key
  defines "u \<equiv> final (post_revoke E (Some key) jti (Some reason)) w"
  assumes "svc_backend_ok E" and "se_widths E" and "200 < length reason" and "length reason \<le> 500" and "jti \<noteq> ''''"
    and "key = st_admin_api_key (sv_settings w)" "key \<noteq> ''''" "is_ascii key"
    and below: "(jti, d) \<in> (set (tb_edges (sv_db w)))\<^sup>*"
  shows "result (post_revoke E (Some key) jti (Some reason)) w = Inl (Unhandled SvcDataError)
    \<and> sv_db u = sv_db w \<and> sv_audit u = sv_audit w
    \<and> (sv_available w \<and> rd_ready (sv_redis w) \<and> (\<forall>n. se_redis_up E n) \<longrightarrow>
         result (svc_is_revoked E d True) (begin_tx u) = Inr True
       \<and> result (svc_is_revoked E d True) (final (rebuild_cache E) (begin_tx u)) = Inr (d \<in> revoked_in (sv_db w)))
    \<and> (\<not> sv_available w \<longrightarrow> result (svc_is_revoked E d True) (begin_tx u) = Inr (d \<in> revoked_in (sv_db w)))"
proof -
  obtain js where walk: "\<And>v. sv_tx v = sv_db w \<Longrightarrow> collect_subtree E jti v = (Inr js, v)"
    and js: "set js = (set (tb_edges (sv_db w)))\<^sup>* `` {jti}" "js \<noteq> []"
    using collect_subtree_run [of E] assms(2) unfolding svc_backend_ok_def by metis
  then have walk_wp: "wp (collect_subtree E jti) Q X v = Q js v" if "sv_tx v = sv_db w" for Q X v
    using that by (simp add: wp_def)
  have req: "RevokeRequest jti (Some reason)" using assms(5,6) by (cases jti) (simp_all add: RevokeRequest_def)
  let ?left = "\<lambda>v. sv_db v = sv_db w \<and> sv_audit v = sv_audit w \<and> (\<not> sv_available w \<longrightarrow> \<not> sv_available v)
    \<and> (sv_available w \<and> (\<forall>n. se_redis_up E n) \<longrightarrow> sv_available v \<and> rd_ready (sv_redis v) = rd_ready (sv_redis w)
         \<and> set js \<subseteq> rd_revoked (sv_redis v))"
  have body: "wp (svc_revoke E jti (Some reason) admin) (\<lambda>_ _. False) (\<lambda>x v. x = SvcDataError \<and> ?left v) (begin_tx w)" for admin
    using assms(3,4) js(2)
    by (simp add: svc_revoke_def svc_revoke_subtree_def wp_simps walk_wp begin_tx_def cache_add_def mirrorS_def auditS_def audit_log_def
        BUFFERABLE_def write_fails_def fits_columns_def fits_def mark_unavailable_def) blast
  have "wp (post_revoke E (Some key) jti (Some reason)) (\<lambda>_ _. False) (\<lambda>x v. x = Unhandled SvcDataError \<and> ?left v) w"
    unfolding post_revoke_def wp_bindP admin_ok [OF assms(7-9)]
    using req by (simp add: on_session_def wp_simps) (rule wp_mono [OF body], auto simp: rollback_tx_def)
  then have run: "result (post_revoke E (Some key) jti (Some reason)) w = Inl (Unhandled SvcDataError)" and u: "?left u"
    by (auto simp: wp_def result_def final_def u_def split: prod.splits sum.splits)
  have d: "d \<in> set js" using below js(1) by auto
  have up: "result (svc_is_revoked E d True) (begin_tx u) = Inr True
       \<and> result (svc_is_revoked E d True) (final (rebuild_cache E) (begin_tx u)) = Inr (d \<in> revoked_in (sv_db w))"
    if "sv_available w" "rd_ready (sv_redis w)" "\<forall>n. se_redis_up E n"
    using u d that by (auto simp: svc_is_revoked_def rebuild_cache_def run_defs result_def final_def revoked_in_def)
  have down: "result (svc_is_revoked E d True) (begin_tx u) = Inr (d \<in> revoked_in (sv_db w))" if "\<not> sv_available w"
    using u that by (simp add: svc_is_revoked_def run_defs result_def)
  show ?thesis using run u up down by blast
qed

text \<open>C38: a rejection is not kept. On Postgres, where the audit log commits on a connection of its own: when the
  parent of a parked request was revoked and the request has not expired at the reading \<open>approve\<close> makes of
  the clock, \<open>approve\<close> sets the request to denied, writes \<open>approval_rejected\<close> to the audit log, and raises; the
  route turns that into a 401 and the session rolls back. So, commits succeeding and the columns of the
  row fitting, the log says the request was rejected while the committed request is still pending.\<close>

theorem rejected_approval_stays_pending:
  assumes "cache_ok w" and r: "dget (tb_approvals (sv_db w)) i = Some r" "pa_status r = ''pending''"
    and fresh: "e_clock (se_env E) (sv_tick w) \<le> pa_expires_at r"
    and parent: "dget (tb_tokens (sv_db w)) (pa_parent_jti r) = Some m" "pa_parent_jti r \<in> revoked_in (sv_db w)"
    and postgres: "se_widths E" and fits: "length (pa_parent_jti r) \<le> 64" "\<And>n. length (iso (e_clock (se_env E) n)) \<le> 40"
    and commits: "\<And>n. se_commit E n" and req: "i \<noteq> []" "length who \<le> 200"
    and key: "key = st_admin_api_key (sv_settings w)" "key \<noteq> ''''" "is_ascii key"
  shows "result (post_approve E (Some key) i None who) w
      = Inl (HTTPException 401 (error_body ''parent_token_invalid'' [(''reason'', JStr REASON_REVOKED)]))
    \<and> (\<exists>row. row \<in> set (sv_audit (final (post_approve E (Some key) i None who) w)) \<and> ev_action row = ''approval_rejected''
         \<and> ev_parent_jti row = Some (pa_parent_jti r))
    \<and> dget (tb_approvals (sv_db (final (post_approve E (Some key) i None who) w))) i = Some r"
proof -
  let ?logged = "\<lambda>u. \<exists>row \<in> set (sv_audit u). ev_action row = ''approval_rejected'' \<and> ev_parent_jti row = Some (pa_parent_jti r)"
  let ?X = "\<lambda>x u. x = SvcParentTokenInvalid REASON_REVOKED \<and> sv_db u = sv_db w \<and> ?logged u"
  have audit: "wp (auditS E ev) (\<lambda>_ v. sv_db v = sv_db u \<and> ?logged v) (\<lambda>_ _. False) u"
    if "ev_action ev = ''approval_rejected''" "ev_parent_jti ev = Some (pa_parent_jti r)"
      "fits_columns (ev\<lparr>ev_event_ts := ''''\<rparr>)" for ev u
  proof -
    let ?ev = "ev\<lparr>ev_event_ts := iso (e_clock (se_env E) (sv_tick u))\<rparr>"
    obtain row where "row \<in> set (sv_audit (written E [?ev] (tickS u)))" "audit_event.truncate row = ?ev"
      using written_logged [of ?ev "[?ev]" E "tickS u"] by auto
    then have "?logged (written E [?ev] (tickS u))"
      using that by (intro bexI [of _ row]) (simp_all add: audit_event.truncate_def audit_event.splits, (cases ev, simp)+)
    then show ?thesis
      using that commits fits(2) by (simp add: auditS_def audit_log_def BUFFERABLE_def wp_simps write_fails_def fits_columns_def)
  qed
  have body: "wp (svc_approve E i ''human:admin'') (\<lambda>_ _. False) ?X (begin_tx w)"
  proof -
    have rest: "wp (bindP (nowS E) (\<lambda>decided. bindP (store_approval (f decided)) (\<lambda>_. bindP (auditS E ev) (\<lambda>_.
        raise (SvcParentTokenInvalid REASON_REVOKED) :: (pending_approval \<times> minted_token) svc)))) (\<lambda>_ _. False) ?X u"
      if "sv_db u = sv_db w" and ev: "ev_action ev = ''approval_rejected''" "ev_parent_jti ev = Some (pa_parent_jti r)"
        "fits_columns (ev\<lparr>ev_event_ts := ''''\<rparr>)" for f ev u
      using that(1) by (simp add: wp_simps store_approval_def) (rule wp_mono [OF audit [OF ev]], auto)
    have "svc_load_pending E i (begin_tx w) = (Inr r, tickS (begin_tx w))"
      using r fresh by (simp add: svc_load_pending_def bindP_def queryS_def getsP_def nowS_def ret_def begin_tx_def not_less tickS_def)
    then have load: "wp (svc_load_pending E i) Q Z (begin_tx w) = Q r (tickS (begin_tx w))" for Q Z
      by (simp add: wp_def)
    show ?thesis unfolding svc_approve_def wp_bindP [of "svc_load_pending _ _"] load wp_bindP [of "queryS _"] wp_queryS
      using parent(1)
      by (simp add: begin_tx_def, subst wp_bindP, intro wp_is_revoked)
        (use assms(1) parent(2) in \<open>auto simp: cache_ok_def fits_columns_def fits_def blank_event_def fits(1) intro!: rest dest: redis_onlyD\<close>)
  qed
  have valid: "ApprovalDecisionRequest i None who" using req by (cases i) (simp_all add: ApprovalDecisionRequest_def)
  have "wp (post_approve E (Some key) i None who) (\<lambda>_ _. False)
     (\<lambda>x u. x = HTTPException 401 (error_body ''parent_token_invalid'' [(''reason'', JStr REASON_REVOKED)])
        \<and> sv_db u = sv_db w \<and> ?logged u) w"
    unfolding post_approve_def wp_bindP admin_ok [OF key]
    using valid by (simp add: on_session_def wp_simps) (rule wp_mono [OF body], auto simp: rollback_tx_def)
  then show ?thesis using r by (auto simp: wp_def result_def final_def split: prod.splits sum.splits)
qed

end
