(* ===== verification/Service_Demo.thy ===== *)
theory Service_Demo
  imports Service_Faults
begin

text \<open>
  Witnesses of the properties of runs: a concrete environment, conditions under which the service answers,
  and a run that mints a root and delegates from it.
\<close>

section \<open>A concrete environment\<close>

text \<open>Every token decodes to the claims \<open>c\<close>; pydantic reads dumps back; commits and Redis work.\<close>

definition live_env :: "claims \<Rightarrow> svc_env" where
  "live_env c = \<lparr>se_env = demo_env (\<lambda>_. Some (to_payload c)),
     se_claims = (\<lambda>p. case from_payload p of Inl _ \<Rightarrow> None | Inr c \<Rightarrow> Some c), se_entry = entry_from_dict,
     se_commit = (\<lambda>_. True), se_widths = False, se_redis_up = (\<lambda>_. True), se_scan = (\<lambda>xs. xs)\<rparr>"

lemma live_sel [simp]: "se_env (live_env c) = demo_env (\<lambda>_. Some (to_payload c))" "se_commit (live_env c) n" "\<not> se_widths (live_env c)"
  by (simp_all add: live_env_def)

lemma live_decodes: "c_iss c = st_issuer st \<Longrightarrow> svc_decode (live_env c) st now tok False = Inr c"
proof -
  assume iss: "c_iss c = st_issuer st"
  have "json_get (to_payload c) ''iss'' = Some (JStr (c_iss c))" by (simp add: to_payload_def json_get_def)
  then show ?thesis using iss by (simp add: svc_decode_def live_env_def demo_env_def from_payload_to_payload)
qed

lemma live_backend [simp]: "svc_backend_ok (live_env c)"
  by (simp add: svc_backend_ok_def live_env_def from_payload_to_payload)

section \<open>When the service answers\<close>

text \<open>Without Redis the revocation check reads the tables, and an exempt subject is not limited.\<close>

lemma any_revoked_run:
  "\<not> sv_available w \<Longrightarrow> any_revokedS E js w = (Inr (set js \<inter> revoked_in (sv_tx w) \<noteq> {}), w)"
  by (induction js) (auto simp: svc_is_revoked_def bindP_def getsP_def queryS_def ret_def)

lemma wp_offline:
  assumes "\<not> sv_available u"
  shows "wp (any_revokedS E js) Q X u = Q (set js \<inter> revoked_in (sv_tx u) \<noteq> {}) u"
    and "wp (svc_is_revoked E j True) Q' X' u = Q' (j \<in> revoked_in (sv_tx u)) u"
  using any_revoked_run [OF assms] assms by (simp_all add: wp_def svc_is_revoked_def bindP_def getsP_def queryS_def ret_def)

lemma exempt_register [simp]:
  "svc_is_exempt st (Some s) \<Longrightarrow> svc_is_exempt (svc_register_exempt_subject i j st) (Some s)"
  by (auto simp: svc_is_exempt_def svc_register_exempt_subject_def split: if_splits)

lemma wp_exempt:
  assumes "svc_is_exempt (sv_settings u) (Some s)"
  shows "wp (svc_rate_check E s act) Q X u = Q () u" and "wp (circuitS E err (Some s) pol) Q' X' u = Q' () (tickS u)"
  using assms by (cases u; simp add: svc_rate_check_def circuitS_def svc_breaker_record_def wp_simps tickS_def)+

text \<open>An exempt subject with a live token may delegate what it holds.\<close>

lemma delegate_accepts:
  assumes "\<not> br_open (sv_breaker w)" "svc_is_exempt (sv_settings w) (Some (c_sub c))"
    and dec: "\<And>now. svc_decode E (sv_settings w) now tok False = Inr c"
    and "\<not> sv_available w" "ts_of (e_clock (se_env E) (Suc (sv_tick w))) \<le> c_exp c"
    and "set (c_jti c # map ce_jti (c_delegation_chain c)) \<inter> revoked_in (sv_db w) = {}" "c_root_jti c \<notin> revoked_in (sv_db w)"
    and "dget (tb_tokens (sv_db w)) (c_root_jti c) = Some m" "tm_depth m = 0" "e_clock (se_env E) (Suc (Suc (sv_tick w))) \<le> tm_expires_at m"
    and "set scopes \<subseteq> scope_set c" "c_depth c < c_max_depth c" "set scopes \<inter> st_sensitive_scopes (sv_settings w) = {}"
    and "dget (sv_anomaly w) (c_sub c) = None" "0 < st_anomaly_min_baseline_samples (sv_settings w)"
    and "\<And>n. sv_tick w < n \<Longrightarrow> dget (tb_tokens (sv_db w)) (e_uuid4 (se_env E) n) = None"
    and "tb_edges (sv_db w) = []" "\<And>n. se_commit E n" "\<not> se_widths E"
  shows "wp (svc_delegate E tok child scopes ttl) (\<lambda>r t. (\<exists>x. r = Minted x) \<and> (\<exists>d. (c_jti c, d) \<in> set (tb_edges (sv_tx t)))) (\<lambda>_ _. False) (begin_tx w)"
proof -
  have none: "filter (\<lambda>s. s \<notin> scope_set c) scopes = []" "filter (\<lambda>s. s \<in> st_sensitive_scopes (sv_settings w)) scopes = []"
    using assms by (auto simp: filter_empty_conv)
  have quiet: "fst (svc_observe_delegation (sv_settings w) (c_sub c) n now (sv_anomaly w)) = None" for n now
    using assms by (auto simp: svc_observe_delegation_def Let_def new_baseline_def svc_scope_finding_def)
  have observe: "wp (observeS E (c_sub c) n) Q X u = Q None ((tickS u)\<lparr>sv_anomaly :=
      snd (svc_observe_delegation (sv_settings u) (c_sub c) n (e_clock (se_env E) (sv_tick u)) (sv_anomaly u))\<rparr>)"
    if "sv_settings u = sv_settings w" "sv_anomaly u = sv_anomaly w" for n Q X u
    using quiet that by (simp add: observeS_def wp_simps split_def)
  have issue: "wp (svc_delegate_issue E c child scopes x) (\<lambda>_ t. \<exists>d. (c_jti c, d) \<in> set (tb_edges (sv_tx t))) (\<lambda>_ _. False) u"
    if "sv_settings u = sv_settings w" "sv_tx u = sv_db w" "\<not> sv_available u" "sv_tick w < sv_tick u" for u x
    using that assms
    by (auto simp: svc_delegate_issue_def resolve_or_create_def note_exempt_def wp_simps find_subject_row_def Let_def svc_persist_token_def
      record_edge_def mirrorS_def auditS_def audit_log_def BUFFERABLE_def blank_event_def write_fails_def wp_exempt child_claims_def
      split: option.splits)
  show ?thesis
    using assms none
    by (simp add: svc_delegate_def svc_delegate_granted_def decode_live_parent_def svc_assert_root_alive_def
      wp_simps circuit_checkS_def is_open_def begin_tx_def wp_offline wp_exempt not_less Let_def observe issue
      del: any_revokedS.simps)
qed

text \<open>An exempt subject with a good token is let through.\<close>

lemma verify_accepts:
  assumes "\<not> br_open (sv_breaker w)" "svc_is_exempt (sv_settings w) (Some (c_sub c))"
    and dec: "\<And>now. svc_decode E (sv_settings w) now tok False = Inr c"
    and "\<not> sv_available w" "ts_of (e_clock (se_env E) (Suc (Suc (sv_tick w)))) \<le> c_exp c"
    and "set (c_jti c # map ce_jti (c_delegation_chain c)) \<inter> revoked_in (sv_db w) = {}" "scope \<in> scope_set c"
    and "int (length (sv_buffer w)) + 1 < st_audit_buffer_max_size (sv_settings w)" "tok \<noteq> ''''" "scope \<noteq> ''''" "\<And>n. se_commit E n"
  shows "\<exists>body. result (post_verify E tok scope) w = Inr (200, body)"
proof -
  have breaker: "svc_breaker_record (sv_settings w) False (Some (c_sub c)) False now br = (None, br)" for now br
    using assms(2) by (simp add: svc_breaker_record_def)
  have valid: "VerifyRequest tok scope" using assms by (cases tok; cases scope) (simp_all add: VerifyRequest_def)
  have "wp (svc_verify E tok scope) (\<lambda>o1 _. vo_valid o1 \<and> vo_claims o1 = Some c) (\<lambda>_ _. False) (begin_tx w)"
    using assms breaker
    by (simp add: svc_verify_def svc_verify_claims_def wp_simps begin_tx_def is_open_def svc_rate_check_def wp_offline circuitS_def auditS_def audit_log_def
        BUFFERABLE_def blank_event_def not_less del: any_revokedS.simps)
  from wp_mono [OF this, of "\<lambda>o1 t. if se_commit E (sv_tick t) then fst (verify_response o1) = 200 else False" "\<lambda>_ _. False"]
  have "wp (post_verify E tok scope) (\<lambda>r _. fst r = 200) (\<lambda>_ _. False) w"
    using valid assms by (simp add: post_verify_def on_session_def wp_simps verify_response_def)
  then show ?thesis by (auto simp: wp_def result_def split: prod.splits sum.splits)
qed

section \<open>A run\<close>

definition live_settings :: settings where
  "live_settings = default_settings\<lparr>st_admin_api_key := ''k'', st_exempt_subject_ids := {''human:u''}\<rparr>"

definition root_c :: claims where
  "root_c = root_claims live_settings ''uuu'' 3 ''human:u'' [''read''] 60 5"

definition minted_w :: service where
  "minted_w = happens (live_env root_c) [Request (PostRoot (Some ''k'') ''alice'' [''read''] 60 None)] (new_service live_settings)"

lemma live_settings_sel [simp]:
  "st_admin_api_key live_settings = ''k''" "st_guardrail_exempt_agents live_settings = []" "st_max_delegation_depth live_settings = 5"
  "st_max_ttl_seconds live_settings = 86400" "svc_register_exempt_subject i s live_settings = live_settings"
  "svc_is_exempt live_settings (Some ''human:u'')" "st_sensitive_scopes live_settings = {}"
  "st_anomaly_min_baseline_samples live_settings = 10" "st_audit_buffer_max_size live_settings = 200"
  by (simp_all add: live_settings_def default_settings_def svc_register_exempt_subject_def svc_is_exempt_def)

lemma demo_env_sel [simp]:
  "e_uuid4 (demo_env p) n = replicate (Suc n) CHR ''u''" "e_clock (demo_env p) n = 1000000 * int n"
  by (simp_all add: demo_env_def)

lemma written_more [simp]: "sv_tick (written E evs t) = Suc (sv_tick t)" "sv_anomaly (written E evs t) = sv_anomaly t"
  by (simp_all add: written_def split: prod.splits)

lemma root_c_minted: "root_claims live_settings ''uuu'' (ts_of 3000000) ''human:u'' [''read''] 60 5 = root_c" "c_jti root_c = ''uuu''"
  by (simp_all add: root_c_def root_claims_def ts_of_def)

lemma root_request: "RootTokenRequest ''alice'' [''read''] 60 None = Some [''read'']"
  by (simp add: RootTokenRequest_def normalise_scopes_def strip_def is_space_def code_of_def)

lemma minted_facts:
  "tb_tokens (sv_db minted_w) = [(''uuu'', svc_meta_of root_c None)] \<and> tb_edges (sv_db minted_w) = []
   \<and> tb_revocations (sv_db minted_w) = [] \<and> sv_settings minted_w = live_settings \<and> \<not> sv_available minted_w
   \<and> sv_anomaly minted_w = [] \<and> sv_breaker minted_w = new_breaker \<and> sv_tick minted_w = 7 \<and> sv_buffer minted_w = []"
proof -
  let ?w = "new_service live_settings"
  have "wp (post_root (live_env root_c) (Some ''k'') ''alice'' [''read''] 60 None) (\<lambda>_ t.
     tb_tokens (sv_db t) = [(''uuu'', svc_meta_of root_c None)] \<and> tb_edges (sv_db t) = []
   \<and> tb_revocations (sv_db t) = [] \<and> sv_settings t = live_settings \<and> \<not> sv_available t
   \<and> sv_anomaly t = [] \<and> sv_breaker t = new_breaker \<and> sv_tick t = 7 \<and> sv_buffer t = []) (\<lambda>_ _. False) ?w"
    unfolding post_root_def wp_bindP [of "require_admin _"] root_request option.case
    by (simp add: admin_ok new_service_def is_ascii_def code_of_def on_session_def wp_simps svc_mint_root_def
      resolve_or_create_def note_exempt_def begin_tx_def find_subject_row_def empty_tables_def svc_persist_token_def auditS_def audit_log_def
      BUFFERABLE_def write_fails_def commit_tx_def add_subjects_def tickS_def blank_event_def root_c_minted)
  then show ?thesis by (simp add: minted_w_def happens_def wp_def final_def split: prod.splits sum.splits)
qed

lemma minted_run: "service_run (live_env root_c) live_settings
    [Request (PostRoot (Some ''k'') ''alice'' [''read''] 60 None)] minted_w"
  by (simp add: service_run_def minted_w_def)

definition delegated_w :: service where
  "delegated_w = happen (live_env root_c) (Request (PostDelegate (Some ''Bearer t'') ''bob'' [''read''] 60)) minted_w"

lemma root_c_sel [simp]: "c_sub root_c = ''human:u''" "c_iss root_c = st_issuer live_settings" "c_exp root_c = 63" "c_root_jti root_c = ''uuu''"
  "c_delegation_chain root_c = []" "c_depth root_c = 0" "c_max_depth root_c = 5" "scope_set root_c = {''read''}" "c_jti root_c = ''uuu''"
  by (simp_all add: root_c_def root_claims_def scope_set_def)

lemma delegated_run: "service_run (live_env root_c) live_settings
    [Request (PostRoot (Some ''k'') ''alice'' [''read''] 60 None), Request (PostDelegate (Some ''Bearer t'') ''bob'' [''read''] 60)] delegated_w"
proof -
  have "svc_honest (live_env root_c) minted_w tok" for tok
    using minted_facts live_decodes [of root_c live_settings] by (auto simp: svc_honest_def)
  then show ?thesis
    using minted_run by (simp add: service_run_def delegated_w_def minted_w_def happens_def)
qed

lemma delegated_edge: "\<exists>d. (''uuu'', d) \<in> set (tb_edges (sv_db delegated_w))"
proof -
  let ?E = "live_env root_c"
  have "prefix ''bearer '' (map lower_char ''Bearer t'')" by code_simp
  then have auth: "bearer_token (Some ''Bearer t'') = ret ''t''"
    by (simp add: bearer_token_def strip_def is_space_def code_of_def Let_def del: list.map)
  have req: "DelegateRequest ''bob'' [''read''] 60 = Some [''read'']"
    by (simp add: DelegateRequest_def normalise_scopes_def strip_def is_space_def code_of_def)
  have "wp (svc_delegate ?E ''t'' ''bob'' [''read''] 60)
      (\<lambda>r t. (\<exists>x. r = Minted x) \<and> (\<exists>d. (c_jti root_c, d) \<in> set (tb_edges (sv_tx t)))) (\<lambda>_ _. False) (begin_tx minted_w)"
    by (rule delegate_accepts [where m = "svc_meta_of root_c None"])
      (use minted_facts live_decodes [of root_c live_settings] in
        \<open>auto simp: revoked_in_def new_breaker_def ts_of_def from_ts_def dest!: arg_cong [of "replicate _ _" _ length]\<close>)
  then have "wp (post_delegate ?E (Some ''Bearer t'') ''bob'' [''read''] 60) (\<lambda>_ t. \<exists>d. (''uuu'', d) \<in> set (tb_edges (sv_db t))) (\<lambda>_ _. False) minted_w"
    by (simp add: post_delegate_def auth req wp_simps on_session_def commit_tx_def) (erule wp_mono, auto)
  then show ?thesis by (simp add: delegated_w_def wp_def final_def split: prod.splits sum.splits)
qed

section \<open>The witnesses\<close>

theorem service_refines_ledger_witness: "ledger_step\<^sup>*\<^sup>* empty_ledger (tables_ledger (sv_db delegated_w))"
  by (rule service_refines_ledger [OF delegated_run])

theorem service_lineage_witness:
  "\<exists>d am dm. dget (tb_tokens (sv_db delegated_w)) ''uuu'' = Some am \<and> dget (tb_tokens (sv_db delegated_w)) d = Some dm \<and> tighter dm am"
proof -
  obtain d where "(''uuu'', d) \<in> (set (tb_edges (sv_db delegated_w)))\<^sup>+" using delegated_edge by blast
  from service_lineage [OF delegated_run this] show ?thesis by blast
qed

theorem no_unaudited_capability_witness: "\<exists>row. row \<in> set (sv_audit minted_w) \<and> mint_row row (svc_meta_of root_c None)"
  using no_unaudited_capability [OF minted_run, of "''uuu''"] minted_facts by simp

theorem service_verify_sound_witness: "\<exists>c. good_token (live_env root_c) minted_w ''t'' ''read'' c"
proof -
  obtain body where "result (post_verify (live_env root_c) ''t'' ''read'') minted_w = Inr (200, body)"
    using verify_accepts [of minted_w root_c "live_env root_c" "''t''" "''read''"] minted_facts live_decodes [of root_c live_settings]
    by (auto simp: revoked_in_def new_breaker_def ts_of_def)
  from service_verify_sound [OF minted_run this] show ?thesis by blast
qed

lemma revoke_answers:
  assumes be: "svc_backend_ok E" and "\<And>n. se_commit E n" "\<not> se_widths E" "jti \<noteq> ''''"
    and key: "key = st_admin_api_key (sv_settings w)" "key \<noteq> ''''" "is_ascii key"
  shows "\<exists>r. result (post_revoke E (Some key) jti None) w = Inr r"
proof -
  obtain js where walk: "\<And>u. sv_tx u = sv_db w \<Longrightarrow> collect_subtree E jti u = (Inr js, u)"
    using collect_subtree_run [of E] be unfolding svc_backend_ok_def by metis
  then have walk_wp: "wp (collect_subtree E jti) Q X u = Q js u" if "sv_tx u = sv_db w" for Q X u
    using that by (simp add: wp_def)
  have valid: "RevokeRequest jti None" using assms(4) by (cases jti) (simp_all add: RevokeRequest_def)
  have "wp (svc_revoke E jti None admin) (\<lambda>_ _. True) (\<lambda>_ _. False) (begin_tx w)" for admin
    using assms(2,3)
    by (simp add: svc_revoke_def svc_revoke_subtree_def wp_simps walk_wp begin_tx_def cache_add_def mirrorS_def auditS_def audit_log_def
        BUFFERABLE_def write_fails_def)
  then have "wp (post_revoke E (Some key) jti None) (\<lambda>_ _. True) (\<lambda>_ _. False) w"
    unfolding post_revoke_def wp_bindP admin_ok [OF key]
    using valid assms(2) by (simp add: on_session_def wp_simps split_def)
  then show ?thesis by (auto simp: wp_def result_def split: prod.splits sum.splits)
qed

lemma live_decodes_only: "svc_decode (live_env c0) st now tok v = Inr c \<Longrightarrow> c = c0"
  by (auto simp: svc_decode_def live_env_def demo_env_def from_payload_to_payload split: if_splits option.splits)

theorem service_revocation_is_final_witness:
  "\<forall>body. result (post_verify (live_env root_c) ''t'' ''read'')
     (happens (live_env root_c) [Request (PostRevoke (Some ''k'') ''uuu'' None), RedisLost, Restart False, Request (GetChain ''uuu'')] minted_w)
     \<noteq> Inr (200, body)"
proof
  fix body
  let ?mint = "[Request (PostRoot (Some ''k'') ''alice'' [''read''] 60 None)]" and ?later = "[RedisLost, Restart False, Request (GetChain ''uuu'')]"
  let ?w = "happens (live_env root_c) (Request (PostRevoke (Some ''k'') ''uuu'' None) # ?later) minted_w"
  have w: "happens (live_env root_c) ?mint (new_service live_settings) = minted_w" by (simp add: minted_w_def)
  have run: "service_run (live_env root_c) live_settings (?mint @ Request (PostRevoke (Some ''k'') ''uuu'' None) # ?later) ?w"
    by (simp add: service_run_def minted_w_def happens_def)
  obtain r where r: "result (post_revoke (live_env root_c) (Some ''k'') ''uuu'' None) (happens (live_env root_c) ?mint (new_service live_settings)) = Inr r"
    using revoke_answers [of "live_env root_c" "''uuu''" "''k''" minted_w] minted_facts unfolding w by (auto simp: is_ascii_def code_of_def)
  have "result (post_verify (live_env root_c) ''t'' ''read'') ?w \<noteq> Inr (200, body)
      \<and> (result (bearer_token None) ?w \<noteq> Inr ''t'' \<or> result (post_delegate (live_env root_c) None ''bob'' [] 0) ?w \<noteq> Inr r)"
    by (rule service_revocation_is_final [OF run r, of "''uuu''"]) (auto dest!: live_decodes_only)
  then show "result (post_verify (live_env root_c) ''t'' ''read'') ?w \<noteq> Inr (200, body)" by simp
qed

theorem admin_only_witness:
  "serve (live_env root_c) (PostRevoke (Some ''guess'') ''r'' None) (new_service default_settings)
      = (Inl (HTTPException 401 (JStr ''invalid or missing X-Admin-Key'')), new_service default_settings)
    \<or> serve (live_env root_c) (PostRevoke (Some ''guess'') ''r'' None) (new_service default_settings)
      = (Inl (Unhandled SvcTypeError), new_service default_settings)"
  by (rule admin_only [where key = "Some ''guess''"]) (simp_all add: new_service_def default_settings_def)

text \<open>The minted root with Redis in use, its cache complete.\<close>

definition cached_w :: service where
  "cached_w = minted_w\<lparr>sv_available := True, sv_redis := empty_redis\<lparr>rd_ready := True\<rparr>\<rparr>"

theorem long_reason_is_not_recorded_witness:
  "\<exists>E u. u = final (post_revoke E (Some ''k'') ''uuu'' (Some (replicate 300 CHR ''x''))) cached_w
    \<and> ''uuu'' \<notin> revoked_in (sv_db u) \<and> sv_audit u = sv_audit minted_w
    \<and> result (svc_is_revoked E ''uuu'' True) (begin_tx u) = Inr True
    \<and> result (svc_is_revoked E ''uuu'' True) (final (rebuild_cache E) (begin_tx u)) = Inr False"
proof -
  let ?E = "(live_env root_c)\<lparr>se_widths := True, se_redis_up := (\<lambda>_. True)\<rparr>"
  have "svc_backend_ok ?E" using live_backend [of root_c] unfolding svc_backend_ok_def by simp
  moreover have "se_widths ?E" "200 < length (replicate 300 CHR ''x'')" "length (replicate 300 CHR ''x'') \<le> 500" "''uuu'' \<noteq> ''''"
    "''k'' = st_admin_api_key (sv_settings cached_w)" "''k'' \<noteq> ''''" "is_ascii ''k''"
    "(''uuu'', ''uuu'') \<in> (set (tb_edges (sv_db cached_w)))\<^sup>*"
    using minted_facts by (simp_all add: cached_w_def is_ascii_def code_of_def)
  ultimately have "result (post_revoke ?E (Some ''k'') ''uuu'' (Some (replicate 300 CHR ''x''))) cached_w = Inl (Unhandled SvcDataError)
    \<and> sv_db (final (post_revoke ?E (Some ''k'') ''uuu'' (Some (replicate 300 CHR ''x''))) cached_w) = sv_db cached_w
    \<and> sv_audit (final (post_revoke ?E (Some ''k'') ''uuu'' (Some (replicate 300 CHR ''x''))) cached_w) = sv_audit cached_w
    \<and> (sv_available cached_w \<and> rd_ready (sv_redis cached_w) \<and> (\<forall>n. se_redis_up ?E n) \<longrightarrow>
         result (svc_is_revoked ?E ''uuu'' True)
           (begin_tx (final (post_revoke ?E (Some ''k'') ''uuu'' (Some (replicate 300 CHR ''x''))) cached_w)) = Inr True
       \<and> result (svc_is_revoked ?E ''uuu'' True) (final (rebuild_cache ?E)
           (begin_tx (final (post_revoke ?E (Some ''k'') ''uuu'' (Some (replicate 300 CHR ''x''))) cached_w)))
           = Inr (''uuu'' \<in> revoked_in (sv_db cached_w)))
    \<and> (\<not> sv_available cached_w \<longrightarrow> result (svc_is_revoked ?E ''uuu'' True)
           (begin_tx (final (post_revoke ?E (Some ''k'') ''uuu'' (Some (replicate 300 CHR ''x''))) cached_w))
           = Inr (''uuu'' \<in> revoked_in (sv_db cached_w)))"
    by (rule long_reason_is_not_recorded)
  moreover have "sv_available cached_w" "rd_ready (sv_redis cached_w)" "\<forall>n. se_redis_up ?E n" "''uuu'' \<notin> revoked_in (sv_db cached_w)"
    "sv_audit cached_w = sv_audit minted_w"
    using minted_facts by (simp_all add: cached_w_def revoked_in_def)
  ultimately show ?thesis by (intro exI [of _ ?E] exI) auto
qed

definition parked :: pending_approval where
  "parked = \<lparr>pa_approval_id = ''a'', pa_parent_jti = ''uuu'', pa_parent_subject_id = ''human:u'', pa_child_agent_id = ''bob'',
     pa_child_subject_id = ''agent:b'', pa_requested_scopes = [''read''], pa_sensitive_scopes = [''read''], pa_ttl_seconds = 60,
     pa_parent_exp = 63, pa_status = ''pending'', pa_created_at = 0, pa_expires_at = 0, pa_decided_at = None, pa_approved_by = None,
     pa_child_jti = None, pa_child_token = None, pa_collected = False\<rparr>"

definition parked_w :: service where
  "parked_w = minted_w\<lparr>sv_db := (sv_db minted_w)\<lparr>tb_approvals := [(''a'', parked)],
     tb_revocations := [\<lparr>rv_jti = ''uuu'', rv_revoked_at = 0, rv_root = ''uuu'', rv_reason = None\<rparr>]\<rparr>\<rparr>"

theorem rejected_approval_stays_pending_witness:
  "dget (tb_approvals (sv_db (final (post_approve ((live_env root_c)\<lparr>se_widths := True, se_env := (se_env (live_env root_c))\<lparr>e_clock := (\<lambda>_. 0)\<rparr>\<rparr>)
     (Some ''k'') ''a'' None ''eve'') parked_w))) ''a'' = Some parked"
proof -
  let ?E = "(live_env root_c)\<lparr>se_widths := True, se_env := (se_env (live_env root_c))\<lparr>e_clock := (\<lambda>_. 0)\<rparr>\<rparr>"
  have iso: "length (iso 0) \<le> 40" by code_simp
  have "cache_ok parked_w" "dget (tb_approvals (sv_db parked_w)) ''a'' = Some parked" "pa_status parked = ''pending''"
    "e_clock (se_env ?E) (sv_tick parked_w) \<le> pa_expires_at parked"
    "dget (tb_tokens (sv_db parked_w)) (pa_parent_jti parked) = Some (svc_meta_of root_c None)"
    "pa_parent_jti parked \<in> revoked_in (sv_db parked_w)" "se_widths ?E" "length (pa_parent_jti parked) \<le> 64"
    "\<And>n. length (iso (e_clock (se_env ?E) n)) \<le> 40" "\<And>n. se_commit ?E n"
    "''a'' \<noteq> ''''" "length ''eve'' \<le> 200" "''k'' = st_admin_api_key (sv_settings parked_w)" "''k'' \<noteq> ''''" "is_ascii ''k''"
    using minted_facts iso by (simp_all add: parked_w_def parked_def cache_ok_def revoked_in_def is_ascii_def code_of_def)
  from rejected_approval_stays_pending [OF this] show ?thesis by simp
qed

end
