(* ===== verification/Service_Forest.thy ===== *)
theory Service_Forest
  imports Service_Reports Service_Demo
begin

text \<open>
  The tree view shows the delegations there are: every token is a node, under its parent, and the roots
  are the minted ones. Building the reports changes no table.
\<close>

section \<open>Linking the nodes\<close>

text \<open>The nodes as they are before they are linked, and what linking a list of keys has done to them.\<close>

definition parent_in :: "(string, tree_node) dict \<Rightarrow> string \<Rightarrow> string option" where
  "parent_in nodes j = (case dget nodes j of None \<Rightarrow> None | Some n \<Rightarrow> parent_key nodes n)"

definition linked :: "(string, tree_node) dict \<Rightarrow> string list \<Rightarrow> string \<Rightarrow> tree_node option" where
  "linked nodes js j = map_option (\<lambda>n. n\<lparr>tn_children := tn_children n @ filter (\<lambda>i. parent_in nodes i = Some j) js\<rparr>) (dget nodes j)"

lemma linked_parent:
  assumes "\<And>j. dget nodes' j = linked nodes js j" and "dget nodes' j = Some n'" and "dget nodes j = Some n"
  shows "parent_key nodes' n' = parent_key nodes n"
proof -
  have "tn_parent_jti n' = tn_parent_jti n" using assms(2,3) unfolding assms(1) linked_def by auto
  moreover have "(dget nodes' k = None) = (dget nodes k = None)" for k by (simp add: assms(1) linked_def)
  ultimately show ?thesis by (simp add: parent_key_def split: option.splits)
qed

lemma link_one:
  assumes fr: "\<And>j. dget (fr_nodes fr) j = linked nodes js j" "fr_roots fr = filter (\<lambda>j. parent_in nodes j = None) js"
    and i: "i \<in> dom (dget nodes)"
  shows "(\<forall>j. dget (fr_nodes (link_node fr i)) j = linked nodes (js @ [i]) j)
    \<and> fr_roots (link_node fr i) = filter (\<lambda>j. parent_in nodes j = None) (js @ [i])"
proof -
  obtain n where n: "dget nodes i = Some n" using i by auto
  then obtain n' where n': "dget (fr_nodes fr) i = Some n'" using fr(1) by (auto simp: linked_def)
  have parent: "parent_key (fr_nodes fr) n' = parent_in nodes i"
    using linked_parent [OF fr(1) n' n] by (simp add: parent_in_def n)
  show ?thesis
  proof (cases "parent_in nodes i")
    case None
    then have "link_node fr i = fr\<lparr>fr_roots := fr_roots fr @ [i]\<rparr>" using n' parent by (simp add: link_node_def)
    then show ?thesis using fr None by (simp add: linked_def)
  next
    case (Some p)
    then obtain pn where pn: "dget nodes p = Some pn"
      by (auto simp: parent_in_def n parent_key_def split: option.splits if_splits)
    have p': "dget (fr_nodes fr) p = Some (pn\<lparr>tn_children := tn_children pn @ filter (\<lambda>i. parent_in nodes i = Some p) js\<rparr>)"
      using fr(1) pn by (simp add: linked_def)
    let ?kids = "tn_children pn @ filter (\<lambda>i. parent_in nodes i = Some p) js"
    have "link_node fr i = fr\<lparr>fr_nodes := dset p (pn\<lparr>tn_children := ?kids @ [i]\<rparr>) (fr_nodes fr)\<rparr>"
      using n' parent Some p' by (simp add: link_node_def)
    then show ?thesis using fr Some pn by (simp add: linked_def)
  qed
qed

lemma link_nodes:
  assumes "set js \<subseteq> dom (dget nodes)"
  shows "(\<forall>j. dget (fr_nodes (foldl link_node \<lparr>fr_nodes = nodes, fr_roots = []\<rparr> js)) j = linked nodes js j)
    \<and> fr_roots (foldl link_node \<lparr>fr_nodes = nodes, fr_roots = []\<rparr> js) = filter (\<lambda>j. parent_in nodes j = None) js"
  using assms
proof (induction js rule: rev_induct)
  case (snoc i js)
  then show ?case using link_one [of "foldl link_node \<lparr>fr_nodes = nodes, fr_roots = []\<rparr> js" nodes js i] by simp
qed (simp add: linked_def option.map_ident_strong)

section \<open>The forest of the tables\<close>

lemma fold_nodes:
  fixes ns :: "tree_node list"
  assumes "distinct (map tn_jti ns)"
  shows "fold (\<lambda>n. dset (tn_jti n) n) ns [] = map (\<lambda>n. (tn_jti n, n)) ns"
proof -
  have "fold (\<lambda>n. dset (tn_jti n) n) ns d = d @ map (\<lambda>n. (tn_jti n, n)) ns"
    if "distinct (map tn_jti ns)" "set (map fst d) \<inter> set (map tn_jti ns) = {}" for d and ns :: "tree_node list"
    using that
  proof (induction ns arbitrary: d)
    case (Cons n ns)
    then have "dget d (tn_jti n) = None" by (auto simp: map_of_eq_None_iff)
    then show ?case using Cons by (auto simp: dset_fresh)
  qed simp
  from this [OF assms, of "[]"] show ?thesis by simp
qed

text \<open>A parent-child link of the forest.\<close>

definition forest_edges :: "forest \<Rightarrow> (string \<times> string) set" where
  "forest_edges fr = {(p, c). \<exists>n. dget (fr_nodes fr) p = Some n \<and> c \<in> set (tn_children n)}"

lemma link_forest:
  assumes "distinct (map tn_jti ns)" and "\<And>n. n \<in> set ns \<Longrightarrow> tn_children n = []"
  defines "nodes \<equiv> map (\<lambda>n. (tn_jti n, n)) ns"
  shows "forest_edges (link_forest ns) = {(p, c). parent_in nodes c = Some p}"
    and "fr_roots (link_forest ns) = filter (\<lambda>j. parent_in nodes j = None) (map tn_jti ns)"
    and "dget (fr_nodes (link_forest ns)) j = linked nodes (map tn_jti ns) j"
proof -
  have js: "map fst nodes = map tn_jti ns" by (simp add: nodes_def)
  have dom: "set (map tn_jti ns) \<subseteq> dom (dget nodes)" unfolding js [symmetric] by (simp add: dom_map_of_conv_image_fst)
  have built: "link_forest ns = foldl link_node \<lparr>fr_nodes = nodes, fr_roots = []\<rparr> (map tn_jti ns)"
    unfolding link_forest_def Let_def fold_nodes [OF assms(1)] nodes_def [symmetric] js ..
  note facts = link_nodes [OF dom, folded built]
  show "fr_roots (link_forest ns) = filter (\<lambda>j. parent_in nodes j = None) (map tn_jti ns)"
    and get: "dget (fr_nodes (link_forest ns)) j = linked nodes (map tn_jti ns) j" for j
    using facts by auto
  have fresh: "tn_children n = []" if "dget nodes p = Some n" for n p
    using map_of_SomeD [OF that] assms(2) by (auto simp: nodes_def)
  have known: "c \<in> tn_jti ` set ns" if "parent_in nodes c = Some p" for c p
    using that by (auto simp: parent_in_def nodes_def dest!: map_of_SomeD split: option.splits)
  have parent: "dget nodes p \<noteq> None" if "parent_in nodes c = Some p" for c p
    using that by (auto simp: parent_in_def parent_key_def split: option.splits if_splits)
  have "(p, c) \<in> forest_edges (link_forest ns) \<longleftrightarrow> parent_in nodes c = Some p" for p c
    using fresh [of p] known [of c p] parent [of c p]
    by (cases "dget nodes p") (auto simp: forest_edges_def get linked_def)
  then show "forest_edges (link_forest ns) = {(p, c). parent_in nodes c = Some p}" by auto
qed

text \<open>On sound tables the links are the delegations and the roots the minted tokens.\<close>

lemma forest_of_tables:
  fixes t :: tables and f :: "token_metadata \<Rightarrow> tree_node"
  assumes snd: "sound t rows" and ids: "dget (tb_tokens t) '''' = None"
    and f: "\<And>m. tn_jti (f m) = tm_jti m \<and> tn_parent_jti (f m) = tm_parent_jti m \<and> tn_children (f m) = []"
  defines "fr \<equiv> link_forest (map f (sort_key tm_depth (map snd (tb_tokens t))))"
  shows "forest_edges fr = set (tb_edges t)"
    and "distinct (fr_roots fr)" and "set (fr_roots fr) = {j. \<exists>m. dget (tb_tokens t) j = Some m \<and> tm_parent_jti m = None}"
    and "map_option (\<lambda>n. n\<lparr>tn_children := []\<rparr>) (dget (fr_nodes fr) j) = map_option f (dget (tb_tokens t) j)"
proof -
  let ?ms = "sort_key tm_depth (map snd (tb_tokens t))"
  let ?nodes = "map (\<lambda>n. (tn_jti n, n)) (map f ?ms)"
  have inv: "lg_inv (tables_ledger t)" by (rule lg_invD [OF snd])
  have wf: "wf_dict (tb_tokens t)" using snd by (simp add: sound_def chains_ok_def)
  have keyed: "tm_jti m = j" if "(j, m) \<in> set (tb_tokens t)" for j m
    using lg_tokenD [OF inv, of j m] wf_dict_dget_iff [OF wf] that by simp
  then have keys: "map (tm_jti \<circ> snd) (tb_tokens t) = map fst (tb_tokens t)" by auto
  have dis: "distinct (map tn_jti (map f ?ms))"
  proof -
    have "distinct (map tm_jti (map snd (tb_tokens t)))" using wf unfolding wf_dict_def keys [symmetric] by simp
    then have "distinct (map snd (tb_tokens t)) \<and> inj_on tm_jti (set (map snd (tb_tokens t)))"
      by (simp only: distinct_map [of tm_jti])
    then have "distinct (map tm_jti ?ms)" by (simp only: distinct_map [of tm_jti] distinct_sort set_sort)
    then show ?thesis by (simp add: f comp_def)
  qed
  have get: "dget ?nodes k = map_option f (dget (tb_tokens t) k)" for k
  proof (cases "dget (tb_tokens t) k")
    case None
    then have "k \<notin> tm_jti ` snd ` set (tb_tokens t)" using keyed by (force simp: map_of_eq_None_iff)
    then have "dget ?nodes k = None" unfolding map_of_eq_None_iff by (fastforce simp: f)
    then show ?thesis using None by (simp del: map_map)
  next
    case (Some m)
    then have "(k, f m) \<in> set ?nodes" using keyed [OF map_of_SomeD] f by (force dest: map_of_SomeD)
    then show ?thesis using Some dis by (simp add: map_of_eq_Some_iff comp_def)
  qed
  have parent: "parent_in ?nodes c = Some p \<longleftrightarrow> (p, c) \<in> set (tb_edges t)" for p c
  proof (cases "dget (tb_tokens t) c")
    case None
    then show ?thesis using lg_fresh_no_edge [OF inv, of c p] by (simp add: parent_in_def get del: map_map)
  next
    case (Some m)
    show ?thesis
    proof (cases "tm_parent_jti m")
      case None
      then have "(p, c) \<notin> set (tb_edges t)" using lg_edgeD [OF inv, of p c] Some by (auto simp: narrower_def)
      then show ?thesis using Some None by (simp add: parent_in_def parent_key_def get f del: map_map)
    next
      case (Some q)
      have "(q, c) \<in> set (tb_edges t)"
        using lg_tokenD [OF inv, of c m] \<open>dget (tb_tokens t) c = Some m\<close> Some by (auto simp: is_root_meta_def)
      moreover from this have "dget (tb_tokens t) q \<noteq> None" using lg_edgeD [OF inv, of q c] by auto
      moreover have "p = q" if "(p, c) \<in> set (tb_edges t)"
        using lg_edgeD [OF inv, of p c] lg_tokenD [OF inv, of p] that Some \<open>dget (tb_tokens t) c = Some m\<close> by (auto simp: narrower_def)
      ultimately show ?thesis
        using Some \<open>dget (tb_tokens t) c = Some m\<close> ids by (auto simp: parent_in_def parent_key_def get f simp del: map_map)
    qed
  qed
  have none: "parent_in ?nodes c = None \<longleftrightarrow> tm_parent_jti m = None" if "dget (tb_tokens t) c = Some m" for c m
  proof -
    have "tm_parent_jti m \<noteq> None" if "(p, c) \<in> set (tb_edges t)" for p
      using lg_edgeD [OF inv, of p c] that \<open>dget (tb_tokens t) c = Some m\<close> by (auto simp: narrower_def)
    moreover have "\<exists>p. (p, c) \<in> set (tb_edges t)" if "tm_parent_jti m \<noteq> None"
      using lg_tokenD [OF inv, of c m] that \<open>dget (tb_tokens t) c = Some m\<close> by (auto simp: is_root_meta_def)
    moreover have "parent_in ?nodes c \<noteq> None \<longleftrightarrow> (\<exists>p. (p, c) \<in> set (tb_edges t))" by (simp only: not_None_eq parent)
    ultimately show ?thesis by blast
  qed
  have kids: "tn_children n = []" if "n \<in> set (map f ?ms)" for n using that f by auto
  have bare: "(f m)\<lparr>tn_children := []\<rparr> = f m" for m using f [of m] by (cases "f m") simp
  note links = link_forest [OF dis kids, folded fr_def]
  show "forest_edges fr = set (tb_edges t)" using links(1) parent by auto
  have roots: "fr_roots fr = filter (\<lambda>j. parent_in ?nodes j = None) (map tn_jti (map f ?ms))" using links(2) by auto
  show "distinct (fr_roots fr)" using dis unfolding roots by simp
  have "c \<in> set (map tn_jti (map f ?ms)) \<longleftrightarrow> dget (tb_tokens t) c \<noteq> None" for c
    using keyed f by (force simp: map_of_eq_None_iff)
  then show "set (fr_roots fr) = {j. \<exists>m. dget (tb_tokens t) j = Some m \<and> tm_parent_jti m = None}"
    unfolding roots using none by (auto simp del: map_map)
  show "map_option (\<lambda>n. n\<lparr>tn_children := []\<rparr>) (dget (fr_nodes fr) j) = map_option f (dget (tb_tokens t) j)"
    using links(3) bare by (cases "dget (tb_tokens t) j") (auto simp: linked_def get simp del: map_map)
qed

section \<open>The reports\<close>

lemma keeps_tree [keep_intro]: "keeps (inreq E w T) (tree_handler E r)"
  unfolding tree_handler_def svc_revoked_among_def labels_for_def by (auto intro!: keep_intro)

lemma keeps_snapshot [keep_intro]: "keeps (inreq E w T) (svc_rate_snapshot E)"
  unfolding svc_rate_snapshot_def by (auto intro!: keep_intro keeps_redis)

lemma keeps_health [keep_intro]: "keeps (inreq E w T) (health_handler E)"
  unfolding health_handler_def by (auto intro!: keep_intro)

text \<open>A report leaves the service as a run would: invariant, tables and log are those of before or further.\<close>

lemma reports_evolve:
  assumes "svc_inv E w"
  shows "evolves E w (final (get_tree E r) w)" and "evolves E w (final (get_approvals E s) w)" and "evolves E w (final (get_health E) w)"
    and "evolves E w (final (get_log E agent act decision limit offset) w)"
proof -
  have go: "evolves E w (final (bindP (on_session E Unhandled m) (\<lambda>a. ret (f a))) w)" if "\<And>w T. keeps (inreq E w T) m" for m :: "'a svc" and f :: "'a \<Rightarrow> 'b"
    using wp_then_ret [OF wp_session_kept [OF assms that], of Unhandled f] by (simp add: wp_final)
  show "evolves E w (final (get_tree E r) w)" unfolding get_tree_def by (rule go) (rule keep_intro)
  show "evolves E w (final (get_approvals E s) w)" unfolding get_approvals_def by (rule go) (rule keep_intro)
  show "evolves E w (final (get_health E) w)" unfolding get_health_def by (rule go) (rule keep_intro)
  have "evolves E w (final (bindP (on_session E Unhandled (getsP g)) (\<lambda>(a, b). ret (f a b))) w)" for g :: "service \<Rightarrow> 'a \<times> 'b" and f :: "'a \<Rightarrow> 'b \<Rightarrow> 'c"
    using go [of "getsP g" "\<lambda>(a, b). f a b"] by (simp add: split_def keep_intro)
  note page = this
  show "evolves E w (final (get_log E agent act decision limit offset) w)"
  proof (cases "limit < 1 \<or> 1000 < limit \<or> offset < 0")
    case True
    then show ?thesis using assms by (simp add: get_log_def final_def raise_def evolves_refl)
  next
    case False
    show ?thesis unfolding get_log_def if_not_P [OF False] by (rule page)
  qed
qed

lemma depth_rooted:
  assumes inv: "lg_inv l" and "lg_tokens l j = Some m"
  shows "\<exists>r rm. lg_tokens l r = Some rm \<and> tm_parent_jti rm = None \<and> (r, j) \<in> (lg_edges l)\<^sup>*"
  using assms(2)
proof (induction "nat (tm_depth m)" arbitrary: j m rule: less_induct)
  case less
  show ?case
  proof (cases "is_root_meta m")
    case True
    then show ?thesis using less.prems by (auto simp: is_root_meta_def)
  next
    case False
    then obtain p where p: "(p, j) \<in> lg_edges l" using lg_tokenD [OF inv less.prems] by blast
    then obtain pm where pm: "lg_tokens l p = Some pm" "narrower m pm" using lg_edgeD [OF inv p] less.prems by auto
    have "nat (tm_depth pm) < nat (tm_depth m)" using pm lg_tokenD [OF inv pm(1)] by (simp add: narrower_def)
    from less.hyps [OF this pm(1)] p show ?thesis by (meson rtrancl.rtrancl_into_rtrancl)
  qed
qed

lemma wp_get_tree:
  defines "ms \<equiv> \<lambda>w. sort_key tm_depth (map snd (tb_tokens (sv_db w)))"
  shows "wp (get_tree E None) (\<lambda>(n, fr) _. n = 200 \<and> (\<exists>R labels now. fr = link_forest (map (tree_node_of now R labels) (ms w))
      \<and> (\<forall>m \<in> set (ms w). tm_jti m \<in> R \<longleftrightarrow> tm_jti m \<in> revoked_in (sv_db w)))) (\<lambda>_ _. True) w"
proof -
  have "wp (svc_revoked_among (map tm_jti xs)) (\<lambda>R u. (\<forall>m \<in> set xs. tm_jti m \<in> R \<longleftrightarrow> tm_jti m \<in> revoked_in (sv_tx u)) \<and> u = t) (\<lambda>_ _. True) t"
    for xs t by (simp add: svc_revoked_among_def wp_simps)
  note revoked = this
  show ?thesis
    unfolding get_tree_def on_session_def tree_handler_def wp_bindP wp_catchP wp_session_scope wp_queryS wp_ret wp_raise
    by (rule wp_mono [OF revoked]) (auto simp: labels_for_def wp_simps begin_tx_def ms_def)
qed

text \<open>C16: the tree view shows the delegations there are. In every reachable state of the service \<open>GET /audit/tree\<close>
  returns exactly the tokens on record, each with its own data and its revocation; its parent-child links are
  exactly the recorded delegations, its roots exactly the tokens minted for people, none twice, and every
  token is found by following links from a root.\<close>

theorem tree_shows_the_delegations:
  assumes run: "service_run E st evs w" and ids: "dget (tb_tokens (sv_db w)) '''' = None"
    and tree: "get_tree E None w = (Inr (n, fr), t)"
  shows "forest_edges fr = set (tb_edges (sv_db w)) \<and> distinct (fr_roots fr)
    \<and> set (fr_roots fr) = {j. \<exists>m. dget (tb_tokens (sv_db w)) j = Some m \<and> tm_parent_jti m = None}
    \<and> (case dget (fr_nodes fr) j of None \<Rightarrow> dget (tb_tokens (sv_db w)) j = None
       | Some nd \<Rightarrow> \<exists>m r. dget (tb_tokens (sv_db w)) j = Some m \<and> tn_jti nd = j \<and> tn_scopes nd = tm_scopes m
           \<and> tn_expires_at nd = tm_expires_at m \<and> tn_revoked nd = (j \<in> revoked_in (sv_db w))
           \<and> r \<in> set (fr_roots fr) \<and> (r, j) \<in> (forest_edges fr)\<^sup>*)"
proof -
  let ?db = "sv_db w" let ?ms = "sort_key tm_depth (map snd (tb_tokens ?db))"
  have snd: "sound ?db (sv_audit w)" using svc_run_inv [OF run] by (simp add: svc_inv_def)
  obtain R labels now where fr: "fr = link_forest (map (tree_node_of now R labels) ?ms)"
    and R: "\<And>m. m \<in> set ?ms \<Longrightarrow> tm_jti m \<in> R \<longleftrightarrow> tm_jti m \<in> revoked_in ?db"
    using wp_get_tree [of E w] tree by (auto simp: wp_def)
  let ?f = "tree_node_of now R labels"
  have f: "tn_jti (?f m) = tm_jti m \<and> tn_parent_jti (?f m) = tm_parent_jti m \<and> tn_children (?f m) = []" for m
    by (simp add: tree_node_of_def)
  note facts = forest_of_tables [OF snd ids f, folded fr]
  have nodes: "case dget (fr_nodes fr) j of None \<Rightarrow> dget (tb_tokens ?db) j = None
       | Some nd \<Rightarrow> \<exists>m r. dget (tb_tokens ?db) j = Some m \<and> tn_jti nd = j \<and> tn_scopes nd = tm_scopes m
           \<and> tn_expires_at nd = tm_expires_at m \<and> tn_revoked nd = (j \<in> revoked_in ?db)
           \<and> r \<in> set (fr_roots fr) \<and> (r, j) \<in> (forest_edges fr)\<^sup>*"
  proof (cases "dget (fr_nodes fr) j")
    case None
    then show ?thesis using facts(4) [of j] by simp
  next
    case (Some nd)
    then obtain m where m: "dget (tb_tokens ?db) j = Some m" "nd\<lparr>tn_children := []\<rparr> = ?f m"
      using facts(4) [of j] by (cases "dget (tb_tokens ?db) j") auto
    have inv: "lg_inv (tables_ledger ?db)" by (rule lg_invD [OF snd])
    have jti: "tm_jti m = j" using lg_tokenD [OF inv, of j m] m(1) by simp
    have "m \<in> set ?ms" using map_of_SomeD [OF m(1)] by force
    then have data: "tn_jti nd = j \<and> tn_scopes nd = tm_scopes m \<and> tn_expires_at nd = tm_expires_at m \<and> tn_revoked nd = (j \<in> revoked_in ?db)"
      using R [of m] jti m(2) by (cases nd) (auto simp: tree_node_of_def)
    obtain r where "r \<in> set (fr_roots fr)" "(r, j) \<in> (forest_edges fr)\<^sup>*"
      using depth_rooted [OF inv, of j m] m(1) unfolding facts(1) facts(3) by auto
    then show ?thesis using Some m(1) data by auto
  qed
  show ?thesis by (rule conjI [OF facts(1) conjI [OF facts(2) conjI [OF facts(3) nodes]]])
qed

theorem tree_shows_the_delegations_witness:
  "\<exists>fr t. get_tree (live_env root_c) None minted_w = (Inr (200, fr), t) \<and> set (fr_roots fr) = {''uuu''}"
proof -
  have "wp (get_tree (live_env root_c) None) (\<lambda>(n, _) _. n = 200) (\<lambda>_ _. False) minted_w"
    by (simp add: get_tree_def on_session_def tree_handler_def svc_revoked_among_def labels_for_def wp_simps)
  then obtain fr t where tree: "get_tree (live_env root_c) None minted_w = (Inr (200, fr), t)"
    by (auto simp: wp_def split: prod.splits sum.splits)
  have "dget (tb_tokens (sv_db minted_w)) '''' = None" using minted_facts by simp
  from tree_shows_the_delegations [OF minted_run this tree] tree show ?thesis using minted_facts by auto
qed

end
