(* ===== verification/Adf_Service.thy ===== *)
theory Adf_Service
  imports Adf_Client Service_Forest
begin

text \<open>
  The adapter talking to the service: the paths and bodies of \<open>main.py\<close> and the routers, FastAPI's rendering
  of results and exceptions, and a network that may lose a request or an answer. Request bodies are read as
  pydantic reads the shapes the client sends (strings, lists of strings, integers; other shapes are 422).
  An id in a URL is taken as it stands, which is what happens to the characters that need no quoting; the
  service's own ids have no others. The latency of a revocation is in microseconds, the floats of
  \<open>GET /health\<close> are left out.
\<close>

section \<open>Reading a request\<close>

definition only_keys :: "string list \<Rightarrow> (string, json) dict \<Rightarrow> bool" where
  "only_keys ks kvs \<longleftrightarrow> list_all (\<lambda>kv. fst kv \<in> set ks) kvs"

definition str_field :: "(string, json) dict \<Rightarrow> string \<Rightarrow> string option" where
  "str_field kvs k = (case dget kvs k of Some (JStr s) \<Rightarrow> Some s | _ \<Rightarrow> None)"

definition strs_field :: "(string, json) dict \<Rightarrow> string \<Rightarrow> string list option" where
  "strs_field kvs k = (case dget kvs k of Some (JList xs) \<Rightarrow> those (map (\<lambda>x. case x of JStr s \<Rightarrow> Some s | _ \<Rightarrow> None) xs) | _ \<Rightarrow> None)"

definition int_field :: "int \<Rightarrow> (string, json) dict \<Rightarrow> string \<Rightarrow> int option" where
  "int_field dflt kvs k = (case dget kvs k of None \<Rightarrow> Some dflt | Some (JInt i) \<Rightarrow> Some i | _ \<Rightarrow> None)"

definition opt_int_field :: "(string, json) dict \<Rightarrow> string \<Rightarrow> int option option" where
  "opt_int_field kvs k = (case dget kvs k of None \<Rightarrow> Some None | Some JNull \<Rightarrow> Some None | Some (JInt i) \<Rightarrow> Some (Some i) | _ \<Rightarrow> None)"

definition opt_str_field :: "(string, json) dict \<Rightarrow> string \<Rightarrow> string option option" where
  "opt_str_field kvs k = (case dget kvs k of None \<Rightarrow> Some None | Some JNull \<Rightarrow> Some None | Some (JStr s) \<Rightarrow> Some (Some s) | _ \<Rightarrow> None)"

text \<open>The body of each \<open>POST\<close>, with the header its dependencies read.\<close>

definition root_body :: "string option \<Rightarrow> (string, json) dict \<Rightarrow> request option" where
  "root_body key kvs = (if \<not> only_keys [''human_id'', ''scopes'', ''ttl_seconds'', ''max_depth''] kvs then None
     else case (str_field kvs ''human_id'', strs_field kvs ''scopes'', int_field 3600 kvs ''ttl_seconds'', opt_int_field kvs ''max_depth'') of
       (Some human_id, Some scopes, Some ttl, Some max_depth) \<Rightarrow> Some (PostRoot key human_id scopes ttl max_depth)
     | _ \<Rightarrow> None)"

definition delegate_body :: "string option \<Rightarrow> (string, json) dict \<Rightarrow> request option" where
  "delegate_body auth kvs = (if \<not> only_keys [''child_agent_id'', ''requested_scopes'', ''ttl_seconds''] kvs then None
     else case (str_field kvs ''child_agent_id'', strs_field kvs ''requested_scopes'', int_field 600 kvs ''ttl_seconds'') of
       (Some child, Some scopes, Some ttl) \<Rightarrow> Some (PostDelegate auth child scopes ttl)
     | _ \<Rightarrow> None)"

definition verify_body :: "(string, json) dict \<Rightarrow> request option" where
  "verify_body kvs = (if \<not> only_keys [''token'', ''required_scope''] kvs then None
     else case (str_field kvs ''token'', str_field kvs ''required_scope'') of
       (Some tok, Some scope) \<Rightarrow> Some (PostVerify tok scope)
     | _ \<Rightarrow> None)"

definition revoke_body :: "string option \<Rightarrow> (string, json) dict \<Rightarrow> request option" where
  "revoke_body key kvs = (if \<not> only_keys [''jti'', ''reason''] kvs then None
     else case (str_field kvs ''jti'', opt_str_field kvs ''reason'') of
       (Some jti, Some reason) \<Rightarrow> Some (PostRevoke key jti reason)
     | _ \<Rightarrow> None)"

text \<open>\<open>decision\<close> may be absent or null, \<open>approver_id\<close> has a default and may not be null.\<close>

definition decision_body :: "(string \<Rightarrow> string option \<Rightarrow> string \<Rightarrow> request) \<Rightarrow> (string, json) dict \<Rightarrow> request option" where
  "decision_body mk kvs = (if \<not> only_keys [''approval_id'', ''decision'', ''approver_id''] kvs then None
     else case (str_field kvs ''approval_id'', opt_str_field kvs ''decision'',
         case dget kvs ''approver_id'' of None \<Rightarrow> Some ''human:admin'' | _ \<Rightarrow> str_field kvs ''approver_id'') of
       (Some i, Some decision, Some who) \<Rightarrow> Some (mk i decision who)
     | _ \<Rightarrow> None)"

section \<open>The application\<close>

definition API_PREFIX :: string where
  "API_PREFIX = ''/api/v1''"

definition not_found :: reply where
  "not_found = \<lparr>rp_status = 404, rp_body = Some (JObj [(''detail'', JStr ''Not Found'')])\<rparr>"

definition post_routes :: "string \<Rightarrow> (string \<times> string) list \<Rightarrow> (string, json) dict \<Rightarrow> request option option" where
  "post_routes path hs kvs = (let key = dget hs ''X-Admin-Key''; auth = dget hs ''Authorization'' in
     if path = API_PREFIX @ ''/tokens/root'' then Some (root_body key kvs)
     else if path = API_PREFIX @ ''/tokens/delegate'' then Some (delegate_body auth kvs)
     else if path = API_PREFIX @ ''/tokens/verify'' then Some (verify_body kvs)
     else if path = API_PREFIX @ ''/tokens/revoke'' then Some (revoke_body key kvs)
     else if path = API_PREFIX @ ''/tokens/approve'' then Some (decision_body (PostApprove key) kvs)
     else if path = API_PREFIX @ ''/tokens/deny'' then Some (decision_body (PostDeny key) kvs)
     else None)"

text \<open>FastAPI's rendering: an exception no route turned into an \<open>HTTPException\<close> is a 500 in plain text.\<close>

fun render :: "http_error + http \<Rightarrow> reply" where
  "render (Inr (n, body)) = \<lparr>rp_status = n, rp_body = Some body\<rparr>"
| "render (Inl (HTTPException n detail)) = \<lparr>rp_status = n, rp_body = Some (JObj [(''detail'', detail)])\<rparr>"
| "render (Inl (Unhandled _)) = \<lparr>rp_status = 500, rp_body = None\<rparr>"

definition answer :: "http route \<Rightarrow> service \<Rightarrow> reply \<times> service" where
  "answer m w = (case m w of (r, t) \<Rightarrow> (render r, t))"

definition app_post :: "svc_env \<Rightarrow> string \<Rightarrow> (string \<times> string) list \<Rightarrow> json \<Rightarrow> service \<Rightarrow> reply \<times> service" where
  "app_post E path hs body w = (case body of
     JObj kvs \<Rightarrow> (case post_routes path hs kvs of
         None \<Rightarrow> (not_found, w)
       | Some None \<Rightarrow> answer unprocessable w
       | Some (Some r) \<Rightarrow> answer (serve E r) w)
   | _ \<Rightarrow> answer unprocessable w)"

definition plain_id :: "string \<Rightarrow> bool" where
  "plain_id s \<longleftrightarrow> s \<noteq> '''' \<and> list_all (\<lambda>c. c \<noteq> CHR ''/'' \<and> c \<noteq> CHR ''?'' \<and> c \<noteq> CHR 0x23 \<and> c \<noteq> CHR 0x25) s"

text \<open>\<open>/health\<close> is mounted with and without the prefix.\<close>

definition app_get :: "svc_env \<Rightarrow> string \<Rightarrow> (string \<times> string) list \<Rightarrow> service \<Rightarrow> reply \<times> service" where
  "app_get E path hs w = (let pending = API_PREFIX @ ''/tokens/pending/''; chain = API_PREFIX @ ''/audit/chain/'' in
     if path = ''/health'' \<or> path = API_PREFIX @ ''/health'' then
       answer (bindP (get_health E) (\<lambda>(n, h). ret (n, health_json h))) w
     else if prefix pending path \<and> plain_id (drop (length pending) path) then
       answer (serve E (GetPending (drop (length pending) path))) w
     else if prefix chain path \<and> plain_id (drop (length chain) path) then
       answer (serve E (GetChain (drop (length chain) path))) w
     else if path = API_PREFIX @ ''/audit/verify_integrity'' then answer (serve E GetIntegrity) w
     else if path = API_PREFIX @ ''/audit/approvals'' then answer (get_approvals E None) w
     else if path = API_PREFIX @ ''/admin/subjects'' then answer (serve E (GetSubjects (dget hs ''X-Admin-Key''))) w
     else (not_found, w))"

section \<open>The network\<close>

datatype delivery = Answered | RequestLost | AnswerLost

fun deliver :: "delivery \<Rightarrow> reply \<times> service \<Rightarrow> service \<Rightarrow> reply option \<times> service" where
  "deliver Answered (r, t) w = (Some r, t)"
| "deliver RequestLost _ w = (None, w)"
| "deliver AnswerLost (r, t) w = (None, t)"

text \<open>The service behind a base URL; a call is one tick, and any other host is out of reach.\<close>

definition service_at :: "svc_env \<Rightarrow> (nat \<Rightarrow> delivery) \<Rightarrow> string \<Rightarrow> service transport" where
  "service_at E net base = \<lparr>
     tr_post = (\<lambda>url hs body w. if prefix base url
       then deliver (net (sv_tick w)) (app_post E (drop (length base) url) hs body (tickS w)) (tickS w) else (None, tickS w)),
     tr_get = (\<lambda>url hs w. if prefix base url
       then deliver (net (sv_tick w)) (app_get E (drop (length base) url) hs (tickS w)) (tickS w) else (None, tickS w))\<rparr>"

definition client_of :: "svc_env \<Rightarrow> (nat \<Rightarrow> delivery) \<Rightarrow> string \<Rightarrow> string option \<Rightarrow> service adf_client" where
  "client_of E net url key = (let base = rev (dropWhile (\<lambda>c. c = CHR ''/'') (rev url)) in new_client url key (service_at E net base))"

section \<open>The service is what the guard relies on\<close>

definition verifies :: "svc_env \<Rightarrow> string \<Rightarrow> string \<Rightarrow> service \<Rightarrow> bool" where
  "verifies E tok scope w \<longleftrightarrow> \<not> br_open (sv_breaker w) \<and> (\<exists>c. good_token E w tok scope c)"

lemma verifies_tick: "verifies E tok scope (tickS w) \<Longrightarrow> verifies E tok scope w"
  unfolding verifies_def good_token_def by (metis Suc_leD tickS_simps)

lemma svc_inv_tick [simp]: "svc_inv E (tickS w) = svc_inv E w" "evolves E (tickS w) = evolves E w"
  by (auto simp: svc_inv_def evolves_def)

text \<open>The call the client makes to verify, down to the route.\<close>

lemma verify_call:
  "tr_post (service_at E net base) ((base @ API_PREFIX) @ ''/tokens/verify'') [] (JObj [(''token'', t), (''required_scope'', JStr s)]) w
    = deliver (net (sv_tick w)) (answer (case t of JStr tok \<Rightarrow> post_verify E tok s | _ \<Rightarrow> unprocessable) (tickS w)) (tickS w)"
  by (simp add: service_at_def app_post_def post_routes_def API_PREFIX_def verify_body_def only_keys_def str_field_def split: json.splits)

lemma verify_body_valid:
  assumes "render r = \<lparr>rp_status = n, rp_body = Some (JObj kvs)\<rparr>" and "dget kvs ''valid'' = Some v" and "py_bool v"
    and "result (post_verify E tok s) w = r"
  shows "\<exists>body. result (post_verify E tok s) w = Inr (200, body)"
proof -
  have "wp (post_verify E tok s) (\<lambda>r _. \<exists>o1. r = verify_response o1) (\<lambda>_ _. True) w"
    unfolding post_verify_def by (simp add: wp_simps) (intro impI wp_mono [OF wp_trivial]; blast)
  then show ?thesis using assms
    by (cases r rule: render.cases)
      (auto simp: wp_def result_def verify_response_def split: prod.splits sum.splits if_splits option.splits)
qed

lemma verify_evolves:
  assumes inv: "svc_inv E w"
  shows "evolves E w (final (post_verify E tok s) w)"
proof -
  have "wp (post_verify E tok s) (\<lambda>_. evolves E w) (\<lambda>_. evolves E w) w"
    unfolding post_verify_def wp_if wp_raise using inv
    by (auto intro!: wp_then_ret wp_session_kept keep_intro simp: evolves_refl)
  then show ?thesis unfolding wp_final by simp
qed

interpretation adf: checkpoint_api "service_at E net base" "base @ API_PREFIX" "evolves E w0" "verifies E"
  for E net base w0
proof unfold_locales
  fix w t s r w'
  assume inv: "evolves E w0 w" and call: "tr_post (service_at E net base) ((base @ API_PREFIX) @ ''/tokens/verify'') []
    (JObj [(''token'', t), (''required_scope'', JStr s)]) w = (r, w')"
  then have "svc_inv E w" by (simp add: evolves_def)
  then have "evolves E w (final (case t of JStr tok \<Rightarrow> post_verify E tok s | _ \<Rightarrow> unprocessable) (tickS w))"
    using verify_evolves [of E "tickS w"] evolves_refl [of E w] by (auto simp: final_def raise_def split: json.splits)
  from evolves_trans [OF inv this] show "evolves E w0 w'" using call inv unfolding verify_call
    by (cases "net (sv_tick w)") (auto simp: answer_def final_def split: prod.splits)
next
  fix w t s n kvs w' v
  assume inv: "evolves E w0 w" and call: "tr_post (service_at E net base) ((base @ API_PREFIX) @ ''/tokens/verify'') []
      (JObj [(''token'', t), (''required_scope'', JStr s)]) w = (Some \<lparr>rp_status = n, rp_body = Some (JObj kvs)\<rparr>, w')"
    and v: "dget kvs ''valid'' = Some v" "py_bool v"
  obtain x u where run: "(case t of JStr tok \<Rightarrow> post_verify E tok s | _ \<Rightarrow> unprocessable) (tickS w) = (x, u)" by fastforce
  with call have rendered: "render x = \<lparr>rp_status = n, rp_body = Some (JObj kvs)\<rparr>" unfolding verify_call
    by (cases "net (sv_tick w)") (auto simp: answer_def)
  show "\<exists>tok. t = JStr tok \<and> verifies E tok s w"
  proof (cases "\<exists>tok. t = JStr tok")
    case True
    then obtain tok where tok: "t = JStr tok" ..
    then have "result (post_verify E tok s) (tickS w) = x" using run by (simp add: result_def)
    from verify_body_valid [OF rendered v this] obtain body where "result (post_verify E tok s) (tickS w) = Inr (200, body)" ..
    then have "verifies E tok s (tickS w)" unfolding verifies_def by (rule verify_200 [rotated]) (use inv in \<open>simp add: evolves_def\<close>)
    then show ?thesis using tok verifies_tick by blast
  next
    case False
    then have "x = Inl (HTTPException 422 JNull)" using run by (auto simp: raise_def split: json.splits)
    then show ?thesis using rendered v by auto
  qed
qed

section \<open>Properties\<close>

lemma client_sel [simp]:
  "cl_transport (client_of E net url key) = service_at E net (cl_base_url (client_of E net url key))"
  "cl_api (client_of E net url key) = cl_base_url (client_of E net url key) @ API_PREFIX"
  by (simp_all add: client_of_def new_client_def Let_def API_PREFIX_def)

text \<open>C12: a denied node has no effects. In every reachable state of the service, behind a network that loses
  any requests and answers: if the graph state holds no token that the service would verify for the scope
  (missing, not a string, forged, expired, revoked, without the scope, or the breaker open), the guarded
  node ends in an exception, the same whatever the node is: its body has not run, and what the service
  holds has at most grown.\<close>

theorem guarded_node_never_runs:
  assumes "service_run E st evs w"
    and "\<nexists>tok. state_get state ADF_TOKEN_KEY = JStr tok \<and> verifies E tok scope w"
  shows "\<exists>x t. (\<forall>node_fn. adf_require_scope (client_of E net url key) scope node_name node_fn state w = (Inl x, t)) \<and> evolves E w t"
  by (rule adf.guard_refuses [OF evolves_refl [OF svc_run_inv [OF assms(1)]] client_sel assms(2)])

end
