(* ===== verification/Adf_Delegation.thy ===== *)
theory Adf_Delegation
  imports Adf_Service
begin

text \<open>
  Delegation through the adapter: what reaches the graph state is a token the service recorded under the
  caller's own; and two things the adapter gets wrong, the depth of an approved token and the exception of
  an unreachable service.
\<close>

section \<open>What \<open>POST /delegate\<close> answers\<close>

lemma those_strs [simp]: "those (map ((\<lambda>x. case x of JStr s \<Rightarrow> Some s | _ \<Rightarrow> None) \<circ> JStr) xs) = Some xs"
  by (induction xs) simp_all

lemma bearer_header:
  "bearer_token (Some (''Bearer '' @ s)) = (if strip s = '''' then raise (HTTPException 401 (JStr ''empty bearer token'')) else ret (strip s))"
proof -
  have "map lower_char ''Bearer '' = ''bearer ''" by code_simp
  then have "prefix ''bearer '' (map lower_char (''Bearer '' @ s))"
    unfolding map_append by (simp only: prefix_def) blast
  moreover have "drop 1 (dropWhile (\<lambda>c. c \<noteq> CHR '' '') (''Bearer '' @ s)) = s" by simp
  ultimately show ?thesis by (simp only: bearer_token_def option.case Let_def if_False not_True_eq_False)
qed

text \<open>The answer is that of a granted delegation of the presented token, and it is committed.\<close>

definition answers_delegation :: "svc_env \<Rightarrow> service \<Rightarrow> string \<Rightarrow> string list \<Rightarrow> delegate_result \<Rightarrow> tables \<Rightarrow> bool" where
  "answers_delegation E w tok scopes r T \<longleftrightarrow> (\<exists>now parent. svc_decode E (sv_settings w) now tok False = Inr parent
     \<and> live_parent (sv_db w) parent \<and> delegated_under E (sv_settings w) parent scopes r T)"

definition refused :: "http_error \<Rightarrow> bool" where
  "refused x \<longleftrightarrow> (case x of HTTPException n _ \<Rightarrow> 400 \<le> n | _ \<Rightarrow> True)"

lemma delegate_error_refused [simp]: "refused (delegate_error x)" "refused (not_found_error x)" "refused (Unhandled x)"
  by (cases x; simp add: refused_def)+

lemma wp_post_delegate:
  assumes inv: "svc_inv E w" and hon: "svc_honest E w (strip s)"
  shows "wp (post_delegate E (Some (''Bearer '' @ s)) child scopes ttl)
     (\<lambda>a t. \<exists>scopes' r. normalise_scopes scopes = Some scopes' \<and> a = delegate_response r \<and> answers_delegation E w (strip s) scopes' r (sv_db t))
     (\<lambda>x _. refused x) w"
proof (cases "strip s = '''' \<or> DelegateRequest child scopes ttl = None")
  case True
  then show ?thesis unfolding post_delegate_def wp_bindP [of "bearer_token _"] bearer_header
    by (auto simp: wp_simps refused_def)
next
  case False
  then obtain scopes' where req: "DelegateRequest child scopes ttl = Some scopes'" by auto
  have norm: "normalise_scopes scopes = Some scopes'" using req by (simp add: DelegateRequest_def split: if_splits)
  have snd: "sound (sv_db w) (sv_audit w)" using inv by (simp add: svc_inv_def)
  show ?thesis using False unfolding post_delegate_def wp_bindP [of "bearer_token _"] bearer_header
    by (simp add: wp_simps req norm on_session_def)
      (rule wp_mono [OF wp_svc_delegate [OF begin_inreq [OF inv] snd hon]], auto simp: answers_delegation_def commit_tx_def refused_def)
qed

section \<open>What reaches the client\<close>

definition delegated_of :: "minted_token \<Rightarrow> delegated_token" where
  "delegated_of m = \<lparr>dt_token = JStr (mt_token m), dt_jti = JStr (mt_jti m), dt_scopes = map JStr (c_scopes (mt_claims m)),
     dt_depth = JInt (c_depth (mt_claims m)), dt_expires_at = JStr (expires_at_iso m),
     dt_approval_required = JBool (c_approval_required (mt_claims m)), dt_approved_by = json_of_opt (c_approved_by (mt_claims m))\<rparr>"

lemma delegate_call:
  "tr_post (service_at E net base) ((base @ API_PREFIX) @ ''/tokens/delegate'') [(''Authorization'', auth)]
      (JObj [(''child_agent_id'', JStr child), (''requested_scopes'', json_strs scopes), (''ttl_seconds'', JInt ttl)]) w
    = deliver (net (sv_tick w)) (answer (post_delegate E (Some auth) child scopes ttl) (tickS w)) (tickS w)"
  by (simp add: service_at_def app_post_def post_routes_def API_PREFIX_def delegate_body_def only_keys_def str_field_def
      strs_field_def int_field_def json_strs_def)

lemma read_delegated_rendered:
  assumes r: "r = render x" and ok: "\<And>a. x = Inr a \<Longrightarrow> \<exists>q. a = delegate_response q" and err: "\<And>n d. x = Inl (HTTPException n d) \<Longrightarrow> 400 \<le> n"
  shows "wp (if rp_status r = 202 then bindP (body_json r) (\<lambda>body. bindP (read_parked body) (\<lambda>p. ret (ClParked p)))
     else if rp_status r = 201 then bindP (body_json r) (\<lambda>body. bindP (read_delegated body) (\<lambda>d. ret (ClDelegated d)))
     else raise_for_denial r) (\<lambda>a v. v = w \<and> (case a of ClDelegated d \<Rightarrow> \<exists>m. x = Inr (delegate_response (Minted m)) \<and> d = delegated_of m | _ \<Rightarrow> True))
     (\<lambda>_ _. True) w"
proof -
  have denied: "wp (raise_for_denial r) Q (\<lambda>_ _. True) w" for Q :: "delegate_reply \<Rightarrow> _"
    by (auto simp: raise_for_denial_def wp_simps Let_def split: option.splits json.splits)
  show ?thesis
  proof (cases x rule: render.cases)
    case (1 n body)
    then obtain q where q: "(n, body) = delegate_response q" using ok by blast
    show ?thesis
    proof (cases q)
      case (Minted m)
      then show ?thesis using 1 q r
        by (auto simp: delegate_response_def body_json_def read_delegated_def py_index_def py_get_def py_list_def json_strs_def
            delegated_of_def wp_simps)
    next
      case (PendingApprovalCreated p)
      then show ?thesis using 1 q r
        by (auto simp: delegate_response_def body_json_def read_parked_def py_index_def py_get_def py_list_def json_strs_def wp_simps)
    qed
  next
    case (2 n d)
    then show ?thesis using r err denied by (auto simp: wp_simps)
  next
    case (3 y)
    then show ?thesis using r denied by (auto simp: wp_simps)
  qed
qed

lemma response_determines:
  "delegate_response (Minted m) = delegate_response r \<Longrightarrow> \<exists>m'. r = Minted m' \<and> delegated_of m = delegated_of m'"
  by (cases r) (auto simp: delegate_response_def delegated_of_def json_strs_def)

lemma wp_cl_delegate:
  assumes inv: "svc_inv E w" and hon: "svc_honest E w (strip (py_str tok))"
  shows "wp (cl_delegate (client_of E net url key) tok child scopes ttl)
     (\<lambda>a t. case a of ClDelegated d \<Rightarrow> \<exists>m scopes'. normalise_scopes scopes = Some scopes' \<and> d = delegated_of m
         \<and> answers_delegation E w (strip (py_str tok)) scopes' (Minted m) (sv_db t) | ClParked _ \<Rightarrow> True) (\<lambda>_ _. True) w"
proof -
  let ?tok = "strip (py_str tok)" and ?post = "post_delegate E (Some (''Bearer '' @ py_str tok)) child scopes ttl"
  obtain x u where run: "?post (tickS w) = (x, u)" by fastforce
  have "svc_honest E (tickS w) ?tok" using hon by (simp add: svc_honest_def)
  from wp_post_delegate [OF _ this, of child scopes ttl] inv run
  have post: "case x of Inr a \<Rightarrow> \<exists>scopes' r. normalise_scopes scopes = Some scopes' \<and> a = delegate_response r
      \<and> answers_delegation E w ?tok scopes' r (sv_db u) | Inl y \<Rightarrow> refused y"
    by (cases x) (auto simp: wp_def answers_delegation_def)
  have fetched: "case a of ClDelegated d \<Rightarrow> \<exists>m scopes'. normalise_scopes scopes = Some scopes' \<and> d = delegated_of m
      \<and> answers_delegation E w ?tok scopes' (Minted m) (sv_db u) | ClParked _ \<Rightarrow> True"
    if a: "case a of ClDelegated d \<Rightarrow> \<exists>m. x = Inr (delegate_response (Minted m)) \<and> d = delegated_of m | _ \<Rightarrow> True" for a
  proof (cases a)
    case (ClDelegated d)
    then obtain m where m: "x = Inr (delegate_response (Minted m))" "d = delegated_of m" using a by auto
    with post response_determines show ?thesis unfolding ClDelegated by fastforce
  qed simp
  have read: "wp (if rp_status (render x) = 202
      then bindP (body_json (render x)) (\<lambda>body. bindP (read_parked body) (\<lambda>p. ret (ClParked p)))
      else if rp_status (render x) = 201 then bindP (body_json (render x)) (\<lambda>body. bindP (read_delegated body) (\<lambda>d. ret (ClDelegated d)))
      else raise_for_denial (render x)) (\<lambda>a t. case a of ClDelegated d \<Rightarrow> \<exists>m scopes'. normalise_scopes scopes = Some scopes'
       \<and> d = delegated_of m \<and> answers_delegation E w ?tok scopes' (Minted m) (sv_db t) | ClParked _ \<Rightarrow> True) (\<lambda>_ _. True) u"
    by (rule wp_mono [OF read_delegated_rendered [OF refl]]) (use post fetched in \<open>auto simp: refused_def\<close>)
  show ?thesis
    unfolding cl_delegate_def client_sel wp_bindP [of "sendA _ _"] wp_sendA delegate_call answer_def run prod.case
    by (cases "net (sv_tick w)") (simp_all only: deliver.simps prod.case option.case read)
qed

text \<open>C13: delegation end to end. In every reachable state of the service, behind any network, when \<open>delegate_for_node\<close>
  returns a graph state, that is the caller's with exactly the four entries of a capability the service has
  committed: the token entry is the service's own signature of the claims on record, issued under the
  unrevoked token the caller presented, with the normalised requested scopes, which the parent holds, no
  later expiry, one level deeper within the same depth limit, the same root, and the parent appended to
  its chain; the scopes and depth entries are those of these claims.\<close>

theorem delegated_state_is_narrower:
  assumes "service_run E st evs w" and "svc_honest E w (strip (py_str (state_get state ADF_TOKEN_KEY)))"
    and "adf_delegate_for_node (client_of E net url key) state child scopes ttl w = (Inr state', t)"
  shows "\<exists>m scopes' now parent. state' = dset ''adf_depth'' (JInt (c_depth (mt_claims m))) (dset ''adf_scopes'' (json_strs (c_scopes (mt_claims m)))
      (dset ADF_AGENT_KEY (JStr child) (dset ADF_TOKEN_KEY (JStr (mt_token m)) state)))
    \<and> normalise_scopes scopes = Some scopes'
    \<and> svc_decode E (sv_settings w) now (strip (py_str (state_get state ADF_TOKEN_KEY))) False = Inr parent
    \<and> live_parent (sv_db w) parent \<and> minted_under E (sv_settings w) parent scopes' m (sv_db t)"
proof -
  have "wp (adf_delegate_for_node (client_of E net url key) state child scopes ttl) (\<lambda>s t. \<exists>m scopes'. s = adf_state_with state child (delegated_of m)
      \<and> normalise_scopes scopes = Some scopes'
      \<and> answers_delegation E w (strip (py_str (state_get state ADF_TOKEN_KEY))) scopes' (Minted m) (sv_db t)) (\<lambda>_ _. True) w"
  proof (cases "py_bool (state_get state ADF_TOKEN_KEY)")
    case True
    then have present: "\<not> \<not> py_bool (state_get state ADF_TOKEN_KEY)" by simp
    show ?thesis unfolding adf_delegate_for_node_def Let_def if_not_P [OF present] wp_bindP
      by (rule wp_mono [OF wp_cl_delegate [OF svc_run_inv [OF assms(1)] assms(2)]]) (auto simp: wp_simps split: delegate_reply.splits)
  qed (simp add: adf_delegate_for_node_def wp_simps)
  then show ?thesis using assms(3) by (auto simp: wp_def answers_delegation_def delegated_under_def adf_state_with_def delegated_of_def json_strs_def)
qed

section \<open>Revocation reaches the graph\<close>

lemma post_delegate_refusals: "wp (post_delegate E auth child scopes ttl) (\<lambda>_ _. True) (\<lambda>x _. refused x) w"
  unfolding post_delegate_def bearer_token_def on_session_def
  by (cases auth) (auto simp: wp_simps refused_def [of "HTTPException _ _"] intro!: wp_mono [OF wp_trivial] split: option.splits)

lemma refused_delegation:
  assumes "result (post_delegate E (Some (''Bearer '' @ py_str tok)) child scopes ttl) (tickS w) = Inl y"
  shows "\<exists>x t. cl_delegate (client_of E net url key) tok child scopes ttl w = (Inl x, t)"
proof -
  obtain u where run: "post_delegate E (Some (''Bearer '' @ py_str tok)) child scopes ttl (tickS w) = (Inl y, u)"
    using assms by (cases "post_delegate E (Some (''Bearer '' @ py_str tok)) child scopes ttl (tickS w)") (simp add: result_def)
  have "refused y" using post_delegate_refusals [of E "Some (''Bearer '' @ py_str tok)" child scopes ttl "tickS w"] unfolding wp_def run by simp
  then have status: "\<not> rp_status (render (Inl y)) = 202" "\<not> rp_status (render (Inl y)) = 201"
    by (cases y; simp add: refused_def)+
  have denied: "wp (raise_for_denial r) (\<lambda>_ _. False) (\<lambda>_ _. True) v" for r v
    by (auto simp: raise_for_denial_def wp_simps Let_def split: option.splits json.splits)
  have "wp (cl_delegate (client_of E net url key) tok child scopes ttl) (\<lambda>_ _. False) (\<lambda>_ _. True) w"
    unfolding cl_delegate_def client_sel wp_bindP [of "sendA _ _"] wp_sendA delegate_call answer_def run prod.case
    by (cases "net (sv_tick w)") (simp_all only: deliver.simps prod.case option.case status if_False denied)
  then show ?thesis by (auto simp: wp_def split: prod.splits sum.splits)
qed

text \<open>C14: revocation reaches the graph. After \<open>POST /revoke\<close> returned for a token, whatever requests, losses of
  the cache and restarts of the service follow and whatever the network loses, an agent whose graph state
  holds a token of the revoked subtree, or one that carries such a token in its chain, never gets a guarded
  node to run, for any scope, and every delegation it tries ends in an exception.\<close>

theorem revoked_agent_is_cut_off:
  assumes run: "service_run E st (evs @ Request (PostRevoke admin jti reason) # later) w"
    and ok: "result (post_revoke E admin jti reason) (happens E evs (new_service st)) = Inr r"
    and below: "(jti, d) \<in> (set (tb_edges (sv_db (happens E evs (new_service st)))))\<^sup>*"
    and holds: "state_get state ADF_TOKEN_KEY = JStr tok"
    and names: "\<And>s now c. s \<in> {tok, strip tok} \<Longrightarrow> svc_decode E (sv_settings w) now s False = Inr c \<Longrightarrow>
      d \<in> set (c_jti c # map ce_jti (c_delegation_chain c))"
  shows "(\<exists>x t. \<forall>node_fn. adf_require_scope (client_of E net url key) scope node_name node_fn state w = (Inl x, t))
    \<and> (\<exists>x t. adf_delegate_for_node (client_of E net url key) state child scopes ttl w = (Inl x, t))"
proof -
  from svc_revoked_forever [OF run ok below] have dead: "d \<in> revoked_in (sv_db w)" and inv: "svc_inv E w" by simp_all
  have "\<not> verifies E tok scope w" using names [of tok] dead unfolding verifies_def good_token_def by blast
  then have "\<nexists>s. state_get state ADF_TOKEN_KEY = JStr s \<and> verifies E s scope w" using holds by simp
  from adf.guard_refuses [OF evolves_refl [OF inv] client_sel this]
  have guard: "\<exists>x t. \<forall>node_fn. adf_require_scope (client_of E net url key) scope node_name node_fn state w = (Inl x, t)" by blast
  have refusal: "\<exists>x t. adf_delegate_for_node (client_of E net url key) state child scopes ttl w = (Inl x, t)"
  proof (cases "tok = ''''")
    case True
    then show ?thesis using holds by (simp add: adf_delegate_for_node_def raise_def)
  next
    case False
    have "\<exists>y. result (post_delegate E (Some (''Bearer '' @ tok)) child scopes ttl) (tickS w) = Inl y"
    proof (rule ccontr)
      assume "\<nexists>y. result (post_delegate E (Some (''Bearer '' @ tok)) child scopes ttl) (tickS w) = Inl y"
      then obtain r' where "result (post_delegate E (Some (''Bearer '' @ tok)) child scopes ttl) (tickS w) = Inr r'"
        by (metis sum.exhaust)
      from delegate_needs_live_parent [OF _ this] inv obtain s c now where
        s: "result (bearer_token (Some (''Bearer '' @ tok))) (tickS w) = Inr s" "svc_decode E (sv_settings w) now s False = Inr c"
        "set (c_jti c # map ce_jti (c_delegation_chain c)) \<inter> revoked_in (sv_db w) = {}"
        by auto
      have "s = strip tok" using s(1) unfolding bearer_header by (simp add: result_def ret_def raise_def split: if_splits)
      then show False using names [of s now c] s(2,3) dead by blast
    qed
    then obtain y where y: "result (post_delegate E (Some (''Bearer '' @ tok)) child scopes ttl) (tickS w) = Inl y" ..
    obtain x t where "cl_delegate (client_of E net url key) (JStr tok) child scopes ttl w = (Inl x, t)"
      using refused_delegation [of E "JStr tok" child scopes ttl w y net url key, unfolded py_str_def json.case, OF y] by blast
    then show ?thesis using holds False by (simp add: adf_delegate_for_node_def bindP_def)
  qed
  show ?thesis using guard refusal by blast
qed

section \<open>The depth of an approved token\<close>

lemma pending_get:
  "app_get E (API_PREFIX @ ''/tokens/pending/'' @ s) hs w = (if plain_id s then answer (collect_pending E s) w else (not_found, w))"
  by (simp add: app_get_def API_PREFIX_def Let_def)

text \<open>The answer of \<open>GET /pending/\<close> has no \<open>depth\<close>.\<close>

lemma wp_collect_pending:
  "wp (collect_pending E s) (\<lambda>a _. \<exists>kvs. a = (200, JObj kvs) \<and> dget kvs ''depth'' = None) (\<lambda>x _. refused x) w"
  unfolding collect_pending_def on_session_def wp_bindP wp_catchP wp_raise wp_ret wp_session_scope
  by (intro wp_mono [OF wp_trivial]) (auto simp: collect_response_def split: if_splits prod.splits)

lemma pending_reply:
  assumes "app_get E (API_PREFIX @ ''/tokens/pending/'' @ s) hs w = (r, w')" and "rp_status r < 400" and "rp_body r = Some j"
  shows "\<exists>kvs. j = JObj kvs \<and> dget kvs ''depth'' = None"
proof -
  obtain x u where run: "collect_pending E s w = (x, u)" by fastforce
  have "case x of Inr a \<Rightarrow> \<exists>kvs. a = (200, JObj kvs) \<and> dget kvs ''depth'' = None | Inl y \<Rightarrow> refused y"
    using wp_collect_pending [of E s w] run by (cases x) (auto simp: wp_def)
  then show ?thesis using assms run unfolding pending_get
    by (cases x rule: render.cases) (auto simp: answer_def not_found_def refused_def split: if_splits)
qed

lemma wp_collect_depth:
  "wp (cl_collect_approved (client_of E net url key) i) (\<lambda>d _. case d of None \<Rightarrow> True | Some d \<Rightarrow> dt_depth d = JInt (- 1)) (\<lambda>_ _. True) w"
proof -
  let ?c = "client_of E net url key"
  have denied: "wp (raise_for_denial r) Q (\<lambda>_ _. True) u" for r u and Q :: "json \<Rightarrow> _"
    by (auto simp: raise_for_denial_def wp_simps Let_def split: option.splits json.splits)
  have call: "tr_get (cl_transport ?c) (cl_api ?c @ ''/tokens/pending/'' @ py_str i) [] w
    = deliver (net (sv_tick w)) (app_get E (API_PREFIX @ ''/tokens/pending/'' @ py_str i) [] (tickS w)) (tickS w)"
    by (simp add: service_at_def)
  obtain r u where app: "app_get E (API_PREFIX @ ''/tokens/pending/'' @ py_str i) [] (tickS w) = (r, u)" by fastforce
  have "wp (cl_get ?c (''/tokens/pending/'' @ py_str i) False) (\<lambda>j _. \<exists>kvs. j = JObj kvs \<and> dget kvs ''depth'' = None) (\<lambda>_ _. True) w"
    unfolding cl_get_def cl_headers_def wp_bindP wp_ret wp_sendA call app simp_thms if_True
    by (cases "net (sv_tick w)")
      (auto simp: denied body_json_def wp_simps not_le dest: pending_reply [OF app] split: option.splits)
  then show ?thesis
    unfolding cl_collect_approved_def wp_bindP [of "cl_get _ _ _"]
    by (rule wp_mono) (auto simp: py_get_def py_list_def py_index_def in_decided_def wp_simps split: option.splits json.splits)
qed

text \<open>C40: an approved delegation loses its depth. When a delegation was parked and \<open>delegate_with_approval\<close>
  satisfies the gate, the graph state it returns says depth -1, whatever the token's depth, because
  \<open>GET /pending\<close> does not report one.\<close>

theorem approved_depth_unknown:
  "case adf_delegate_for_node (client_of E net url key) state child scopes ttl w of
     (Inl (PendingApprovalRequired p), u) \<Rightarrow>
       (case adf_delegate_with_approval (client_of E net url key) state child scopes ttl as_human w of
          (Inr state', t) \<Rightarrow> dget state' ''adf_depth'' = Some (JInt (- 1)) | (Inl x, t) \<Rightarrow> True)
   | (r, u) \<Rightarrow> True"
proof (cases "\<exists>p u. adf_delegate_for_node (client_of E net url key) state child scopes ttl w = (Inl (PendingApprovalRequired p), u)")
  case True
  then obtain p u where parked: "adf_delegate_for_node (client_of E net url key) state child scopes ttl w = (Inl (PendingApprovalRequired p), u)"
    by blast
  let ?Q = "\<lambda>s (_ :: service). dget s ''adf_depth'' = Some (JInt (- 1))"
  have collect: "wp (bindP (cl_collect_approved (client_of E net url key) i) (\<lambda>token. case token of None \<Rightarrow> raise x
      | Some d \<Rightarrow> ret (adf_state_with state child d))) ?Q (\<lambda>_ _. True) v" for i x v
    unfolding wp_bindP by (rule wp_mono [OF wp_collect_depth]) (auto simp: wp_simps adf_state_with_def split: option.splits)
  have "wp (adf_delegate_with_approval (client_of E net url key) state child scopes ttl as_human) ?Q (\<lambda>_ _. True) w"
    unfolding adf_delegate_with_approval_def wp_catchP
    by (subst wp_def, simp add: parked wp_if wp_raise wp_bindP [of "cl_approve _ _"])
      (auto intro!: wp_mono [OF wp_trivial] collect)
  then show ?thesis using parked by (auto simp: wp_def split: prod.splits sum.splits)
qed (auto split: prod.splits sum.splits adf_error.splits)

section \<open>An unreachable service\<close>

text \<open>An unreachable service does not always show as \<open>ADFError\<close>. When the network loses every request, \<open>verify\<close>
  and every other call made through \<open>_post\<close> or \<open>_get\<close> raises \<open>ADFError\<close>, but \<open>delegate\<close>, and with it the guard's
  \<open>delegate_for_node\<close>, lets the exception of the HTTP library through.\<close>

theorem delegate_leaks_transport_errors:
  "result (cl_verify (client_of E (\<lambda>_. RequestLost) url key) (JStr (ch # tok)) scope) w = Inl ADFError
   \<and> result (cl_collect_approved (client_of E (\<lambda>_. RequestLost) url key) i) w = Inl ADFError
   \<and> result (cl_delegate (client_of E (\<lambda>_. RequestLost) url key) parent child scopes ttl) w = Inl AdfHttpxError
   \<and> result (adf_delegate_for_node (client_of E (\<lambda>_. RequestLost) url key) [(ADF_TOKEN_KEY, JStr (ch # tok))] child scopes ttl) w
       = Inl AdfHttpxError"
proof -
  have lost: "tr_post (service_at E (\<lambda>_. RequestLost) base) u hs body w = (None, tickS w)"
    "tr_get (service_at E (\<lambda>_. RequestLost) base) u hs w = (None, tickS w)" for base u hs body
    by (simp_all add: service_at_def)
  show ?thesis
    by (simp add: result_def cl_verify_def cl_post_def cl_collect_approved_def cl_get_def cl_delegate_def adf_delegate_for_node_def
        cl_headers_def sendA_def lost bindP_def ret_def state_get_def Let_def)
qed

section \<open>Witnesses\<close>

theorem guarded_node_never_runs_witness:
  "\<exists>x t. adf_require_scope (client_of (live_env root_c) (\<lambda>_. Answered) ''http://adf/'' None) ''write'' ''node'' (\<lambda>_. ret (Suc 0))
     [(ADF_TOKEN_KEY, JStr ''t'')] minted_w = (Inl x, t)"
proof -
  have "\<not> verifies (live_env root_c) tok ''write'' minted_w" for tok
    using live_decodes [of root_c live_settings] minted_facts by (auto simp: verifies_def good_token_def)
  then have "\<nexists>tok. state_get [(ADF_TOKEN_KEY, JStr ''t'')] ADF_TOKEN_KEY = JStr tok \<and> verifies (live_env root_c) tok ''write'' minted_w"
    by blast
  from guarded_node_never_runs [OF minted_run this, of "\<lambda>_. Answered" "''http://adf/''" None "''node''"] show ?thesis by blast
qed

lemma bob_request: "DelegateRequest ''bob'' [''read''] 60 = Some [''read'']" "strip ''t'' = ''t''"
  by (simp_all add: DelegateRequest_def normalise_scopes_def strip_def is_space_def code_of_def)

lemma delegated_over_http:
  "\<exists>state' t. adf_delegate_for_node (client_of (live_env root_c) (\<lambda>_. Answered) ''http://adf/'' None)
     [(ADF_TOKEN_KEY, JStr ''t'')] ''bob'' [''read''] 60 minted_w = (Inr state', t)"
proof -
  let ?E = "live_env root_c" and ?c = "client_of (live_env root_c) (\<lambda>_. Answered) ''http://adf/'' None"
  have "wp (svc_delegate ?E ''t'' ''bob'' [''read''] 60)
      (\<lambda>r t. (\<exists>x. r = Minted x) \<and> (\<exists>d. (c_jti root_c, d) \<in> set (tb_edges (sv_tx t)))) (\<lambda>_ _. False) (begin_tx (tickS minted_w))"
    by (rule delegate_accepts [where m = "svc_meta_of root_c None"])
      (use minted_facts live_decodes [of root_c live_settings] in
        \<open>auto simp: revoked_in_def new_breaker_def ts_of_def from_ts_def dest!: arg_cong [of "replicate _ _" _ length]\<close>)
  then have "wp (post_delegate ?E (Some (''Bearer '' @ ''t'')) ''bob'' [''read''] 60) (\<lambda>a _. \<exists>m. a = delegate_response (Minted m)) (\<lambda>_ _. False) (tickS minted_w)"
    unfolding post_delegate_def wp_bindP [of "bearer_token _"] bearer_header
    by (simp add: wp_simps on_session_def bob_request) (erule wp_mono, auto)
  then obtain m u where post: "post_delegate ?E (Some (''Bearer '' @ ''t'')) ''bob'' [''read''] 60 (tickS minted_w) = (Inr (delegate_response (Minted m)), u)"
    by (auto simp: wp_def split: prod.splits sum.splits)
  have "wp (cl_delegate ?c (JStr ''t'') ''bob'' [''read''] 60) (\<lambda>a _. \<exists>d. a = ClDelegated d) (\<lambda>_ _. False) minted_w"
    unfolding cl_delegate_def client_sel wp_bindP [of "sendA _ _"] wp_sendA delegate_call py_str_def json.case
    by (simp only: answer_def post prod.case deliver.simps option.case)
      (simp add: delegate_response_def body_json_def read_delegated_def py_index_def py_get_def py_list_def json_strs_def wp_simps)
  then show ?thesis
    by (auto simp: adf_delegate_for_node_def state_get_def Let_def bindP_def wp_def ret_def split: prod.splits sum.splits)
qed

theorem delegated_state_is_narrower_witness:
  "\<exists>state' t (m :: minted_token). adf_delegate_for_node (client_of (live_env root_c) (\<lambda>_. Answered) ''http://adf/'' None)
     [(ADF_TOKEN_KEY, JStr ''t'')] ''bob'' [''read''] 60 minted_w = (Inr state', t)
   \<and> dget state' ADF_TOKEN_KEY = Some (JStr (svc_encode (live_env root_c) (sv_settings minted_w) (mt_claims m)))
   \<and> dget state' ''adf_scopes'' = Some (JList [JStr ''read''])"
proof -
  obtain state' t where run: "adf_delegate_for_node (client_of (live_env root_c) (\<lambda>_. Answered) ''http://adf/'' None)
     [(ADF_TOKEN_KEY, JStr ''t'')] ''bob'' [''read''] 60 minted_w = (Inr state', t)"
    using delegated_over_http by blast
  have "svc_honest (live_env root_c) minted_w (strip (py_str (state_get [(ADF_TOKEN_KEY, JStr ''t'')] ADF_TOKEN_KEY)))"
    using minted_facts live_decodes [of root_c live_settings] by (auto simp: svc_honest_def)
  from delegated_state_is_narrower [OF minted_run this run] obtain m :: minted_token and scopes' where
    "state' = dset ''adf_depth'' (JInt (c_depth (mt_claims m))) (dset ''adf_scopes'' (json_strs (c_scopes (mt_claims m)))
      (dset ADF_AGENT_KEY (JStr ''bob'') (dset ADF_TOKEN_KEY (JStr (mt_token m)) [(ADF_TOKEN_KEY, JStr ''t'')])))" "normalise_scopes [''read''] = Some scopes'"
    "c_scopes (mt_claims m) = sorted_set scopes'" "mt_token m = svc_encode (live_env root_c) (sv_settings minted_w) (mt_claims m)"
    unfolding minted_under_def by blast
  moreover have "normalise_scopes [''read''] = Some [''read'']"
    by (simp add: normalise_scopes_def strip_def is_space_def code_of_def)
  ultimately show ?thesis using run by (auto simp: sorted_set_def json_strs_def ADF_TOKEN_KEY_def ADF_AGENT_KEY_def)
qed

theorem revoked_agent_is_cut_off_witness:
  "\<exists>x t. adf_require_scope (client_of (live_env root_c) (\<lambda>_. Answered) ''http://adf/'' None) ''read'' ''node'' (\<lambda>_. ret (Suc 0))
     [(ADF_TOKEN_KEY, JStr ''t'')]
     (happens (live_env root_c) [Request (PostRevoke (Some ''k'') ''uuu'' None), RedisLost, Restart False, Request (GetChain ''uuu'')] minted_w)
   = (Inl x, t)"
proof -
  let ?mint = "[Request (PostRoot (Some ''k'') ''alice'' [''read''] 60 None)]" and ?later = "[RedisLost, Restart False, Request (GetChain ''uuu'')]"
  let ?w = "happens (live_env root_c) (Request (PostRevoke (Some ''k'') ''uuu'' None) # ?later) minted_w"
  have w: "happens (live_env root_c) ?mint (new_service live_settings) = minted_w" by (simp add: minted_w_def)
  have run: "service_run (live_env root_c) live_settings (?mint @ Request (PostRevoke (Some ''k'') ''uuu'' None) # ?later) ?w"
    by (simp add: service_run_def minted_w_def happens_def)
  obtain r where r: "result (post_revoke (live_env root_c) (Some ''k'') ''uuu'' None) (happens (live_env root_c) ?mint (new_service live_settings)) = Inr r"
    using revoke_answers [of "live_env root_c" "''uuu''" "''k''" minted_w] minted_facts unfolding w by (auto simp: is_ascii_def code_of_def)
  have holds: "state_get [(ADF_TOKEN_KEY, JStr ''t'')] ADF_TOKEN_KEY = JStr ''t''" by (simp add: state_get_def)
  have "(\<exists>x t. \<forall>node_fn. adf_require_scope (client_of (live_env root_c) (\<lambda>_. Answered) ''http://adf/'' None) ''read'' ''node'' node_fn
      [(ADF_TOKEN_KEY, JStr ''t'')] ?w = (Inl x :: adf_error + nat, t))
    \<and> (\<exists>x t. adf_delegate_for_node (client_of (live_env root_c) (\<lambda>_. Answered) ''http://adf/'' None) [(ADF_TOKEN_KEY, JStr ''t'')]
      ''bob'' [''read''] 60 ?w = (Inl x, t))"
    by (rule revoked_agent_is_cut_off [OF run r _ holds, of "''uuu''"]) (auto dest!: live_decodes_only)
  then show ?thesis by blast
qed

end
