(* ===== verification/Adf_Agents.thy ===== *)
theory Adf_Agents
  imports Adf_Delegation
begin

text \<open>
  The agents of \<open>demo_agents/agents.py\<close>: they hold a token each, verify before they act and delegate
  downward through the client of the adapter. The agents are a store from object numbers to their fields;
  they share one client and one log, as the demonstration makes them. The language model behind
  \<open>_llm_plan\<close>, with the package and the key it needs, is an argument. The locale \<open>agents_api\<close> extends
  \<open>checkpoint_api\<close> by what the service does with tokens that are dead for good.
\<close>

section \<open>The state\<close>

record action_log =
  al_performed :: "string list"
  al_blocked :: "string list"

definition did :: "string \<Rightarrow> action_log \<Rightarrow> action_log" where
  "did what l = l\<lparr>al_performed := al_performed l @ [what]\<rparr>"

definition was_blocked :: "string \<Rightarrow> action_log \<Rightarrow> action_log" where
  "was_blocked what l = l\<lparr>al_blocked := al_blocked l @ [what]\<rparr>"

record base_agent =
  ag_agent_id :: string
  ag_token :: json

record 'w stage =
  sg_world :: 'w
  sg_agents :: "nat \<Rightarrow> base_agent"
  sg_actions :: action_log

definition on_world :: "('w, 'a) adf \<Rightarrow> ('w stage, 'a) adf" where
  "on_world = zoomP sg_world (\<lambda>w s. s\<lparr>sg_world := w\<rparr>)"

definition note_action :: "(action_log \<Rightarrow> action_log) \<Rightarrow> ('w stage, unit) adf" where
  "note_action f = updP (\<lambda>s. s\<lparr>sg_actions := f (sg_actions s)\<rparr>)"

section \<open>\<open>BaseAgent\<close>\<close>

definition agent_guard :: "'w adf_client \<Rightarrow> nat \<Rightarrow> string \<Rightarrow> ('w stage, unit) adf" where
  "agent_guard c self scope =
     bindP (getsP (\<lambda>s. sg_agents s self)) (\<lambda>a.
     bindP (on_world (cl_verify c (ag_token a) scope)) (\<lambda>res.
     if \<not> av_valid res then
       bindP (note_action (was_blocked (ag_agent_id a @ '':'' @ scope))) (\<lambda>_.
       raise (ADFDenied (ag_agent_id a @ '' denied scope '' @ repr_str scope @ '': '' @ py_str (av_reason res))
         None [(''required_scope'', JStr scope), (''reason'', av_reason res)]))
     else ret ()))"

text \<open>The \<open>assert\<close> of a token to delegate from raises an exception of the agent's own.\<close>

definition agent_delegate_to :: "'w adf_client \<Rightarrow> nat \<Rightarrow> nat \<Rightarrow> string list \<Rightarrow> int \<Rightarrow> ('w stage, delegate_reply) adf" where
  "agent_delegate_to c self child scopes ttl_seconds =
     bindP (getsP (\<lambda>s. (sg_agents s self, sg_agents s child))) (\<lambda>(a, b).
     if \<not> py_bool (ag_token a) then raise (AdfNodeError (ag_agent_id a @ '' has no token to delegate from''))
     else bindP (on_world (cl_delegate c (ag_token a) (ag_agent_id b) scopes ttl_seconds)) (\<lambda>r.
       case r of
         ClDelegated d \<Rightarrow> bindP (updP (\<lambda>s. s\<lparr>sg_agents := (sg_agents s)(child := (sg_agents s child)\<lparr>ag_token := dt_token d\<rparr>)\<rparr>))
           (\<lambda>_. ret r)
       | ClParked _ \<Rightarrow> ret r))"

section \<open>What the agents do\<close>

definition read_agenda :: "'w adf_client \<Rightarrow> nat \<Rightarrow> ('w stage, string list) adf" where
  "read_agenda c self = bindP (agent_guard c self ''read_calendar'') (\<lambda>_. bindP (note_action (did ''calendar:read_agenda'')) (\<lambda>_.
     ret [''09:30 standup'', ''14:00 1:1 with Priya'', ''16:00 design review'']))"

definition delete_everything :: "'w adf_client \<Rightarrow> nat \<Rightarrow> ('w stage, unit) adf" where
  "delete_everything c self = bindP (agent_guard c self ''write_calendar'') (\<lambda>_. note_action (did ''calendar:delete_everything''))"

definition send_summary :: "'w adf_client \<Rightarrow> nat \<Rightarrow> string list \<Rightarrow> ('w stage, string) adf" where
  "send_summary c self agenda = bindP (agent_guard c self ''send_email'') (\<lambda>_.
     let body = ''Today'' @ [CHR 0x27] @ ''s agenda:'' @ [CHR 0x0A] @ join [CHR 0x0A] (map (\<lambda>item. ''  - '' @ item) agenda)
     in bindP (note_action (did ''email:send_summary'')) (\<lambda>_. ret body))"

definition read_inbox :: "'w adf_client \<Rightarrow> nat \<Rightarrow> ('w stage, string list) adf" where
  "read_inbox c self = bindP (agent_guard c self ''read_email'') (\<lambda>_. bindP (note_action (did ''email:read_inbox'')) (\<lambda>_.
     ret [''Re: design review'']))"

definition search :: "'w adf_client \<Rightarrow> nat \<Rightarrow> string \<Rightarrow> ('w stage, string list) adf" where
  "search c self query = bindP (agent_guard c self ''web_search'') (\<lambda>_. bindP (note_action (did (''web:search:'' @ query))) (\<lambda>_.
     ret [''result for '' @ query]))"

section \<open>The plan of the assistant\<close>

definition llm_mode_enabled :: "string option \<Rightarrow> bool" where
  "llm_mode_enabled mode \<longleftrightarrow> strip (case mode of None \<Rightarrow> '''' | Some s \<Rightarrow> s) \<in> {''1'', ''true'', ''yes''}"

text \<open>The optional dependency: whether the package imports, the key, and the decoded answer to a task,
  \<open>None\<close> when the call or the decoding raises.\<close>

record llm_env =
  le_mode :: "string option"
  le_installed :: bool
  le_key :: "string option"
  le_answer :: "string \<Rightarrow> json option"

definition plan_item :: "json \<Rightarrow> (json \<times> json) option" where
  "plan_item x = (case (py_index x ''agent'', py_index x ''scopes'') of (Inr a, Inr s) \<Rightarrow> Some (a, s) | _ \<Rightarrow> None)"

definition llm_plan :: "llm_env \<Rightarrow> string \<Rightarrow> (json \<times> json) list option" where
  "llm_plan L task =
     (if \<not> le_installed L then None
      else if str_or (le_key L) '''' = '''' then None
      else case le_answer L task of None \<Rightarrow> None
       | Some payload \<Rightarrow> (case py_get payload ''plan'' (JList []) of Inl _ \<Rightarrow> None
         | Inr xs \<Rightarrow> (case py_list xs of Inl _ \<Rightarrow> None | Inr items \<Rightarrow> those (map plan_item items))))"

definition assistant_plan :: "llm_env \<Rightarrow> string \<Rightarrow> (json \<times> json) list" where
  "assistant_plan L task =
     (let scripted = [(JStr ''calendar-agent'', JList [JStr ''read_calendar'']), (JStr ''email-agent'', JList [JStr ''send_email''])]
      in if llm_mode_enabled (le_mode L)
         then (case llm_plan L task of Some plan \<Rightarrow> if plan \<noteq> [] then plan else scripted | None \<Rightarrow> scripted)
         else scripted)"

section \<open>Any sequence of attempts\<close>

datatype agent_act =
    ReadAgenda nat
  | DeleteEverything nat
  | SendSummary nat "string list"
  | ReadInbox nat
  | Search nat string
  | DelegateTo nat nat "string list" int

fun perform :: "'w adf_client \<Rightarrow> agent_act \<Rightarrow> 'w stage \<Rightarrow> 'w stage" where
  "perform c (ReadAgenda i) s = final (read_agenda c i) s"
| "perform c (DeleteEverything i) s = final (delete_everything c i) s"
| "perform c (SendSummary i agenda) s = final (send_summary c i agenda) s"
| "perform c (ReadInbox i) s = final (read_inbox c i) s"
| "perform c (Search i query) s = final (search c i query) s"
| "perform c (DelegateTo i j scopes ttl) s = final (agent_delegate_to c i j scopes ttl) s"

definition attempts :: "'w adf_client \<Rightarrow> agent_act list \<Rightarrow> 'w stage \<Rightarrow> 'w stage" where
  "attempts c acts s = fold (perform c) acts s"

lemmas agent_work_defs = read_agenda_def delete_everything_def send_summary_def read_inbox_def search_def

section \<open>Dead tokens\<close>

text \<open>The interface again, with the tokens that are refused for good: none is accepted, and no delegation
  from one is answered by 201 or 202.\<close>

locale agents_api = checkpoint_api +
  fixes dead :: "string \<Rightarrow> bool"
  assumes dead_unaccepted: "inv w \<Longrightarrow> dead tok \<Longrightarrow> \<not> accepts tok s w"
    and dead_undelegated: "inv w \<Longrightarrow> dead tok \<Longrightarrow> tr_post tp (api @ ''/tokens/delegate'') [(''Authorization'', ''Bearer '' @ tok)]
      (JObj [(''child_agent_id'', JStr child), (''requested_scopes'', json_strs scopes), (''ttl_seconds'', JInt ttl)]) w = (r, w') \<Longrightarrow>
      inv w' \<and> (case r of None \<Rightarrow> True | Some rp \<Rightarrow> rp_status rp \<noteq> 201 \<and> rp_status rp \<noteq> 202)"
begin

definition idle :: "'a stage \<Rightarrow> 'a stage \<Rightarrow> bool" where
  "idle s s' \<longleftrightarrow> inv (sg_world s') \<and> sg_agents s' = sg_agents s \<and> al_performed (sg_actions s') = al_performed (sg_actions s)"

definition powerless :: "'a stage \<Rightarrow> bool" where
  "powerless s \<longleftrightarrow> (\<forall>i. ag_token (sg_agents s i) = JNull \<or> (\<exists>tok. ag_token (sg_agents s i) = JStr tok \<and> dead tok))"

lemma guard_idle:
  assumes "inv (sg_world s)" and "cl_transport c = tp" and "cl_api c = api" and "powerless s"
  shows "wp (agent_guard c i scope) (\<lambda>_ _. False) (\<lambda>_. idle s) s"
proof -
  have "\<nexists>tok. ag_token (sg_agents s i) = JStr tok \<and> accepts tok scope (sg_world s)"
    using assms(4) dead_unaccepted [OF assms(1)] unfolding powerless_def by (metis json.distinct json.inject)
  then have "wp (cl_verify c (ag_token (sg_agents s i)) scope) (\<lambda>r w'. inv w' \<and> \<not> av_valid r) (\<lambda>_. inv) (sg_world s)"
    by (rule_tac wp_mono [OF verify_valid [OF assms(1-3)]]) blast+
  then show ?thesis
    unfolding agent_guard_def wp_bindP wp_getsP on_world_def wp_zoomP
    by (rule wp_mono) (simp_all add: wp_simps note_action_def was_blocked_def idle_def)
qed

lemma delegate_idle:
  assumes "inv (sg_world s)" and "cl_transport c = tp" and "cl_api c = api" and "powerless s"
  shows "wp (agent_delegate_to c i j scopes ttl) (\<lambda>_ _. False) (\<lambda>_. idle s) s"
proof (cases "py_bool (ag_token (sg_agents s i))")
  case False
  then show ?thesis using assms(1) by (simp add: agent_delegate_to_def wp_simps idle_def)
next
  case True
  then obtain tok where tok: "ag_token (sg_agents s i) = JStr tok" "dead tok"
    using assms(4) unfolding powerless_def by (metis py_bool_simps(1))
  obtain r w' where run: "tr_post tp (api @ ''/tokens/delegate'') [(''Authorization'', ''Bearer '' @ tok)]
      (JObj [(''child_agent_id'', JStr (ag_agent_id (sg_agents s j))), (''requested_scopes'', json_strs scopes), (''ttl_seconds'', JInt ttl)])
      (sg_world s) = (r, w')"
    by fastforce
  have denied: "wp (raise_for_denial rp) (\<lambda>_ _. False) (\<lambda>_. inv) w'" if "inv w'" for rp
    using that by (auto simp: raise_for_denial_def wp_simps Let_def split: option.splits json.splits)
  have "wp (cl_delegate c (JStr tok) (ag_agent_id (sg_agents s j)) scopes ttl) (\<lambda>_ _. False) (\<lambda>_. inv) (sg_world s)"
    using dead_undelegated [OF assms(1) tok(2) run] denied run
    by (simp add: cl_delegate_def wp_simps assms py_str_def split: option.splits)
  then show ?thesis using True
    unfolding agent_delegate_to_def wp_bindP wp_getsP prod.case wp_if on_world_def wp_zoomP tok
    by (auto simp: idle_def intro: wp_mono)
qed

lemma perform_idle:
  assumes "inv (sg_world s)" and "cl_transport c = tp" and "cl_api c = api" and "powerless s"
  shows "idle s (perform c act s)"
proof -
  have stuck: "idle s (final m s)" if "wp m (\<lambda>_ _. False) (\<lambda>_. idle s) s" for m :: "('a stage, 'b) adf"
    using that by (auto simp: wp_def final_def split: prod.splits sum.splits)
  note guard = wp_mono [OF guard_idle [OF assms]] and delegate = delegate_idle [OF assms]
  show ?thesis
    by (cases act) (auto simp: agent_work_defs wp_bindP intro!: stuck delegate guard)
qed

text \<open>Agents whose tokens are all dead or absent do nothing, whatever they try, in any order.\<close>

lemma attempts_idle:
  assumes "inv (sg_world s)" and "cl_transport c = tp" and "cl_api c = api" and "powerless s"
  shows "idle s (attempts c acts s)"
  using assms(1,4)
proof (induction acts arbitrary: s)
  case (Cons act acts)
  let ?s = "perform c act s"
  have step: "idle s ?s" by (rule perform_idle [OF Cons.prems(1) assms(2,3) Cons.prems(2)])
  then have "inv (sg_world ?s)" "powerless ?s" using Cons.prems(2) by (simp_all add: idle_def powerless_def)
  from Cons.IH [OF this] step show ?case by (simp add: attempts_def idle_def)
qed (simp add: attempts_def idle_def)

end

section \<open>The service is what the agents rely on\<close>

definition dead_in :: "svc_env \<Rightarrow> service \<Rightarrow> string \<Rightarrow> bool" where
  "dead_in E w tok \<longleftrightarrow> (\<forall>s now c. s \<in> {tok, strip tok} \<longrightarrow> svc_decode E (sv_settings w) now s False = Inr c \<longrightarrow>
     set (c_jti c # map ce_jti (c_delegation_chain c)) \<inter> revoked_in (sv_db w) \<noteq> {})"

lemma dead_evolves:
  assumes "evolves E w0 w" and "dead_in E w0 tok"
  shows "dead_in E w tok"
proof -
  have dec: "svc_decode E (sv_settings w) = svc_decode E (sv_settings w0)"
    by (rule policy_decode) (use assms(1) in \<open>simp add: evolves_def\<close>)
  have "revoked_in (sv_db w0) \<subseteq> revoked_in (sv_db w)"
    using assms(1) advances_revoked by (simp add: evolves_def)
  then show ?thesis using assms(2) unfolding dead_in_def dec by blast
qed

lemma dead_not_delegated:
  assumes inv: "svc_inv E w" and dead: "dead_in E w tok"
  obtains x t where "post_delegate E (Some (''Bearer '' @ tok)) child scopes ttl w = (Inl x, t)" "refused x" "evolves E w t"
proof -
  define auth where "auth = Some (''Bearer '' @ tok)"
  have bearer: "s = strip tok" if "result (bearer_token auth) w = Inr s" for s
    using that unfolding auth_def bearer_header by (simp add: result_def ret_def raise_def split: if_splits)
  have hon: "svc_honest E w s" if "result (bearer_token auth) w = Inr s" for s
    using dead bearer [OF that] unfolding svc_honest_def dead_in_def by blast
  have no: "result (post_delegate E auth child scopes ttl) w \<noteq> Inr r" for r
    using delegate_needs_live_parent [OF inv, of auth child scopes ttl r] dead bearer unfolding dead_in_def by blast
  obtain x t where run: "post_delegate E auth child scopes ttl w = (Inl x, t)"
    using no by (cases "post_delegate E auth child scopes ttl w"; cases "fst (post_delegate E auth child scopes ttl w)") (auto simp: result_def)
  have "wp (post_delegate E auth child scopes ttl) (\<lambda>_. evolves E w) (\<lambda>_. evolves E w) w"
    by (rule post_delegate_evolves [OF inv hon])
  with post_delegate_refusals [of E auth child scopes ttl w] have "refused x" "evolves E w t"
    unfolding wp_def run by simp_all
  with run show ?thesis using that unfolding auth_def by blast
qed

interpretation agents: agents_api "service_at E net base" "base @ API_PREFIX" "evolves E w0" "verifies E" "dead_in E w0"
  for E net base w0
proof unfold_locales
  fix w tok s
  assume "evolves E w0 w" and "dead_in E w0 tok"
  then have "dead_in E w tok" by (rule dead_evolves)
  then show "\<not> verifies E tok s w" unfolding dead_in_def verifies_def good_token_def by blast
next
  fix w tok child scopes ttl r w'
  assume inv: "evolves E w0 w" and dead: "dead_in E w0 tok"
    and call: "tr_post (service_at E net base) ((base @ API_PREFIX) @ ''/tokens/delegate'') [(''Authorization'', ''Bearer '' @ tok)]
      (JObj [(''child_agent_id'', JStr child), (''requested_scopes'', json_strs scopes), (''ttl_seconds'', JInt ttl)]) w = (r, w')"
  have "svc_inv E (tickS w)" "dead_in E (tickS w) tok" using inv dead_evolves [OF inv dead] by (simp_all add: evolves_def dead_in_def)
  then obtain x t where
    post: "post_delegate E (Some (''Bearer '' @ tok)) child scopes ttl (tickS w) = (Inl x, t)" "refused x" "evolves E (tickS w) t"
    by (rule dead_not_delegated)
  have "rp_status (render (Inl x)) \<noteq> 201 \<and> rp_status (render (Inl x)) \<noteq> 202" using post(2) by (cases x) (auto simp: refused_def)
  then show "evolves E w0 w' \<and> (case r of None \<Rightarrow> True | Some rp \<Rightarrow> rp_status rp \<noteq> 201 \<and> rp_status rp \<noteq> 202)"
    using call evolves_trans [OF inv post(3) [unfolded svc_inv_tick]] inv unfolding delegate_call answer_def post(1) prod.case
    by (cases "net (sv_tick w)") auto
qed

text \<open>C15: revoked agents do nothing more. After \<open>POST /revoke\<close> returned, and whatever happened to the service since,
  let the agents hold no token but such as name a token of the revoked subtree. Then whatever they try, in
  any order and over any network, none of them performs an action and none obtains a token: the log of
  performed actions and the agents stay as they are.\<close>

theorem revoked_agents_do_nothing:
  assumes run: "service_run E st (evs @ Request (PostRevoke admin jti reason) # later) (sg_world s)"
    and ok: "result (post_revoke E admin jti reason) (happens E evs (new_service st)) = Inr r"
    and held: "\<And>i. ag_token (sg_agents s i) = JNull \<or> (\<exists>tok d. ag_token (sg_agents s i) = JStr tok
      \<and> (jti, d) \<in> (set (tb_edges (sv_db (happens E evs (new_service st)))))\<^sup>*
      \<and> (\<forall>now c. svc_decode E (sv_settings (sg_world s)) now tok False = Inr c \<or> svc_decode E (sv_settings (sg_world s)) now (strip tok) False = Inr c
          \<longrightarrow> d \<in> set (c_jti c # map ce_jti (c_delegation_chain c))))"
  shows "al_performed (sg_actions (attempts (client_of E net url key) acts s)) = al_performed (sg_actions s)
    \<and> sg_agents (attempts (client_of E net url key) acts s) = sg_agents s"
proof -
  let ?w = "sg_world s"
  have inv: "svc_inv E ?w" using svc_revoked_forever [OF run ok rtrancl.rtrancl_refl] by simp
  have "dead_in E ?w tok" if "(jti, d) \<in> (set (tb_edges (sv_db (happens E evs (new_service st)))))\<^sup>*"
    and "\<forall>now c. svc_decode E (sv_settings ?w) now tok False = Inr c \<or> svc_decode E (sv_settings ?w) now (strip tok) False = Inr c
          \<longrightarrow> d \<in> set (c_jti c # map ce_jti (c_delegation_chain c))" for tok d
    using svc_revoked_forever [OF run ok that(1)] that(2) unfolding dead_in_def by blast
  then have "agents.powerless E ?w s" unfolding agents.powerless_def using held by blast
  from agents.attempts_idle [OF evolves_refl [OF inv] client_sel this] show ?thesis
    unfolding agents.idle_def by blast
qed

theorem revoked_agents_do_nothing_witness:
  "al_performed (sg_actions (attempts (client_of (live_env root_c) (\<lambda>_. Answered) ''http://adf/'' None)
     [Search 0 ''q'', DelegateTo 0 1 [''read''] 60, ReadInbox 1]
     \<lparr>sg_world = happens (live_env root_c) [Request (PostRevoke (Some ''k'') ''uuu'' None), RedisLost, Restart False, Request (GetChain ''uuu'')] minted_w,
      sg_agents = (\<lambda>i. \<lparr>ag_agent_id = ''agent'', ag_token = if i = 0 then JStr ''t'' else JNull\<rparr>),
      sg_actions = \<lparr>al_performed = [], al_blocked = []\<rparr>\<rparr>)) = []"
proof -
  let ?mint = "[Request (PostRoot (Some ''k'') ''alice'' [''read''] 60 None)]" and ?later = "[RedisLost, Restart False, Request (GetChain ''uuu'')]"
  let ?w = "happens (live_env root_c) (Request (PostRevoke (Some ''k'') ''uuu'' None) # ?later) minted_w"
  let ?s = "\<lparr>sg_world = ?w, sg_agents = (\<lambda>i. \<lparr>ag_agent_id = ''agent'', ag_token = if i = (0::nat) then JStr ''t'' else JNull\<rparr>),
      sg_actions = \<lparr>al_performed = [], al_blocked = []\<rparr>\<rparr>"
  have w: "happens (live_env root_c) ?mint (new_service live_settings) = minted_w" by (simp add: minted_w_def)
  have run: "service_run (live_env root_c) live_settings (?mint @ Request (PostRevoke (Some ''k'') ''uuu'' None) # ?later) (sg_world ?s)"
    by (simp add: service_run_def minted_w_def happens_def)
  obtain r where r: "result (post_revoke (live_env root_c) (Some ''k'') ''uuu'' None) (happens (live_env root_c) ?mint (new_service live_settings)) = Inr r"
    using revoke_answers [of "live_env root_c" "''uuu''" "''k''" minted_w] minted_facts unfolding w by (auto simp: is_ascii_def code_of_def)
  have "al_performed (sg_actions (attempts (client_of (live_env root_c) (\<lambda>_. Answered) ''http://adf/'' None)
      [Search 0 ''q'', DelegateTo 0 1 [''read''] 60, ReadInbox 1] ?s)) = al_performed (sg_actions ?s)
    \<and> sg_agents (attempts (client_of (live_env root_c) (\<lambda>_. Answered) ''http://adf/'' None)
      [Search 0 ''q'', DelegateTo 0 1 [''read''] 60, ReadInbox 1] ?s) = sg_agents ?s"
  proof (rule revoked_agents_do_nothing [OF run r], goal_cases)
    case (1 i)
    show ?case by (cases "i = 0") (auto intro!: exI [of _ "''uuu''"] dest!: live_decodes_only)
  qed
  then show ?thesis by simp
qed

end
