(* ===== verification/Spec2Isabelle.thy ===== *)
theory Spec2Isabelle
  imports Risk Sql_Refines Agp_Langgraph Adf_Agents
begin

text \<open>
  A verification development for the programs of the repository: \<open>agperms\<close>, a delegation firewall
  used as a library (\<open>src/agperms/src/agperms\<close>), and the checkpoint service, which enforces the same rules
  behind HTTP over Postgres and Redis (\<open>src/checkpoint_service\<close>), with the adapter through which a
  LangGraph graph uses the service (\<open>src/langgraph_adf_adapter\<close>) and the agents that go through it
  (\<open>src/demo_agents/agents.py\<close>).

  \<^bold>\<open>The library.\<close> A firewall hands out capabilities: signed tokens that name a subject, a set of scopes,
  an expiry and the chain of delegations behind them. A root capability is minted for a person; an
  agent that holds a capability may delegate a narrower one, down to a depth limit; sensitive scopes
  wait for a human approval; revoking a token kills everything delegated from it and queues the
  actions that were in flight for review. Every decision is a row of a hash-chained audit log. A
  circuit breaker, a rate limiter and an anomaly detector stand beside it. Records live in a storage
  backend, in memory or in SQL.

  \<^bold>\<open>The service.\<close> Routes decode a request and open a database session; the engine mints, delegates,
  verifies, revokes, approves and collects inside it; the session commits if the handler returns and is
  rolled back if it raises. Audit rows are written in a session of their own and survive a rollback.
  Revocations live in Postgres, and a Redis set mirrors them with a sentinel that says the set is
  complete; a lookup that cannot trust Redis reads Postgres. Rate limits are windows in Redis, and in
  the process once Redis has failed. \<open>verify_success\<close> events are buffered and flushed in rounds.

  \<^bold>\<open>The theories of the library\<close> (each opens with what it holds):
  \<^item> \<open>Prelude\<close>: state-and-exception programs, their weakest preconditions (\<open>wp_simps\<close>), dictionaries,
    sorting, strings; \<open>Py_Json\<close>: \<open>json.dumps\<close> and its injectivity; \<open>Env\<close>: clock, UUIDs, SHA-256 and
    PyJWT as one record of functions \<open>e\<close>, with the hypotheses on them.
  \<^item> \<open>Agp_Time\<close> (\<open>_time.py\<close>), \<open>Agp_Errors\<close> (\<open>errors.py\<close>), \<open>Agp_Models\<close> (\<open>models.py\<close>), \<open>Agp_Config\<close>
    (\<open>config.py\<close>): data, closed claim schema, configuration.
  \<^item> \<open>Window_Cache\<close>, \<open>Agp_Guardrails\<close> (\<open>_guardrails.py\<close>): sliding windows, rate limiter, circuit
    breaker, anomaly baselines; the locale \<open>window_cache\<close> is the contract of the windows, and
    \<open>Redis_Windows\<close> has the windows in Redis.
  \<^item> \<open>Bfs\<close>, \<open>Storage\<close> (\<open>storage/protocol.py\<close>): the walk over delegations for any edge set, and the
    contract \<open>revocation_store\<close> of a backend; \<open>Memory_Storage\<close> (\<open>storage/memory.py\<close>) and
    \<open>Sql_Storage\<close> (\<open>storage/sql.py\<close>) are its two providers, and \<open>Sql_Refines\<close> proves that they give
    the same answers.
  \<^item> \<open>Hash_Chain\<close>, \<open>Agp_Audit\<close> (\<open>_audit.py\<close>): the audit chain, its verification and what an edit does.
  \<^item> \<open>Agp_Tokens\<close> (\<open>_tokens.py\<close>): minting and decoding.
  \<^item> \<open>Firewall\<close>, \<open>Firewall_Actions\<close>, \<open>Firewall_Approvals\<close> (\<open>firewall.py\<close>): the record \<open>world\<close> and every
    public method and helper as a program on it.
  \<^item> \<open>Firewall_Frames\<close> (what each method leaves unchanged), \<open>Firewall_Runs\<close> (runs of any calls and the
    invariants of the log and the records), \<open>Ledger\<close> (the abstract specification: a set of grants with
    their parents and the revoked ones), \<open>Firewall_Refines\<close> (each method acts on the abstract ledger by
    at most the steps the ledger allows), \<open>Firewall_Properties\<close> (the properties of the public methods),
    \<open>Firewall_Demo\<close> (concrete worlds for the witnesses), \<open>Demo_Tokens\<close> (their token format, which stands
    for PyJWT).
  \<^item> \<open>Risk\<close> (\<open>risk.py\<close>): the risk vector computed from the log; \<open>Agp_Langgraph\<close>
    (\<open>integrations/langgraph.py\<close>): the guard of a graph node and delegation for a node.

  \<^bold>\<open>The theories of the service:\<close>
  \<^item> \<open>Service_Config\<close> (\<open>config.py\<close>): the settings and their validation; \<open>Service_State\<close>
    (\<open>models/audit.py\<close>, \<open>db/\<close>): the tables, the record \<open>service\<close> (committed tables \<open>sv_db\<close>, those of the
    open session \<open>sv_tx\<close>, audit rows \<open>sv_audit\<close>, Redis, the fields of the process), the record
    \<open>svc_env\<close> of everything outside, and sessions.
  \<^item> \<open>Service_Audit\<close> (\<open>engine/audit_logger.py\<close>), \<open>Service_Guardrails\<close> (\<open>engine/guardrails.py\<close>),
    \<open>Service_Revocation\<close> (\<open>engine/revocation.py\<close>), \<open>Service_Tokens\<close> (\<open>engine/token_engine.py\<close>,
    \<open>engine/subjects.py\<close>, \<open>models/token.py\<close>), \<open>Service_Engine\<close> (\<open>engine/delegation_engine.py\<close>),
    \<open>Service_Routes\<close> (\<open>routes/\<close>, \<open>container.py\<close>): one theory for each part, in the order they call
    each other.
  \<^item> \<open>Service_Frames\<close> (what the calls inside a request leave alone), \<open>Service_Refines\<close> and
    \<open>Service_Decisions\<close> (each method of the engine is at most one step of the abstract \<open>Ledger\<close>, the one
    the library refines), \<open>Service_Runs\<close> (requests, rounds of the flusher, losses of Redis and restarts
    as events; the invariant \<open>svc_inv\<close> and what every event may change), \<open>Service_Safety\<close> (the
    guarantees of runs), \<open>Service_Faults\<close> (the admin key, and decisions that are lost), \<open>Service_Demo\<close>
    (a concrete environment for the witnesses).
  \<^item> \<open>Service_Reports\<close> (the read-only routes of \<open>routes/audit.py\<close> and \<open>GET /health\<close>) and \<open>Service_Forest\<close>
    (the tree view is the forest of the delegations).

  \<^bold>\<open>The theories of the adapter:\<close>
  \<^item> \<open>Adf_Client\<close> (\<open>adf_client.py\<close>, \<open>guard.py\<close>): the client and the guard over any transport; the locale
    \<open>checkpoint_api\<close> says what the guard relies on.
  \<^item> \<open>Adf_Service\<close> (\<open>main.py\<close>): the paths and bodies of the application, a network that loses requests and
    answers, and the service as the interpretation of \<open>checkpoint_api\<close>; \<open>Adf_Delegation\<close>: what delegation
    through the adapter puts into the graph state.
  \<^item> \<open>Adf_Agents\<close> (\<open>agents.py\<close>): agents that act and delegate through the client; the locale
    \<open>agents_api\<close> extends \<open>checkpoint_api\<close> by the tokens that are refused for good.

  \<^bold>\<open>What the lemmas show.\<close> For both programs: delegation only narrows (scopes, expiry, depth), in one step
  and along every chain of every reachable state; \<open>verify\<close> says yes only when it should; revocation
  reaches every descendant, always ends, and is permanent, for the service through losses of Redis and
  restarts; approvals mint what was requested, once; the audit chain is intact after any run, whatever
  commits fail, and an edit of a row is found where it is; what the library delegates verifies as
  what was granted; an open breaker stays open through any calls until it is reset; the service has no token and no revocation
  without its audit row; the limiters and the breaker keep their bounds; the two storages agree. Through
  the adapter a guarded node runs only with a token the service accepts, a delegation gives the graph
  exactly the token the service signed and committed, and an agent whose token is revoked can do neither any more; agents that
  hold only such tokens perform nothing, whatever they attempt.
  The properties of kind error state where the service does less than it means to: a cache rebuilt
  between a revocation and its commit, a mirror that fails in one process only, a flush that loses its
  events, a revocation whose reason is longer than the column of the log (nothing is committed, and only
  the cache, until it is rebuilt, holds the tokens revoked), a rejection that is rolled back, an approved token
  of depth -1 in the graph state, an exception of the HTTP library that the client lets through.

  \<^bold>\<open>Choices.\<close> A method is a function from the state to a result or exception and the state left
  behind. Python integers are \<open>int\<close>, times are microseconds, floats are reals, strings are lists of
  characters. Readings of the clock and of \<open>uuid4\<close> are numbered by \<open>w_tick\<close>, in the service by its own
  counter, which also decides which command to Redis fails and which commit fails, so that a run has any
  pattern of failures. A loop over stored data that could run forever (the breadth-first walk) is a
  \<open>partial_function\<close> whose \<open>None\<close> is "does not return" (\<open>Diverges\<close>), and it is proved to return on every
  edge set. Fuel occurs only in the decoder of the examples' tokens, where the length of the text is
  enough. The locks make each storage method atomic, which a function is. A run of the
  service handles one request at a time; what two processes or interleaved transactions do is stated for
  the operations concerned (the properties about caches).

  \<^bold>\<open>Hypotheses\<close>, always named in the statements: ids of one run are fresh (\<open>fresh_uuids\<close>), a token that
  decodes belongs to a recorded capability (\<open>honest\<close>; in the service \<open>svc_honest\<close> and
  \<open>honest_events\<close>, where a token that names a revoked one may be anything: PyJWT accepts nothing the key did not sign), PyJWT gives back what it signed
  once the issue time is past (\<open>jwt_roundtrip\<close>, per payload; with a clock that does not go back
  \<open>reads_back\<close>), SHA-256 does not collide on the rows compared (stated for those rows only), the
  database keeps instants and rows (\<open>backend_ok\<close>, \<open>svc_backend_ok\<close>), the writes that reach a storage
  are those of the library (\<open>proper_run\<close>).

  \<^bold>\<open>Not modelled.\<close> The engine options of \<open>SqlStorage\<close>, \<open>RiskState.to_dict\<close>, texts of exceptions, logging.
  In the service: the time filter of \<open>GET /audit/log\<close> (the column \<open>ts\<close>, which no hash covers, is left
  out), response headers, the floats of \<open>GET /health\<close> in JSON, CORS and the OpenAPI texts of \<open>main.py\<close>.
  The service on SQLite, where all sessions share one connection and the commit of an audit row commits
  the open request with it (the production database is Postgres). Request bodies are read for the shapes the client sends. The drivers of the demonstration, the
  scripts and the migrations are examples and glue. \<open>PROJECT.json\<close> lists them with reasons.
\<close>

end
